(* ===== verification/Prelude.thy ===== *)
theory Prelude
  imports Main "HOL-Library.Word" "HOL-Library.Monad_Syntax"
begin

unbundle bit_operations_syntax

text \<open>
  The common vocabulary of the development: the C integer types, the \<open>errno\<close> values the
  sources name, the process-wide state that library calls read and write, and the generic
  facts on the option monad, on lists and on words that the component theories share.

  Conventions used by every theory of the library:
  \<^item> a C \<open>int\<close> is a \<^typ>\<open>32 word\<close>, read as signed by \<open>\<le>s\<close>, \<open><s\<close> and
    \<^const>\<open>sint\<close>; \<open>size_t\<close> and \<open>ssize_t\<close> are \<^typ>\<open>64 word\<close> values;
  \<^item> a function that may terminate the process (a failed \<open>assert\<close>, \<open>abort ()\<close>), that has
    undefined behaviour on some input, or that may loop, returns an option: \<^const>\<open>None\<close>
    means that the call does not return to its caller;
  \<^item> a function that changes state takes the state before and returns the state after.
\<close>

section \<open>Types\<close>

type_synonym c_int = "32 word"
type_synonym c_uint = "32 word"
type_synonym dword = "32 word"
type_synonym size_t = "64 word"
type_synonym ssize_t = "64 word"
type_synonym byte = "8 word"

text \<open>
  The \<open>errno\<close> values that the sources mention. \<open>EOK\<close> is 0 and \<open>EUNMAPPED\<close> is the
  \<open>-1\<close> that \<open>winsup/internal/errno.c\<close> stores for a Windows error without a mapping; the
  numbers of the others belong to the platform's \<open>errno.h\<close> and only their being different
  matters here. \<open>EOTHER n\<close> stands for any value that only library code stores.
\<close>

datatype (plugins only: size code) errno =
    EOK | EUNMAPPED | EOTHER int
  | EACCES | EADDRINUSE | EAGAIN | EBADF | EBUSY | ECHILD | ECONNREFUSED | EDEADLOCK
  | EEXIST | EFAULT | EFBIG | EHOSTUNREACH | EINTR | EINVAL | EIO | EISDIR | EMFILE | EMLINK
  | EMSGSIZE | ENAMETOOLONG | ENFILE | ENODATA | ENODEV | ENOENT | ENOEXEC | ENOLCK
  | ENOLINK | ENOMEM | ENOSPC | ENOSYS | ENOTDIR | ENOTEMPTY | ENOTSUP | ENXIO | EPERM
  | EPIPE | EROFS | ESRCH | EXDEV

text \<open>
  The part of the process state that code outside the repository shares with it: the
  thread's \<open>errno\<close> and everything else (the kernel, the file system, the C runtime), which
  the model leaves abstract as a value of type \<open>'w\<close>.
\<close>

record 'w os =
  errno :: errno
  env :: 'w

section \<open>Collections of facts\<close>

named_theorems c_simps \<open>evaluation of the C-level helpers\<close>
named_theorems frame \<open>what an operation leaves unchanged\<close>

section \<open>The option monad: calls that may not return\<close>

lemma bind_Some_conv [simp]: "(m \<bind> f) = Some y \<longleftrightarrow> (\<exists>x. m = Some x \<and> f x = Some y)"
  by (cases m) auto

lemma bind_None_conv: "(m \<bind> f) = None \<longleftrightarrow> m = None \<or> (\<exists>x. m = Some x \<and> f x = None)"
  by (cases m) auto

text \<open>A call and what follows it, as the equation of the call and the rest.\<close>

lemma call_eq: "case_prod f p = y \<longleftrightarrow> (\<exists>r t. p = (r, t) \<and> f r t = y)"
  by (cases p) simp

lemma maybe_eq: "case_option a f x = y \<longleftrightarrow> x = None \<and> a = y \<or> (\<exists>z. x = Some z \<and> f z = y)"
  by (cases x) auto

text \<open>The C \<open>assert\<close>: in a release build (\<open>NDEBUG\<close>) it does nothing at all.\<close>

definition c_assert :: "bool \<Rightarrow> bool \<Rightarrow> unit option" where
  "c_assert ndebug b = (if ndebug \<or> b then Some () else None)"

lemma c_assert_simps [simp]:
  "c_assert True b = Some ()"
  "c_assert nd True = Some ()"
  "c_assert False False = None"
  by (simp_all add: c_assert_def)

lemma c_assert_Some_iff: "c_assert nd b = Some u \<longleftrightarrow> nd \<or> b"
  by (simp add: c_assert_def)

section \<open>Lists\<close>

lemma takeWhile_neq_append [simp]: "x \<notin> set xs \<Longrightarrow> takeWhile (\<lambda>y. y \<noteq> x) (xs @ x # ys) = xs"
  by (induction xs) auto

lemma take_concat_snoc:
  "n \<le> length (concat xss) \<Longrightarrow> take n (concat xss @ ys) = take n (concat xss)"
  by simp

lemma last_index_split: "n < length xs \<Longrightarrow> xs = take n xs @ xs ! n # drop (Suc n) xs"
  by (rule id_take_nth_drop)

section \<open>Words\<close>

lemma zero_not_sless_zero [simp]: "\<not> (0 :: 'a :: len word) <s 0"
  by simp

lemma minus_one_sless_zero [simp]: "(- 1 :: 32 word) <s 0" "(- 1 :: 64 word) <s 0"
  by simp_all

lemma uint_small_iff: "uint w < numeral k \<longleftrightarrow> unat w < numeral k" for w :: "'a :: len word"
  using of_nat_less_iff [of "unat w" "numeral k", where 'a = int] by simp

lemma sint_small: "unat w < 2 ^ 31 \<Longrightarrow> sint (w :: 32 word) = int (unat w)"
proof -
  assume "unat w < 2 ^ 31"
  moreover have "- (2 ^ 31) \<le> uint w" by (rule order_trans [OF _ uint_ge_0]) simp
  ultimately show ?thesis
    unfolding sint_uint by (subst signed_take_bit_int_eq_self) (use uint_small_iff [of w] in auto)
qed

lemma unat_of_nat_c_int: "k < 2 ^ 31 \<Longrightarrow> unat (of_nat k :: c_int) = k"
  by (simp add: unat_of_nat)

lemma word_and_3_cases: "w AND 3 = 0 \<or> w AND 3 = 1 \<or> w AND 3 = 2 \<or> w AND 3 = 3" for w :: "32 word"
proof -
  have "w AND mask 2 = take_bit 2 w" by (simp only: take_bit_eq_mask)
  then have "w AND 3 = take_bit 2 w" by (simp add: mask_eq_exp_minus_1)
  then have "unat (w AND 3) = unat w mod 4" by (simp only: unsigned_take_bit_eq) (simp add: take_bit_nat_def)
  then have "unat (w AND 3) \<in> {0, 1, 2, 3}" by auto
  moreover have "unat (w AND 3) = k \<Longrightarrow> w AND 3 = of_nat k" for k by auto
  from this [of 0] this [of 1] this [of 2] this [of 3] calculation show ?thesis by auto
qed

lemma word_and_exp: "w AND 2 ^ n = (if bit w n then 2 ^ n else 0)" for w :: "'a :: len word"
  by (rule bit_word_eqI) (auto simp: bit_and_iff bit_exp_iff)

end
