(* ===== verification/StrCompat.thy ===== *)
theory StrCompat
  imports Prelude "HOL-Library.Sublist"
begin

text \<open>
  The two string routines that the repository carries for platforms without them:
  \<open>strlcpy\<close> of \<open>libc-compat/libbsd/str.c\<close> and \<open>memmem\<close> of \<open>libc-compat/winsup/str.c\<close>.

  Memory is modelled where it matters: a buffer is the list of its bytes, a pointer into it
  is an index, and every read and write goes through \<open>load\<close> and \<open>store\<close>, which have no
  result outside the buffer. A result \<open>Some r\<close> of one of the routines therefore also says that
  the routine stayed inside its buffers. \<open>strlcpy_spec\<close> and \<open>memmem_spec\<close> give the complete
  functional behaviour of both against reference definitions.
\<close>

section \<open>Buffers\<close>

definition load :: "'a list \<Rightarrow> nat \<Rightarrow> 'a option" where
  "load m i = (if i < length m then Some (m ! i) else None)"

definition store :: "'a list \<Rightarrow> nat \<Rightarrow> 'a \<Rightarrow> 'a list option" where
  "store m i x = (if i < length m then Some (m[i := x]) else None)"

lemma load_append [c_simps]: "load (xs @ y # ys) (length xs) = Some y"
  by (simp add: load_def)

lemma store_Some [c_simps]: "i < length m \<Longrightarrow> store m i x = Some (m[i := x])"
  by (simp add: store_def)

text \<open>The result of C \<open>int\<close> arithmetic: signed overflow is undefined.\<close>

definition int32 :: "int \<Rightarrow> int option" where
  "int32 x = (if - (2 ^ 31) \<le> x \<and> x < 2 ^ 31 then Some x else None)"

lemma int32_Some [c_simps]: "- (2 ^ 31) \<le> x \<Longrightarrow> x < 2 ^ 31 \<Longrightarrow> int32 x = Some x"
  by (simp add: int32_def)

section \<open>strlcpy\<close>

text \<open>
  The \<open>do ... while (--n != 0)\<close> loop: \<open>d\<close> and \<open>s\<close> are the positions the two pointers
  have reached. It is entered with a positive \<open>n\<close>; it leaves with \<open>n = 0\<close> when the space is
  used up and with a positive \<open>n\<close> at the \<open>break\<close> after the terminator.
\<close>

fun strlcpy_copy ::
  "byte list \<Rightarrow> byte list \<Rightarrow> nat \<Rightarrow> nat \<Rightarrow> nat \<Rightarrow> (byte list \<times> nat \<times> nat \<times> nat) option" where
  "strlcpy_copy dst src d s 0 = Some (dst, d, s, 0)"
| "strlcpy_copy dst src d s (Suc n) = do {
     c \<leftarrow> load src s;
     dst' \<leftarrow> store dst d c;
     if c = 0 then Some (dst', Suc d, Suc s, Suc n)
     else strlcpy_copy dst' src (Suc d) (Suc s) n
   }"

text \<open>\<open>while (*s++);\<close>\<close>

function strlcpy_skip :: "byte list \<Rightarrow> nat \<Rightarrow> nat option" where
  "strlcpy_skip src s =
     (if s < length src then if src ! s = 0 then Some (Suc s) else strlcpy_skip src (Suc s)
      else None)"
  by pat_completeness auto
termination
  by (relation "measure (\<lambda>(src, s). length src - s)") auto

declare strlcpy_skip.simps [simp del]

definition strlcpy :: "byte list \<Rightarrow> byte list \<Rightarrow> nat \<Rightarrow> (nat \<times> byte list) option" where
  "strlcpy dst src siz = do {
     (dst1, d, s, n) \<leftarrow>
       (if siz \<noteq> 0 \<and> siz - 1 \<noteq> 0 then strlcpy_copy dst src 0 0 (siz - 1)
        else Some (dst, 0, 0, siz - 1));
     if n = 0 then do {
       dst2 \<leftarrow> (if siz \<noteq> 0 then store dst1 d 0 else Some dst1);
       s' \<leftarrow> strlcpy_skip src s;
       Some (s' - 1, dst2)
     }
     else Some (s - 1, dst1)
   }"

lemma strlcpy_copy_spec:
  assumes "0 \<notin> set str" and "d + min n (Suc (length str)) \<le> length dst"
  shows "strlcpy_copy dst (pre @ str @ 0 # rest) d (length pre) n =
    (if length str < n
     then Some (take d dst @ str @ 0 # drop (Suc (d + length str)) dst,
                Suc (d + length str), Suc (length pre + length str), n - length str)
     else Some (take d dst @ take n str @ drop (d + n) dst, d + n, length pre + n, 0))"
  using assms
proof (induction n arbitrary: str dst d pre)
  case 0
  then show ?case by simp
next
  case (Suc n)
  show ?case
  proof (cases str)
    case Nil
    with Suc.prems have "d < length dst" by simp
    with Nil show ?thesis
      by (simp add: c_simps upd_conv_take_nth_drop)
  next
    case (Cons c cs)
    with Suc.prems have d: "d < length dst" and c: "c \<noteq> 0" by auto
    have "strlcpy_copy (dst[d := c]) ((pre @ [c]) @ cs @ 0 # rest) (Suc d) (length (pre @ [c])) n =
      (if length cs < n
       then Some (take (Suc d) (dst[d := c]) @ cs @ 0 # drop (Suc (Suc d + length cs)) (dst[d := c]),
                  Suc (Suc d + length cs), Suc (length (pre @ [c]) + length cs), n - length cs)
       else Some (take (Suc d) (dst[d := c]) @ take n cs @ drop (Suc d + n) (dst[d := c]),
                  Suc d + n, length (pre @ [c]) + n, 0))"
      using Suc.prems Cons by (intro Suc.IH) auto
    with d c Cons show ?thesis
      by (simp add: c_simps take_Suc_conv_app_nth)
  qed
qed

lemma strlcpy_skip_spec:
  "0 \<notin> set str \<Longrightarrow>
   strlcpy_skip (pre @ str @ 0 # rest) (length pre) = Some (Suc (length pre + length str))"
proof (induction str arbitrary: pre)
  case Nil
  then show ?case by (simp add: strlcpy_skip.simps)
next
  case (Cons c cs)
  then show ?case
    using Cons.IH [of "pre @ [c]"]
    by (subst strlcpy_skip.simps) (auto simp: nth_append)
qed

text \<open>What a call leaves in the destination: as much of the string as fits, terminated.\<close>

definition strlcpy_result :: "byte list \<Rightarrow> byte list \<Rightarrow> nat \<Rightarrow> byte list" where
  "strlcpy_result dst str siz =
     (if siz = 0 then dst
      else let k = min (siz - 1) (length str) in take k str @ 0 # drop (Suc k) dst)"

lemma strlcpy_spec_lemma:
  assumes str: "0 \<notin> set str" and fits: "min siz (Suc (length str)) \<le> length dst"
  shows "strlcpy dst (str @ 0 # rest) siz = Some (length str, strlcpy_result dst str siz)"
proof -
  consider "siz = 0" | "siz = 1" | m where "siz = Suc (Suc m)"
    by (metis One_nat_def nat.exhaust)
  then show ?thesis
  proof cases
    case 1
    then show ?thesis
      using strlcpy_skip_spec [OF str, of "[]"] by (simp add: strlcpy_def strlcpy_result_def)
  next
    case 2
    with fits obtain x xs where "dst = x # xs" by (cases dst) auto
    with 2 show ?thesis
      using strlcpy_skip_spec [OF str, of "[]"]
      by (simp add: strlcpy_def strlcpy_result_def c_simps)
  next
    case 3
    have copy: "strlcpy_copy dst (str @ 0 # rest) 0 0 (Suc m) =
      (if length str < Suc m
       then Some (str @ 0 # drop (Suc (length str)) dst, Suc (length str), Suc (length str),
                  Suc m - length str)
       else Some (take (Suc m) str @ drop (Suc m) dst, Suc m, Suc m, 0))"
      using strlcpy_copy_spec [OF str, of 0 "Suc m" dst "[]"] fits 3 by simp
    show ?thesis
    proof (cases "length str < Suc m")
      case True
      with 3 show ?thesis
        by (simp add: strlcpy_def copy strlcpy_result_def del: strlcpy_copy.simps)
    next
      case False
      have "strlcpy_skip (take (Suc m) str @ drop (Suc m) str @ 0 # rest)
              (length (take (Suc m) str)) =
            Some (Suc (length (take (Suc m) str) + length (drop (Suc m) str)))"
        using str by (intro strlcpy_skip_spec) (meson in_set_dropD)
      with False have "strlcpy_skip (str @ 0 # rest) (Suc m) = Some (Suc (length str))"
        by (simp add: append_assoc [symmetric] del: append_assoc)
      moreover have "store (take (Suc m) str @ drop (Suc m) dst) (Suc m) 0 =
          Some (take (Suc m) str @ 0 # drop (Suc (Suc m)) dst)"
        using fits 3 False
        by (simp add: c_simps list_update_append Cons_nth_drop_Suc [symmetric])
      ultimately show ?thesis
        using 3 False
        by (simp add: strlcpy_def copy strlcpy_result_def del: strlcpy_copy.simps)
    qed
  qed
qed

section \<open>memmem\<close>

text \<open>
  \<open>memchr\<close> and \<open>memcmp\<close> of the C library, at a position of a buffer. \<open>memchr\<close> reads up
  to the byte it finds; \<open>memcmp\<close> may read all \<open>n\<close> bytes of both arguments.
\<close>

fun memchr :: "byte list \<Rightarrow> nat \<Rightarrow> byte \<Rightarrow> nat \<Rightarrow> nat option option" where
  "memchr m i c 0 = Some None"
| "memchr m i c (Suc n) = do {
     x \<leftarrow> load m i;
     if x = c then Some (Some i) else memchr m (Suc i) c n
   }"

definition memcmp_eq :: "byte list \<Rightarrow> nat \<Rightarrow> byte list \<Rightarrow> nat \<Rightarrow> bool option" where
  "memcmp_eq m i t n =
     (if i + n \<le> length m \<and> n \<le> length t then Some (take n (drop i m) = take n t) else None)"

lemma memchr_spec:
  "i + n \<le> length m \<Longrightarrow> memchr m i c n = Some (find (\<lambda>j. m ! j = c) [i..<i + n])"
proof (induction n arbitrary: i)
  case 0
  then show ?case by simp
next
  case (Suc n)
  then show ?case
    using Suc.IH [of "Suc i"] by (simp add: load_def upt_conv_Cons del: upt_Suc)
qed

lemma find_upt_Some_iff:
  "find P [i..<n] = Some j \<longleftrightarrow> i \<le> j \<and> j < n \<and> P j \<and> (\<forall>k. i \<le> k \<longrightarrow> k < j \<longrightarrow> \<not> P k)"
proof (induction "n - i" arbitrary: i)
  case 0
  then show ?case by auto
next
  case (Suc d)
  then have "i < n" and d: "d = n - Suc i" by auto
  have ih: "find P [Suc i..<n] = Some j \<longleftrightarrow>
      Suc i \<le> j \<and> j < n \<and> P j \<and> (\<forall>k. Suc i \<le> k \<longrightarrow> k < j \<longrightarrow> \<not> P k)"
    by (rule Suc.hyps(1)) (rule d)
  show ?case
  proof (cases "P i")
    case True
    with \<open>i < n\<close> show ?thesis
      by (auto simp: upt_conv_Cons)
  next
    case False
    with \<open>i < n\<close> ih show ?thesis
      by (auto simp: upt_conv_Cons) (metis Suc_leI le_neq_implies_less)+
  qed
qed

lemma find_upt_None_iff: "find P [i..<n] = None \<longleftrightarrow> (\<forall>k. i \<le> k \<longrightarrow> k < n \<longrightarrow> \<not> P k)"
  by (auto simp: find_None_iff)

text \<open>
  The search loop. The C arithmetic on \<open>haystacklen - ndx - needlelen + 1\<close> is done in
  \<open>int\<close>; \<open>ndx\<close> starts at 0 and only grows. The \<open>size_t\<close> argument of \<open>memcmp\<close> is the
  \<open>int\<close> \<open>needlelen\<close>, which for a negative value is larger than any buffer.
\<close>

function memmem_loop ::
  "byte list \<Rightarrow> byte list \<Rightarrow> int \<Rightarrow> int \<Rightarrow> nat \<Rightarrow> nat option option" where
  "memmem_loop hay needle haystacklen needlelen ndx =
     (if int ndx \<le> haystacklen then do {
        a \<leftarrow> int32 (haystacklen - int ndx);
        b \<leftarrow> int32 (a - needlelen);
        searchlen \<leftarrow> int32 (b + 1);
        if searchlen \<le> 0 then Some None
        else do {
          c \<leftarrow> load needle 0;
          found \<leftarrow> memchr hay ndx c (nat searchlen);
          (case found of
             None \<Rightarrow> Some None
           | Some tptr \<Rightarrow>
               if needlelen < 0 then None
               else do {
                 same \<leftarrow> memcmp_eq hay tptr needle (nat needlelen);
                 if same then Some (Some tptr)
                 else memmem_loop hay needle haystacklen needlelen (ndx + (tptr - ndx + 1))
               })
        }
      }
      else Some None)"
  by pat_completeness auto
termination
  by (relation "measure (\<lambda>(hay, needle, hl, nl, ndx). nat (hl + 1 - int ndx))") auto

declare memmem_loop.simps [simp del]

text \<open>A null pointer argument is \<^const>\<open>None\<close>; the result is the offset of the match.\<close>

definition memmem :: "byte list option \<Rightarrow> int \<Rightarrow> byte list option \<Rightarrow> int \<Rightarrow> nat option option" where
  "memmem haystack haystacklen needle needlelen =
     (case haystack of None \<Rightarrow> Some None
      | Some hay \<Rightarrow> if haystacklen = 0 then Some None
        else (case needle of None \<Rightarrow> Some None
              | Some ndl \<Rightarrow> if needlelen = 0 then Some None
                else memmem_loop hay ndl haystacklen needlelen 0))"

text \<open>The reference: the first position at which the needle occurs.\<close>

definition occurs_at :: "byte list \<Rightarrow> byte list \<Rightarrow> nat \<Rightarrow> bool" where
  "occurs_at hay needle i \<longleftrightarrow>
     i + length needle \<le> length hay \<and> take (length needle) (drop i hay) = needle"

definition first_occurrence :: "byte list \<Rightarrow> byte list \<Rightarrow> nat option" where
  "first_occurrence hay needle = find (occurs_at hay needle) [0..<Suc (length hay)]"

lemma first_occurrence_Some_iff:
  "first_occurrence hay needle = Some i \<longleftrightarrow>
     occurs_at hay needle i \<and> (\<forall>k < i. \<not> occurs_at hay needle k)"
  unfolding first_occurrence_def find_upt_Some_iff by (auto simp: occurs_at_def)

lemma first_occurrence_None_iff:
  "first_occurrence hay needle = None \<longleftrightarrow> (\<forall>k. \<not> occurs_at hay needle k)"
  unfolding first_occurrence_def find_upt_None_iff by (auto simp: occurs_at_def)

lemma occurs_at_hd: "occurs_at hay needle i \<Longrightarrow> needle \<noteq> [] \<Longrightarrow> hay ! i = hd needle"
  by (cases needle) (auto simp: occurs_at_def hd_conv_nth dest!: arg_cong [where f = "\<lambda>xs. xs ! 0"])

text \<open>
  One round of the loop: \<open>memchr\<close> looks for the first byte of the needle among the positions that
  leave room for it, and no machine arithmetic overflows.
\<close>

lemma memmem_loop_step:
  assumes "needle \<noteq> []" and "length hay < 2 ^ 31" and "length needle < 2 ^ 31"
    and "ndx + length needle \<le> length hay"
  shows "memmem_loop hay needle (int (length hay)) (int (length needle)) ndx =
    (case find (\<lambda>j. hay ! j = hd needle) [ndx..<Suc (length hay) - length needle] of
       None \<Rightarrow> Some None
     | Some tptr \<Rightarrow> memcmp_eq hay tptr needle (length needle) \<bind>
         (\<lambda>same. if same then Some (Some tptr)
           else memmem_loop hay needle (int (length hay)) (int (length needle)) (Suc tptr)))"
proof -
  let ?n = "Suc (length hay) - ndx - length needle"
  let ?found = "find (\<lambda>j. hay ! j = hd needle) [ndx..<ndx + ?n]"
  have mc: "memchr hay ndx (hd needle) ?n = Some ?found"
    using assms(1,4) by (intro memchr_spec) (cases needle; auto)
  have sl: "nat (int (length hay) - int ndx - int (length needle) + 1) = ?n"
    using assms(4) by linarith
  have "0 < length needle" and "length hay < 2147483648" using assms(1,2) by simp_all
  then have lt: "int (length hay) - int ndx - int (length needle) < 2147483647" by linarith
  have upto: "ndx + ?n = Suc (length hay) - length needle" using assms(4) by linarith
  have geq: "ndx + (t - ndx + 1) = Suc t" if "?found = Some t" for t
    using that by (auto simp: find_upt_Some_iff)
  show ?thesis
    using assms mc sl lt geq unfolding upto
    by (subst memmem_loop.simps)
       (auto simp: int32_def load_def hd_conv_nth split: option.splits cong: if_cong)
qed

lemma memmem_loop_spec:
  assumes "needle \<noteq> []" and "length hay < 2 ^ 31" and "length needle < 2 ^ 31"
    and "\<forall>k < ndx. \<not> occurs_at hay needle k"
  shows "memmem_loop hay needle (int (length hay)) (int (length needle)) ndx =
    Some (first_occurrence hay needle)"
  using assms(4)
proof (induction "Suc (length hay) - ndx" arbitrary: ndx rule: less_induct)
  case less
  show ?case
  proof (cases "ndx + length needle \<le> length hay")
    case False
    then have none: "first_occurrence hay needle = None"
      using less.prems by (auto simp: first_occurrence_None_iff occurs_at_def)
    with False assms(1-3) show ?thesis
      by (subst memmem_loop.simps) (auto simp: int32_def)
  next
    case True
    note step = memmem_loop_step [OF assms(1-3) True]
    show ?thesis
    proof (cases "find (\<lambda>j. hay ! j = hd needle) [ndx..<Suc (length hay) - length needle]")
      case None
      have "\<not> occurs_at hay needle k" for k
        using None less.prems True assms(1) occurs_at_hd [of hay needle k]
        by (cases "k < ndx") (auto simp: find_upt_None_iff occurs_at_def)
      then have "first_occurrence hay needle = None"
        by (simp add: first_occurrence_None_iff)
      with None show ?thesis by (simp add: step)
    next
      case (Some t)
      then have t: "ndx \<le> t" "t + length needle \<le> length hay"
          and "\<forall>k. ndx \<le> k \<longrightarrow> k < t \<longrightarrow> hay ! k \<noteq> hd needle"
        by (auto simp: find_upt_Some_iff)
      then have before: "\<forall>k < t. \<not> occurs_at hay needle k"
        using less.prems assms(1) occurs_at_hd by (metis not_le)
      have cmp: "memcmp_eq hay t needle (length needle) = Some (occurs_at hay needle t)"
        using t by (auto simp: memcmp_eq_def occurs_at_def)
      show ?thesis
      proof (cases "occurs_at hay needle t")
        case yes: True
        then have "first_occurrence hay needle = Some t"
          using before by (simp add: first_occurrence_Some_iff)
        with yes Some cmp show ?thesis by (simp add: step)
      next
        case no: False
        then have "\<forall>k < Suc t. \<not> occurs_at hay needle k"
          using before less_Suc_eq by auto
        then have "memmem_loop hay needle (int (length hay)) (int (length needle)) (Suc t) =
            Some (first_occurrence hay needle)"
          using t assms(1) by (intro less.hyps) auto
        with no Some cmp t show ?thesis by (simp add: step)
      qed
    qed
  qed
qed

section \<open>The search interface\<close>

text \<open>
  What a caller of a substring search relies on: it returns for every admissible pair of
  buffers, a hit is an occurrence, and no occurrence lies before it.
\<close>

locale substring_search =
  fixes admissible :: "byte list \<Rightarrow> byte list \<Rightarrow> bool"
    and search :: "byte list \<Rightarrow> byte list \<Rightarrow> nat option option"
  assumes returns: "admissible hay ndl \<Longrightarrow> search hay ndl \<noteq> None"
    and hit: "admissible hay ndl \<Longrightarrow> search hay ndl = Some (Some i) \<Longrightarrow> occurs_at hay ndl i"
    and leftmost: "admissible hay ndl \<Longrightarrow> search hay ndl = Some r \<Longrightarrow> occurs_at hay ndl j \<Longrightarrow>
      \<exists>i \<le> j. r = Some i"
begin

lemma hit_split:
  assumes "admissible hay ndl" and "search hay ndl = Some (Some i)"
  shows "hay = take i hay @ ndl @ drop (i + length ndl) hay"
proof -
  have "ndl = take (length ndl) (drop i hay)"
    using hit [OF assms] by (simp add: occurs_at_def)
  then show ?thesis by (metis append_take_drop_id drop_drop add.commute)
qed

lemma found_iff_sublist:
  assumes "admissible hay ndl"
  shows "(\<exists>i. search hay ndl = Some (Some i)) \<longleftrightarrow> sublist ndl hay"
proof
  assume "\<exists>i. search hay ndl = Some (Some i)"
  then show "sublist ndl hay"
    using hit_split [OF assms] by (metis sublist_appendI)
next
  assume "sublist ndl hay"
  then obtain pre post where "hay = pre @ ndl @ post" by (auto simp: sublist_def)
  then have "occurs_at hay ndl (length pre)" by (simp add: occurs_at_def)
  then show "\<exists>i. search hay ndl = Some (Some i)"
    using leftmost [OF assms] returns [OF assms] by (metis not_Some_eq)
qed

end

text \<open>
  The calls \<open>memmem (hay, strlen, needle, strlen)\<close> with non-empty buffers whose lengths are
  \<open>int\<close> values.
\<close>

definition memmem_bytes :: "byte list \<Rightarrow> byte list \<Rightarrow> nat option option" where
  "memmem_bytes hay ndl = memmem (Some hay) (int (length hay)) (Some ndl) (int (length ndl))"

definition int_sized :: "byte list \<Rightarrow> byte list \<Rightarrow> bool" where
  "int_sized hay ndl \<longleftrightarrow> ndl \<noteq> [] \<and> length hay < 2 ^ 31 \<and> length ndl < 2 ^ 31"

lemma memmem_bytes_first: "int_sized hay ndl \<Longrightarrow> memmem_bytes hay ndl = Some (first_occurrence hay ndl)"
proof -
  assume "int_sized hay ndl"
  then have "ndl \<noteq> []" and "length hay < 2 ^ 31" and "length ndl < 2 ^ 31"
    by (simp_all add: int_sized_def)
  then have "memmem_loop hay ndl (int (length hay)) (int (length ndl)) 0 =
      Some (first_occurrence hay ndl)"
    by (intro memmem_loop_spec) auto
  moreover have "first_occurrence [] ndl = None"
    using \<open>ndl \<noteq> []\<close> by (simp add: first_occurrence_None_iff occurs_at_def)
  ultimately show ?thesis
    using \<open>ndl \<noteq> []\<close> by (auto simp: memmem_bytes_def memmem_def)
qed

interpretation mm: substring_search int_sized memmem_bytes
proof
  fix hay ndl r i j
  assume ok: "int_sized hay ndl"
  show "memmem_bytes hay ndl \<noteq> None"
    using ok by (simp add: memmem_bytes_first)
  show "memmem_bytes hay ndl = Some (Some i) \<Longrightarrow> occurs_at hay ndl i"
    using ok by (simp add: memmem_bytes_first first_occurrence_Some_iff)
  show "memmem_bytes hay ndl = Some r \<Longrightarrow> occurs_at hay ndl j \<Longrightarrow> \<exists>i \<le> j. r = Some i"
    using ok first_occurrence_None_iff [of hay ndl]
    by (cases r) (auto simp: memmem_bytes_first first_occurrence_Some_iff not_less [symmetric])
qed

section \<open>Properties\<close>

text \<open>
  Property C14. \<open>strlcpy\<close> on a terminated source string: it returns the length of the source
  string, stays inside both buffers, and leaves in the destination the longest prefix of the
  source that fits into \<open>siz - 1\<close> bytes, a terminator after it, and every other byte as it
  was; with \<open>siz = 0\<close> the destination is not touched at all.
\<close>

theorem strlcpy_correct:
  assumes "0 \<notin> set str" and "min siz (Suc (length str)) \<le> length dst"
  shows "strlcpy dst (str @ 0 # rest) siz =
    Some (length str,
      if siz = 0 then dst
      else take (siz - 1) str @ 0 # drop (Suc (min (siz - 1) (length str))) dst)"
  using strlcpy_spec_lemma [OF assms]
  by (simp add: strlcpy_result_def Let_def min_def)

theorem strlcpy_correct_witness:
  "strlcpy [9, 9, 9, 9, 9] ([65, 66, 67, 68] @ 0 # [7]) 3 = Some (4, [65, 66, 0, 9, 9])"
  using strlcpy_correct [of "[65, 66, 67, 68]" 3 "[9, 9, 9, 9, 9]" "[7]"] by simp

text \<open>
  Property C15. \<open>memmem\<close> against its reference: for two buffers whose lengths fit an \<open>int\<close>
  and a non-empty needle the call returns, never reads outside the buffers, finds the needle
  exactly if it is a contiguous part of the haystack, and then returns the first position at
  which it occurs.
\<close>

theorem memmem_correct:
  assumes "needle \<noteq> []" and "length hay < 2 ^ 31" and "length needle < 2 ^ 31"
  shows "\<exists>r. memmem (Some hay) (int (length hay)) (Some needle) (int (length needle)) = Some r \<and>
    (r \<noteq> None \<longleftrightarrow> sublist needle hay) \<and>
    (\<forall>i. r = Some i \<longrightarrow> hay = take i hay @ needle @ drop (i + length needle) hay \<and>
      (\<forall>j < i. \<not> occurs_at hay needle j))"
proof -
  have ok: "int_sized hay needle" using assms by (simp add: int_sized_def)
  have mb: "memmem_bytes hay needle = Some (first_occurrence hay needle)"
    by (rule memmem_bytes_first [OF ok])
  have "first_occurrence hay needle \<noteq> None \<longleftrightarrow> sublist needle hay"
    using mm.found_iff_sublist [OF ok] mb by simp
  moreover have "hay = take i hay @ needle @ drop (i + length needle) hay \<and>
      (\<forall>j < i. \<not> occurs_at hay needle j)" if "first_occurrence hay needle = Some i" for i
    using mm.hit_split [OF ok, of i] mb that by (simp add: first_occurrence_Some_iff)
  ultimately show ?thesis using mb by (auto simp: memmem_bytes_def)
qed

theorem memmem_correct_witness:
  "\<exists>r. memmem (Some [1, 2, 3, 2, 3, 4]) 6 (Some [2, 3, 4]) 3 = Some r \<and>
    (r \<noteq> None \<longleftrightarrow> sublist [2, 3, 4] [1, 2, 3, 2, 3, 4 :: byte])"
proof -
  have "[2, 3, 4 :: byte] \<noteq> []" "length [1, 2, 3, 2, 3, 4 :: byte] < 2 ^ 31"
    "length [2, 3, 4 :: byte] < 2 ^ 31"
    by simp_all
  from memmem_correct [OF this] show ?thesis by auto
qed

end
