(* ===== verification/MmapHack.thy ===== *)
theory MmapHack
  imports Prelude
begin

text \<open>
  \<open>libc-compat/emsup/mmap_hack.c\<close>: on Emscripten a shared writable file mapping is only
  written back by \<open>munmap\<close> if its descriptor is still open, so the module wraps \<open>mmap\<close>,
  \<open>munmap\<close>, \<open>close\<close> and \<open>fclose\<close> and delays a close until the last mapping of the
  descriptor is gone.

  The module's table \<open>maps\<close> is a singly linked list of heap blocks. It is modelled as
  such: \<open>nodes\<close> maps the address of every live block to its contents, \<open>maps\<close> is the head
  pointer, 0 is \<open>NULL\<close>, and the loops follow \<open>me_next\<close>; following a dangling pointer has no
  result. The library calls underneath are the fields of an \<open>em_api\<close>. Every operation takes
  the build mode \<open>nd\<close>: with \<open>NDEBUG\<close> defined, \<open>assert (e)\<close> does not even evaluate \<open>e\<close>.
\<close>

section \<open>State\<close>

type_synonym ptr = "32 word"
type_synonym wsize = "32 word"

record map_entry =
  me_ptr :: ptr
  me_len :: wsize
  me_fd :: c_int
  me_fp :: ptr
  me_have_fp :: bool
  me_want_close :: bool
  me_next :: ptr

type_synonym node_heap = "ptr \<rightharpoonup> map_entry"

record 'w mm_state =
  nodes :: node_heap
  maps :: ptr
  mm_os :: "'w os"

text \<open>
  The functions underneath. \<open>em_malloc\<close> is given the addresses of the module's live blocks
  and returns an address and what the block holds when it is handed out.
\<close>

record 'w em_api =
  em_mmap :: "ptr \<Rightarrow> wsize \<Rightarrow> c_int \<Rightarrow> c_int \<Rightarrow> c_int \<Rightarrow> 64 word \<Rightarrow> 'w os \<Rightarrow> ptr \<times> 'w os"
  em_munmap :: "ptr \<Rightarrow> wsize \<Rightarrow> 'w os \<Rightarrow> c_int \<times> 'w os"
  em_fcntl_getfd :: "c_int \<Rightarrow> 'w os \<Rightarrow> c_int \<times> 'w os"
  em_close :: "c_int \<Rightarrow> 'w os \<Rightarrow> c_int \<times> 'w os"
  em_fclose :: "ptr \<Rightarrow> 'w os \<Rightarrow> c_int \<times> 'w os"
  em_fileno :: "ptr \<Rightarrow> 'w os \<Rightarrow> c_int \<times> 'w os"
  em_fflush :: "ptr \<Rightarrow> 'w os \<Rightarrow> c_int \<times> 'w os"
  em_malloc :: "ptr set \<Rightarrow> 'w os \<Rightarrow> ptr \<times> map_entry \<times> 'w os"

definition MAP_FAILED :: ptr where "MAP_FAILED = - 1"
definition PROT_WRITE :: c_int where "PROT_WRITE = 2"
definition MAP_SHARED :: c_int where "MAP_SHARED = 1"

section \<open>The list loops\<close>

text \<open>
  The macro \<open>filter_map_by_key_or\<close> expands to a loop over the list. Two shapes of it occur:
  a handler that updates every match and lets the loop go on (\<open>mark_loop\<close>, which also returns
  the flag that says whether there was a match), and a handler that leaves the loop at the
  first match (\<open>find_loop\<close>, which returns \<open>prev\<close> and the match, or 0 if there is none).
\<close>

partial_function (option) mark_loop ::
  "(map_entry \<Rightarrow> bool) \<Rightarrow> (map_entry \<Rightarrow> map_entry) \<Rightarrow> ptr \<Rightarrow> bool \<Rightarrow> node_heap \<Rightarrow>
   (bool \<times> node_heap) option" where
  "mark_loop is_match handler i flag h =
     (if i = 0 then Some (flag, h)
      else do {
        e \<leftarrow> h i;
        if is_match e
        then mark_loop is_match handler (me_next (handler e)) True (h(i \<mapsto> handler e))
        else mark_loop is_match handler (me_next e) flag h
      })"

partial_function (option) find_loop ::
  "(map_entry \<Rightarrow> bool) \<Rightarrow> ptr \<Rightarrow> ptr \<Rightarrow> node_heap \<Rightarrow> (ptr \<times> ptr) option" where
  "find_loop is_match prev i h =
     (if i = 0 then Some (prev, 0)
      else do {
        e \<leftarrow> h i;
        if is_match e then Some (prev, i)
        else find_loop is_match i (me_next e) h
      })"

section \<open>The wrapped functions\<close>

definition mmap_stub_impl ::
  "bool \<Rightarrow> 'w em_api \<Rightarrow> ptr \<Rightarrow> wsize \<Rightarrow> c_int \<Rightarrow> c_int \<Rightarrow> c_int \<Rightarrow> 64 word \<Rightarrow>
   'w mm_state \<Rightarrow> (ptr \<times> 'w mm_state) option" where
  "mmap_stub_impl nd K addr len prot flags fildes off s =
     (let (p, o1) = em_mmap K addr len prot flags fildes off (mm_os s);
          s1 = s\<lparr>mm_os := o1\<rparr>
      in if p = MAP_FAILED then Some (p, s1)
         else if \<not> fildes <s 0 \<and> prot AND PROT_WRITE \<noteq> 0 \<and> flags AND MAP_SHARED \<noteq> 0 then
           (let (m, block, o2) = em_malloc K (dom (nodes s1)) o1
            in do {
              _ \<leftarrow> c_assert nd (m \<noteq> 0);
              if m = 0 then None
              else Some (p, s1\<lparr>nodes := (nodes s1)(m \<mapsto> block\<lparr>me_ptr := p, me_len := len,
                                 me_fd := fildes, me_have_fp := False,
                                 me_want_close := False, me_next := maps s1\<rparr>),
                               maps := m, mm_os := o2\<rparr>)
            })
         else Some (p, s1))"

definition wrap_close :: "'w em_api \<Rightarrow> c_int \<Rightarrow> 'w mm_state \<Rightarrow> (c_int \<times> 'w mm_state) option" where
  "wrap_close K fildes s =
     (let (r, o1) = em_fcntl_getfd K fildes (mm_os s); s1 = s\<lparr>mm_os := o1\<rparr>
      in if r <s 0 then Some (- 1, s1)
         else do {
           (flag, h) \<leftarrow> mark_loop (\<lambda>e. me_fd e = fildes) (\<lambda>e. e\<lparr>me_want_close := True\<rparr>)
                          (maps s1) False (nodes s1);
           let s2 = s1\<lparr>nodes := h\<rparr>;
           if flag then Some (0, s2)
           else (let (r', o2) = em_close K fildes (mm_os s2) in Some (r', s2\<lparr>mm_os := o2\<rparr>))
         })"

definition wrap_fclose :: "'w em_api \<Rightarrow> ptr \<Rightarrow> 'w mm_state \<Rightarrow> (c_int \<times> 'w mm_state) option" where
  "wrap_fclose K stream s =
     (if stream = 0 then Some (- 1, s\<lparr>mm_os := (mm_os s)\<lparr>errno := EBADF\<rparr>\<rparr>)
      else
        (let (fildes, o1) = em_fileno K stream (mm_os s); s1 = s\<lparr>mm_os := o1\<rparr>
         in if fildes <s 0
            then (let (r, o2) = em_fclose K stream o1 in Some (r, s1\<lparr>mm_os := o2\<rparr>))
            else do {
              (flag, h) \<leftarrow> mark_loop (\<lambda>e. me_fd e = fildes)
                 (\<lambda>e. e\<lparr>me_want_close := True, me_fp := stream, me_have_fp := True\<rparr>)
                 (maps s1) False (nodes s1);
              let s2 = s1\<lparr>nodes := h\<rparr>;
              if flag
              then (let (_, o2) = em_fflush K stream (mm_os s2) in Some (0, s2\<lparr>mm_os := o2\<rparr>))
              else (let (r, o2) = em_fclose K stream (mm_os s2) in Some (r, s2\<lparr>mm_os := o2\<rparr>))
            }))"

text \<open>
  \<open>mp\<close> (the parameter \<open>map\<close>) is the entry that \<open>munmap\<close> has just unlinked. The delayed close stands inside an
  \<open>assert\<close>, so it is compiled only without \<open>NDEBUG\<close>.
\<close>

definition delayed_close :: "bool \<Rightarrow> 'w em_api \<Rightarrow> map_entry \<Rightarrow> 'w os \<Rightarrow> 'w os option" where
  "delayed_close nd K mp os =
     (if nd then Some os
      else
        (let (r, os') = (if me_have_fp mp then em_fclose K (me_fp mp) os
                         else em_close K (me_fd mp) os)
         in do { _ \<leftarrow> c_assert nd (r = 0); Some os' }))"

definition post_munmap_hook ::
  "bool \<Rightarrow> 'w em_api \<Rightarrow> map_entry \<Rightarrow> wsize \<Rightarrow> 'w mm_state \<Rightarrow> 'w mm_state option" where
  "post_munmap_hook nd K mp len s = do {
     _ \<leftarrow> c_assert nd (me_len mp = len);
     (prev, i) \<leftarrow> find_loop (\<lambda>e. me_fd e = me_fd mp) 0 (maps s) (nodes s);
     if i \<noteq> 0 then do {
       e \<leftarrow> nodes s i;
       _ \<leftarrow> c_assert nd (me_want_close e);
       Some s
     }
     else do {
       os' \<leftarrow> delayed_close nd K mp (mm_os s);
       Some (s\<lparr>mm_os := os'\<rparr>)
     }
   }"

definition munmap_stub_impl ::
  "bool \<Rightarrow> 'w em_api \<Rightarrow> ptr \<Rightarrow> wsize \<Rightarrow> 'w mm_state \<Rightarrow> (c_int \<times> 'w mm_state) option" where
  "munmap_stub_impl nd K addr len s =
     (let (res, o1) = em_munmap K addr len (mm_os s); s1 = s\<lparr>mm_os := o1\<rparr>
      in if res <s 0 then Some (res, s1)
         else do {
           (prev, i) \<leftarrow> find_loop (\<lambda>e. me_ptr e = addr) 0 (maps s1) (nodes s1);
           if i = 0 then Some (res, s1)
           else do {
             e \<leftarrow> nodes s1 i;
             s2 \<leftarrow> (if prev \<noteq> 0 then do {
                       pe \<leftarrow> nodes s1 prev;
                       Some (s1\<lparr>nodes := (nodes s1)(prev \<mapsto> pe\<lparr>me_next := me_next e\<rparr>)\<rparr>)
                     }
                   else Some (s1\<lparr>maps := me_next e\<rparr>));
             s3 \<leftarrow> (if me_want_close e then post_munmap_hook nd K e len s2 else Some s2);
             Some (res, s3\<lparr>nodes := (nodes s3)(i := None)\<rparr>)
           }
         })"

end
