(* ===== verification/MmapSpec.thy ===== *)
theory MmapSpec
  imports MmapHack
begin

text \<open>
  What the linked list of \<open>mmap_hack.c\<close> stands for, and the proof that the pointer code
  implements it. The abstract table is a list of entries without links; the four wrapped
  functions are restated over it (\<open>spec_mmap\<close>, \<open>spec_close\<close>, \<open>spec_fclose\<close>,
  \<open>spec_munmap\<close>). The relation \<open>implements\<close> says that the blocks reachable from the head
  pointer are distinct, are exactly the live blocks, and carry the abstract entries in order.
  Each wrapped function is shown to simulate its abstract counterpart step by step.
\<close>

section \<open>The abstract table\<close>

record mapping =
  m_ptr :: ptr
  m_len :: wsize
  m_fd :: c_int
  m_fp :: ptr
  m_have_fp :: bool
  m_want_close :: bool

record 'w mm_spec =
  entries :: "mapping list"
  sp_os :: "'w os"

definition abs_entry :: "map_entry \<Rightarrow> mapping" where
  "abs_entry e = \<lparr>m_ptr = me_ptr e, m_len = me_len e, m_fd = me_fd e, m_fp = me_fp e,
     m_have_fp = me_have_fp e, m_want_close = me_want_close e\<rparr>"

lemma abs_entry_sel [simp]:
  "m_ptr (abs_entry e) = me_ptr e" "m_len (abs_entry e) = me_len e"
  "m_fd (abs_entry e) = me_fd e" "m_fp (abs_entry e) = me_fp e"
  "m_have_fp (abs_entry e) = me_have_fp e" "m_want_close (abs_entry e) = me_want_close e"
  by (simp_all add: abs_entry_def)

lemma abs_entry_next [simp]: "abs_entry (e\<lparr>me_next := p\<rparr>) = abs_entry e"
  by (simp add: abs_entry_def)

definition spec_mmap ::
  "'w em_api \<Rightarrow> ptr set \<Rightarrow> ptr \<Rightarrow> wsize \<Rightarrow> c_int \<Rightarrow> c_int \<Rightarrow> c_int \<Rightarrow> 64 word \<Rightarrow>
   'w mm_spec \<Rightarrow> (ptr \<times> 'w mm_spec) option" where
  "spec_mmap K live addr len prot flags fildes off a =
     (let (p, o1) = em_mmap K addr len prot flags fildes off (sp_os a)
      in if p = MAP_FAILED then Some (p, a\<lparr>sp_os := o1\<rparr>)
         else if \<not> fildes <s 0 \<and> prot AND PROT_WRITE \<noteq> 0 \<and> flags AND MAP_SHARED \<noteq> 0 then
           (let (m, block, o2) = em_malloc K live o1
            in if m = 0 then None
               else Some (p, a\<lparr>entries := \<lparr>m_ptr = p, m_len = len, m_fd = fildes,
                                 m_fp = me_fp block, m_have_fp = False, m_want_close = False\<rparr>
                                 # entries a,
                               sp_os := o2\<rparr>))
         else Some (p, a\<lparr>sp_os := o1\<rparr>))"

definition spec_close :: "'w em_api \<Rightarrow> c_int \<Rightarrow> 'w mm_spec \<Rightarrow> c_int \<times> 'w mm_spec" where
  "spec_close K fildes a =
     (let (r, o1) = em_fcntl_getfd K fildes (sp_os a)
      in if r <s 0 then (- 1, a\<lparr>sp_os := o1\<rparr>)
         else if \<exists>e \<in> set (entries a). m_fd e = fildes
         then (0, a\<lparr>entries := map (\<lambda>e. if m_fd e = fildes then e\<lparr>m_want_close := True\<rparr> else e)
                                 (entries a), sp_os := o1\<rparr>)
         else (let (r', o2) = em_close K fildes o1 in (r', a\<lparr>sp_os := o2\<rparr>)))"

definition spec_fclose :: "'w em_api \<Rightarrow> ptr \<Rightarrow> 'w mm_spec \<Rightarrow> c_int \<times> 'w mm_spec" where
  "spec_fclose K stream a =
     (if stream = 0 then (- 1, a\<lparr>sp_os := (sp_os a)\<lparr>errno := EBADF\<rparr>\<rparr>)
      else
        (let (fildes, o1) = em_fileno K stream (sp_os a)
         in if fildes <s 0
            then (let (r, o2) = em_fclose K stream o1 in (r, a\<lparr>sp_os := o2\<rparr>))
            else if \<exists>e \<in> set (entries a). m_fd e = fildes
            then (0, a\<lparr>entries := map (\<lambda>e. if m_fd e = fildes
                                    then e\<lparr>m_want_close := True, m_fp := stream, m_have_fp := True\<rparr>
                                    else e) (entries a),
                       sp_os := snd (em_fflush K stream o1)\<rparr>)
            else (let (r, o2) = em_fclose K stream o1 in (r, a\<lparr>sp_os := o2\<rparr>))))"

text \<open>
  The abstract \<open>munmap\<close> takes the first entry of the address out of the table. If its
  descriptor was closed meanwhile, the real close happens now, provided no other entry still
  uses the descriptor.
\<close>

definition spec_real_close :: "bool \<Rightarrow> 'w em_api \<Rightarrow> mapping \<Rightarrow> 'w os \<Rightarrow> 'w os option" where
  "spec_real_close nd K e os =
     (if nd then Some os
      else (let (r, os') = (if m_have_fp e then em_fclose K (m_fp e) os else em_close K (m_fd e) os)
            in if r = 0 then Some os' else None))"

definition spec_munmap ::
  "bool \<Rightarrow> 'w em_api \<Rightarrow> ptr \<Rightarrow> wsize \<Rightarrow> 'w mm_spec \<Rightarrow> (c_int \<times> 'w mm_spec) option" where
  "spec_munmap nd K addr len a =
     (let (res, o1) = em_munmap K addr len (sp_os a)
      in if res <s 0 then Some (res, a\<lparr>sp_os := o1\<rparr>)
         else case List.extract (\<lambda>e. m_ptr e = addr) (entries a) of
           None \<Rightarrow> Some (res, a\<lparr>sp_os := o1\<rparr>)
         | Some (xs, e, ys) \<Rightarrow>
             if \<not> m_want_close e then Some (res, a\<lparr>entries := xs @ ys, sp_os := o1\<rparr>)
             else if \<not> nd \<and> m_len e \<noteq> len then None
             else (case List.extract (\<lambda>e'. m_fd e' = m_fd e) (xs @ ys) of
                 Some (_, e', _) \<Rightarrow>
                   if \<not> nd \<and> \<not> m_want_close e' then None
                   else Some (res, a\<lparr>entries := xs @ ys, sp_os := o1\<rparr>)
               | None \<Rightarrow>
                   map_option (\<lambda>o2. (res, a\<lparr>entries := xs @ ys, sp_os := o2\<rparr>))
                     (spec_real_close nd K e o1)))"

section \<open>Paths in the heap\<close>

primrec path :: "node_heap \<Rightarrow> ptr \<Rightarrow> ptr list \<Rightarrow> ptr \<Rightarrow> bool" where
  "path h p [] q \<longleftrightarrow> p = q"
| "path h p (x # xs) q \<longleftrightarrow> p = x \<and> x \<noteq> 0 \<and> (\<exists>e. h x = Some e \<and> path h (me_next e) xs q)"

lemma path_append: "path h p (xs @ ys) q \<longleftrightarrow> (\<exists>r. path h p xs r \<and> path h r ys q)"
  by (induction xs arbitrary: p) auto

lemma path_upd [simp]: "x \<notin> set xs \<Longrightarrow> path (h(x := v)) p xs q = path h p xs q"
  by (induction xs arbitrary: p) auto

lemma path_null [simp]: "path h 0 xs q \<longleftrightarrow> xs = [] \<and> q = 0"
  by (cases xs) auto

lemma path_dom: "path h p xs q \<Longrightarrow> x \<in> set xs \<Longrightarrow> x \<noteq> 0 \<and> (\<exists>e. h x = Some e)"
  by (induction xs arbitrary: p) auto

lemma path_cong:
  "(\<And>x. x \<in> set xs \<Longrightarrow> map_option me_next (h' x) = map_option me_next (h x)) \<Longrightarrow>
   path h' p xs q = path h p xs q"
proof (induction xs arbitrary: p)
  case (Cons x xs)
  have "map_option me_next (h' x) = map_option me_next (h x)"
    using Cons.prems by simp
  moreover have "path h' r xs q = path h r xs q" for r
    using Cons.prems by (intro Cons.IH) simp
  ultimately show ?case
    by (cases "h x"; cases "h' x") auto
qed simp

definition implements :: "'w mm_state \<Rightarrow> 'w mm_spec \<Rightarrow> bool" where
  "implements s a \<longleftrightarrow>
     (\<exists>ps. path (nodes s) (maps s) ps 0 \<and> distinct ps \<and> set ps = dom (nodes s) \<and>
           entries a = map (\<lambda>p. abs_entry (the (nodes s p))) ps \<and> sp_os a = mm_os s)"

section \<open>The loops on a well-formed list\<close>

lemma mark_loop_path:
  assumes "path h p ps 0" and "distinct ps" and next_kept: "\<And>e. me_next (handler e) = me_next e"
  shows "mark_loop is_match handler p flag h =
    Some (flag \<or> (\<exists>q \<in> set ps. is_match (the (h q))),
      \<lambda>q. if q \<in> set ps \<and> is_match (the (h q)) then Some (handler (the (h q))) else h q)"
  using assms(1,2)
proof (induction ps arbitrary: p flag h)
  case Nil
  then show ?case by (simp add: mark_loop.simps)
next
  case (Cons x xs)
  then obtain e where e: "p = x" "x \<noteq> 0" "h x = Some e" "path h (me_next e) xs 0"
    and x: "x \<notin> set xs" "distinct xs"
    by auto
  show ?case
  proof (cases "is_match e")
    case True
    define h1 where "h1 = h(x \<mapsto> handler e)"
    have step: "mark_loop is_match handler p flag h =
        mark_loop is_match handler (me_next e) True h1"
      using True e by (subst mark_loop.simps) (simp add: next_kept h1_def)
    have "path h1 (me_next e) xs 0"
      using e x by (simp add: h1_def)
    note loop = Cons.IH [OF this x(2), of True]
    have "(\<lambda>q. if q \<in> set xs \<and> is_match (the (h1 q)) then Some (handler (the (h1 q))) else h1 q) =
        (\<lambda>q. if q \<in> set (x # xs) \<and> is_match (the (h q)) then Some (handler (the (h q))) else h q)"
      using True e x by (auto simp: fun_eq_iff h1_def)
    with True e show ?thesis
      unfolding step loop by simp
  next
    case False
    from Cons.IH [OF e(4) x(2), of flag] False e x show ?thesis
      by (subst mark_loop.simps) (auto simp: fun_eq_iff)
  qed
qed

lemma find_loop_path:
  assumes "path h p ps 0"
  shows "find_loop is_match prev p h =
    Some (case List.extract (\<lambda>q. is_match (the (h q))) ps of
        None \<Rightarrow> (last (prev # ps), 0)
      | Some (xs, q, ys) \<Rightarrow> (last (prev # xs), q))"
  using assms
proof (induction ps arbitrary: p prev)
  case Nil
  then show ?case by (simp add: find_loop.simps extract_Nil_code)
next
  case (Cons x xs)
  then obtain e where e: "p = x" "x \<noteq> 0" "h x = Some e" "path h (me_next e) xs 0"
    by auto
  from Cons.IH [OF e(4), of x] e show ?case
    by (subst find_loop.simps) (auto simp: extract_Cons_code split: option.splits)
qed

section \<open>The pointer code implements the table\<close>

definition simulates ::
  "('s \<Rightarrow> 'a \<Rightarrow> bool) \<Rightarrow> ('r \<times> 's) option \<Rightarrow> ('r \<times> 'a) option \<Rightarrow> bool" where
  "simulates rel m m' = rel_option (rel_prod (=) rel) m m'"

lemma simulates_simps [simp]:
  "simulates rel None None"
  "simulates rel (Some (r, s)) (Some (r', a)) \<longleftrightarrow> r = r' \<and> rel s a"
  by (simp_all add: simulates_def)

lemma simulates_SomeD:
  "simulates rel (Some (r, s)) m' \<Longrightarrow> \<exists>a. m' = Some (r, a) \<and> rel s a"
  by (auto simp: simulates_def option_rel_Some1)

lemma simulates_Some2: "simulates rel m (Some (r, a)) \<Longrightarrow> \<exists>s. m = Some (r, s) \<and> rel s a"
  by (auto simp: simulates_def option_rel_Some2)

lemma implementsI:
  "path (nodes s) (maps s) ps 0 \<Longrightarrow> distinct ps \<Longrightarrow> set ps = dom (nodes s) \<Longrightarrow>
   entries a = map (\<lambda>p. abs_entry (the (nodes s p))) ps \<Longrightarrow> sp_os a = mm_os s \<Longrightarrow> implements s a"
  by (auto simp: implements_def)

text \<open>Updates of independent fields are kept in one order.\<close>

lemma mm_state_upd_order [simp]:
  "s\<lparr>mm_os := os, nodes := h\<rparr> = s\<lparr>nodes := h, mm_os := os\<rparr>"
  "s\<lparr>mm_os := os, maps := p\<rparr> = s\<lparr>maps := p, mm_os := os\<rparr>"
  "s\<lparr>maps := p, nodes := h\<rparr> = s\<lparr>nodes := h, maps := p\<rparr>"
  by simp_all

lemma implements_os [simp]:
  "implements s a \<Longrightarrow> implements (s\<lparr>mm_os := os\<rparr>) (a\<lparr>sp_os := os\<rparr>)"
  by (auto simp: implements_def)

lemma implements_Nil_iff: "implements s a \<Longrightarrow> entries a = [] \<longleftrightarrow> maps s = 0"
  by (auto simp: implements_def)

lemma implements_sp_os: "implements s a \<Longrightarrow> sp_os a = mm_os s"
  by (auto simp: implements_def)

definition malloc_fresh :: "'w em_api \<Rightarrow> bool" where
  "malloc_fresh K \<longleftrightarrow>
     (\<forall>live os. fst (em_malloc K live os) = 0 \<or> fst (em_malloc K live os) \<notin> live)"

lemma implements_insert:
  assumes "implements s a" and "nodes s m = None" and "m \<noteq> 0" and "me_next e = maps s"
  shows "implements (s\<lparr>nodes := (nodes s)(m \<mapsto> e), maps := m, mm_os := os\<rparr>)
           (a\<lparr>entries := abs_entry e # entries a, sp_os := os\<rparr>)"
proof -
  obtain ps where ps: "path (nodes s) (maps s) ps 0" "distinct ps" "set ps = dom (nodes s)"
      "entries a = map (\<lambda>p. abs_entry (the (nodes s p))) ps"
    using assms(1) by (auto simp: implements_def)
  have m: "m \<notin> set ps" using ps(3) assms(2) by auto
  show ?thesis
  proof (rule implementsI [where ps = "m # ps"])
    show "entries (a\<lparr>entries := abs_entry e # entries a, sp_os := os\<rparr>) =
      map (\<lambda>p. abs_entry (the (nodes (s\<lparr>nodes := (nodes s)(m \<mapsto> e), maps := m, mm_os := os\<rparr>) p)))
        (m # ps)"
      using ps(4) m by auto
  qed (use ps m assms in \<open>auto\<close>)
qed

lemma refine_mmap:
  assumes "implements s a" and "malloc_fresh K"
  shows "simulates implements (mmap_stub_impl nd K addr len prot flags fildes off s)
           (spec_mmap K (dom (nodes s)) addr len prot flags fildes off a)"
proof -
  obtain p o1 where mm: "em_mmap K addr len prot flags fildes off (mm_os s) = (p, o1)"
    by force
  obtain m block o2 where ml: "em_malloc K (dom (nodes s)) o1 = (m, block, o2)"
    by (metis prod_cases3)
  have "m = 0 \<or> m \<notin> dom (nodes s)"
    using assms(2) ml by (metis malloc_fresh_def fst_conv)
  then have "m = 0 \<or> nodes s m = None" by auto
  then show ?thesis
    using assms(1) mm ml
      implements_insert [OF assms(1), of m "block\<lparr>me_ptr := p, me_len := len, me_fd := fildes,
        me_have_fp := False, me_want_close := False, me_next := maps s\<rparr>" o2]
    by (auto simp: mmap_stub_impl_def spec_mmap_def implements_sp_os c_assert_def abs_entry_def)
qed

text \<open>Marking every entry of a descriptor, over the list and over the table.\<close>

lemma refine_mark:
  assumes "implements s a" and "\<And>e. me_next (handler e) = me_next e"
    and "\<And>e. is_match e = spec_match (abs_entry e)"
    and "\<And>e. abs_entry (handler e) = spec_handler (abs_entry e)"
  shows "\<exists>h. mark_loop is_match handler (maps s) False (nodes s) =
      Some (\<exists>e \<in> set (entries a). spec_match e, h) \<and>
    (\<forall>os. implements (s\<lparr>nodes := h, mm_os := os\<rparr>)
      (a\<lparr>entries := map (\<lambda>e. if spec_match e then spec_handler e else e) (entries a), sp_os := os\<rparr>))"
proof -
  obtain ps where ps: "path (nodes s) (maps s) ps 0" "distinct ps" "set ps = dom (nodes s)"
      "entries a = map (\<lambda>p. abs_entry (the (nodes s p))) ps"
    using assms(1) by (auto simp: implements_def)
  define h where "h = (\<lambda>q. if q \<in> set ps \<and> is_match (the (nodes s q))
    then Some (handler (the (nodes s q))) else nodes s q)"
  have loop: "mark_loop is_match handler (maps s) False (nodes s) =
      Some (\<exists>e \<in> set (entries a). spec_match e, h)"
    using mark_loop_path [OF ps(1,2) assms(2), of is_match False] ps(4) assms(3)
    by (simp add: h_def)
  have path_h: "path h (maps s) ps 0"
    using ps(1) by (subst path_cong [where h = "nodes s"]) (auto simp: h_def ps(3) assms(2))
  have dom_h: "set ps = dom h"
    unfolding ps(3) by (auto simp: h_def ps(3) split: if_splits)
  have ents: "map (\<lambda>e. if spec_match e then spec_handler e else e) (entries a) =
      map (\<lambda>p. abs_entry (the (h p))) ps"
    unfolding ps(4) by (simp add: h_def assms(3,4))
  have "implements (s\<lparr>nodes := h, mm_os := os\<rparr>)
      (a\<lparr>entries := map (\<lambda>e. if spec_match e then spec_handler e else e) (entries a), sp_os := os\<rparr>)" for os
    by (rule implementsI [where ps = ps]) (simp_all add: path_h dom_h ents ps(2))
  with loop show ?thesis by blast
qed

lemma implements_map_id:
  "implements s a \<Longrightarrow> \<not> (\<exists>e \<in> set (entries a). P e) \<Longrightarrow>
   a\<lparr>entries := map (\<lambda>e. if P e then f e else e) (entries a), sp_os := os\<rparr> = a\<lparr>sp_os := os\<rparr>"
  by (cases a) (auto intro: map_idI)

lemma refine_close:
  assumes "implements s a"
  shows "simulates implements (wrap_close K fildes s) (Some (spec_close K fildes a))"
proof -
  obtain r o1 where fc: "em_fcntl_getfd K fildes (mm_os s) = (r, o1)" by force
  obtain h where
    loop: "mark_loop (\<lambda>e. me_fd e = fildes) (\<lambda>e. e\<lparr>me_want_close := True\<rparr>) (maps s) False (nodes s) =
        Some (\<exists>e \<in> set (entries a). m_fd e = fildes, h)"
    and impl: "\<And>os. implements (s\<lparr>nodes := h, mm_os := os\<rparr>)
        (a\<lparr>entries := map (\<lambda>e. if m_fd e = fildes then e\<lparr>m_want_close := True\<rparr> else e) (entries a),
           sp_os := os\<rparr>)"
    using refine_mark [OF assms, of "\<lambda>e. e\<lparr>me_want_close := True\<rparr>" "\<lambda>e. me_fd e = fildes"
        "\<lambda>e. m_fd e = fildes" "\<lambda>e. e\<lparr>m_want_close := True\<rparr>"]
    by (auto simp: abs_entry_def)
  show ?thesis
  proof (cases "\<exists>e \<in> set (entries a). m_fd e = fildes")
    case True
    then show ?thesis
      using assms fc loop impl [of o1]
      by (auto simp: wrap_close_def spec_close_def implements_sp_os)
  next
    case False
    with impl have "implements (s\<lparr>nodes := h, mm_os := os\<rparr>) (a\<lparr>sp_os := os\<rparr>)" for os
      using implements_map_id [OF assms False] by metis
    with False show ?thesis
      using assms fc loop
      by (auto simp: wrap_close_def spec_close_def implements_sp_os split: prod.splits)
  qed
qed

lemma refine_fclose:
  assumes "implements s a"
  shows "simulates implements (wrap_fclose K stream s) (Some (spec_fclose K stream a))"
proof -
  obtain fildes o1 where fn: "em_fileno K stream (mm_os s) = (fildes, o1)" by force
  let ?hd = "\<lambda>e. e\<lparr>m_want_close := True, m_fp := stream, m_have_fp := True\<rparr>"
  obtain h where
    loop: "mark_loop (\<lambda>e. me_fd e = fildes)
          (\<lambda>e. e\<lparr>me_want_close := True, me_fp := stream, me_have_fp := True\<rparr>) (maps s) False (nodes s) =
        Some (\<exists>e \<in> set (entries a). m_fd e = fildes, h)"
    and impl: "\<And>os. implements (s\<lparr>nodes := h, mm_os := os\<rparr>)
        (a\<lparr>entries := map (\<lambda>e. if m_fd e = fildes then ?hd e else e) (entries a), sp_os := os\<rparr>)"
    using refine_mark [OF assms,
        of "\<lambda>e. e\<lparr>me_want_close := True, me_fp := stream, me_have_fp := True\<rparr>"
           "\<lambda>e. me_fd e = fildes" "\<lambda>e. m_fd e = fildes" ?hd]
    by (auto simp: abs_entry_def)
  show ?thesis
  proof (cases "\<exists>e \<in> set (entries a). m_fd e = fildes")
    case True
    then show ?thesis
      using assms fn loop impl
      by (auto simp: wrap_fclose_def spec_fclose_def implements_sp_os split: prod.splits)
  next
    case False
    with impl have "implements (s\<lparr>nodes := h, mm_os := os\<rparr>) (a\<lparr>sp_os := os\<rparr>)" for os
      using implements_map_id [OF assms False] by metis
    with False show ?thesis
      using assms fn loop
      by (auto simp: wrap_fclose_def spec_fclose_def implements_sp_os split: prod.splits)
  qed
qed

text \<open>Unlinking a block, and the hook that runs after it.\<close>

lemma extract_map:
  "List.extract P (map f xs) =
     map_option (\<lambda>(as, b, cs). (map f as, f b, map f cs)) (List.extract (\<lambda>x. P (f x)) xs)"
  by (induction xs) (auto simp: extract_Nil_code extract_Cons_code split: option.splits)

definition unlink :: "ptr \<Rightarrow> map_entry \<Rightarrow> 'w mm_state \<Rightarrow> 'w mm_state option" where
  "unlink prev e s =
     (if prev \<noteq> 0 then do {
        pe \<leftarrow> nodes s prev;
        Some (s\<lparr>nodes := (nodes s)(prev \<mapsto> pe\<lparr>me_next := me_next e\<rparr>)\<rparr>)
      }
      else Some (s\<lparr>maps := me_next e\<rparr>))"

lemma unlink_path:
  assumes "path (nodes s) (maps s) (xs @ i # ys) 0" and "distinct (xs @ i # ys)"
    and "nodes s i = Some e"
  shows "\<exists>s'. unlink (last (0 # xs)) e s = Some s' \<and> path (nodes s') (maps s') (xs @ ys) 0 \<and>
    dom (nodes s') = dom (nodes s) \<and> mm_os s' = mm_os s \<and>
    (\<forall>q. map_option abs_entry (nodes s' q) = map_option abs_entry (nodes s q))"
proof (cases xs rule: rev_cases)
  case Nil
  with assms show ?thesis by (auto simp: unlink_def)
next
  case (snoc ws w)
  from assms snoc obtain we where w: "nodes s w = Some we" "w \<noteq> 0" "path (nodes s) (maps s) ws w"
      and i: "me_next we = i" "path (nodes s) (me_next e) ys 0"
      and d: "w \<notin> set ws" "w \<notin> set ys"
    by (auto simp: path_append)
  let ?h = "(nodes s)(w \<mapsto> we\<lparr>me_next := me_next e\<rparr>)"
  have "path ?h (maps s) ((ws @ [w]) @ ys) 0"
    using w i d by (simp add: path_append)
  with w snoc show ?thesis by (auto simp: unlink_def)
qed

lemma extract_path_map:
  "List.extract P (map (\<lambda>p. abs_entry (the (h p))) ps) =
     map_option (\<lambda>(as, b, cs). (map (\<lambda>p. abs_entry (the (h p))) as, abs_entry (the (h b)),
         map (\<lambda>p. abs_entry (the (h p))) cs))
       (List.extract (\<lambda>q. P (abs_entry (the (h q)))) ps)"
  by (rule extract_map)

lemma hook_path:
  assumes "path (nodes s) (maps s) ps 0"
  shows "post_munmap_hook nd K e len s =
    (if \<not> nd \<and> me_len e \<noteq> len then None
     else case List.extract (\<lambda>e'. m_fd e' = me_fd e) (map (\<lambda>p. abs_entry (the (nodes s p))) ps) of
       Some (_, e', _) \<Rightarrow> if \<not> nd \<and> \<not> m_want_close e' then None else Some s
     | None \<Rightarrow> map_option (\<lambda>os. s\<lparr>mm_os := os\<rparr>) (spec_real_close nd K (abs_entry e) (mm_os s)))"
proof -
  have loop: "find_loop (\<lambda>e'. me_fd e' = me_fd e) 0 (maps s) (nodes s) =
    Some (case List.extract (\<lambda>q. me_fd (the (nodes s q)) = me_fd e) ps of
        None \<Rightarrow> (last (0 # ps), 0)
      | Some (xs, q, ys) \<Rightarrow> (last (0 # xs), q))"
    by (rule find_loop_path [OF assms])
  have dc: "delayed_close nd K e (mm_os s) = spec_real_close nd K (abs_entry e) (mm_os s)"
    by (auto simp: delayed_close_def spec_real_close_def c_assert_def split: prod.splits)
  show ?thesis
  proof (cases "List.extract (\<lambda>q. me_fd (the (nodes s q)) = me_fd e) ps")
    case None
    with loop dc show ?thesis
      by (cases "spec_real_close nd K (abs_entry e) (mm_os s)")
         (auto simp: post_munmap_hook_def extract_path_map c_assert_def)
  next
    case (Some t)
    then obtain xs q ys where t: "t = (xs, q, ys)" and ps: "ps = xs @ q # ys"
      by (cases t) (auto simp: extract_Some_iff)
    then obtain e' where "q \<noteq> 0" "nodes s q = Some e'"
      using path_dom [OF assms, of q] by auto
    with Some t loop show ?thesis
      by (auto simp: post_munmap_hook_def extract_path_map c_assert_def)
  qed
qed

lemma spec_munmap_entry:
  assumes "em_munmap K addr len (sp_os a) = (res, o1)" and "\<not> res <s 0"
    and "List.extract (\<lambda>e. m_ptr e = addr) (entries a) = Some (xs, e, ys)"
  shows "spec_munmap nd K addr len a =
    (if \<not> m_want_close e then Some (res, a\<lparr>entries := xs @ ys, sp_os := o1\<rparr>)
     else if \<not> nd \<and> m_len e \<noteq> len then None
     else case List.extract (\<lambda>e'. m_fd e' = m_fd e) (xs @ ys) of
       Some (_, e', _) \<Rightarrow> if \<not> nd \<and> \<not> m_want_close e' then None
          else Some (res, a\<lparr>entries := xs @ ys, sp_os := o1\<rparr>)
     | None \<Rightarrow> map_option (\<lambda>o2. (res, a\<lparr>entries := xs @ ys, sp_os := o2\<rparr>))
         (spec_real_close nd K e o1))"
  using assms by (simp add: spec_munmap_def)

text \<open>What the search of \<open>munmap\<close> finds, in terms of the abstract table.\<close>

lemma find_none_implements:
  assumes "implements s a" and "List.extract (\<lambda>e. m_ptr e = addr) (entries a) = None"
  shows "\<exists>prev. find_loop (\<lambda>e. me_ptr e = addr) 0 (maps s) (nodes s) = Some (prev, 0)"
proof -
  obtain ps where "path (nodes s) (maps s) ps 0"
      and "entries a = map (\<lambda>p. abs_entry (the (nodes s p))) ps"
    using assms(1) by (auto simp: implements_def)
  with assms(2) find_loop_path [OF this(1), of "\<lambda>e. me_ptr e = addr" 0] show ?thesis
    by (simp add: extract_map)
qed

lemma find_unlink_implements:
  assumes "implements s a" and "List.extract (\<lambda>e. m_ptr e = addr) (entries a) = Some (us, m, vs)"
  obtains prev i e s' ps where
      "find_loop (\<lambda>e. me_ptr e = addr) 0 (maps s) (nodes s) = Some (prev, i)"
      "i \<noteq> 0" "nodes s i = Some e" "m = abs_entry e"
      "unlink prev e (s\<lparr>mm_os := os\<rparr>) = Some s'" "mm_os s' = os"
      "path (nodes s') (maps s') ps 0" "map (\<lambda>p. abs_entry (the (nodes s' p))) ps = us @ vs"
      "\<And>os'. implements (s'\<lparr>nodes := (nodes s')(i := None), mm_os := os'\<rparr>)
         (a\<lparr>entries := us @ vs, sp_os := os'\<rparr>)"
proof -
  define f where "f = (\<lambda>p. abs_entry (the (nodes s p)))"
  let ?s = "s\<lparr>mm_os := os\<rparr>"
  obtain ps where ps: "path (nodes s) (maps s) ps 0" "distinct ps" "set ps = dom (nodes s)"
      and ent: "entries a = map f ps"
    using assms(1) by (auto simp: implements_def f_def)
  obtain xs i ys where ex: "List.extract (\<lambda>q. me_ptr (the (nodes s q)) = addr) ps = Some (xs, i, ys)"
      and abs: "us = map f xs" "m = f i" "vs = map f ys"
    using assms(2) by (auto simp: ent extract_map f_def)
  then have split: "ps = xs @ i # ys" by (auto simp: extract_Some_iff)
  obtain e where i: "i \<noteq> 0" "nodes s i = Some e"
    using path_dom [OF ps(1), of i] split by auto
  have "path (nodes ?s) (maps ?s) (xs @ i # ys) 0" "distinct (xs @ i # ys)" "nodes ?s i = Some e"
    using ps split i by simp_all
  from unlink_path [OF this] obtain s' where s': "unlink (last (0 # xs)) e ?s = Some s'"
      "path (nodes s') (maps s') (xs @ ys) 0" "dom (nodes s') = dom (nodes s)" "mm_os s' = os"
      and same: "\<And>q. map_option abs_entry (nodes s' q) = map_option abs_entry (nodes s q)"
    by auto
  have "abs_entry (the (nodes s' q)) = f q" if "q \<in> set ps" for q
    using same [of q] path_dom [OF ps(1) that] by (auto simp: f_def)
  then have abs': "map (\<lambda>p. abs_entry (the (nodes s' p))) (xs @ ys) = us @ vs"
    using split abs by auto
  show ?thesis
  proof (rule that [OF _ i _ s'(1,4,2) abs'])
    show "find_loop (\<lambda>e. me_ptr e = addr) 0 (maps s) (nodes s) = Some (last (0 # xs), i)"
      using find_loop_path [OF ps(1), of "\<lambda>e. me_ptr e = addr" 0] ex by simp
    show "m = abs_entry e" using i abs by (simp add: f_def)
    have "map (\<lambda>p. abs_entry (the (((nodes s')(i := None)) p))) (xs @ ys) = us @ vs"
      unfolding abs' [symmetric] using ps(2) split by (intro map_cong) auto
    then show "implements (s'\<lparr>nodes := (nodes s')(i := None), mm_os := os'\<rparr>)
        (a\<lparr>entries := us @ vs, sp_os := os'\<rparr>)" for os'
      by (intro implementsI [where ps = "xs @ ys"]) (use ps(2,3) split s'(2,3) in auto)
  qed
qed

lemma refine_munmap:
  assumes "implements s a"
  shows "simulates implements (munmap_stub_impl nd K addr len s) (spec_munmap nd K addr len a)"
proof -
  obtain res o1 where mu: "em_munmap K addr len (mm_os s) = (res, o1)" by force
  have os: "sp_os a = mm_os s" by (rule implements_sp_os [OF assms])
  consider "res <s 0" | "\<not> res <s 0" "List.extract (\<lambda>e. m_ptr e = addr) (entries a) = None"
    | us m vs where "\<not> res <s 0" "List.extract (\<lambda>e. m_ptr e = addr) (entries a) = Some (us, m, vs)"
    by (metis option.exhaust prod_cases3)
  then show ?thesis
  proof cases
    case 1
    with mu os assms show ?thesis by (auto simp: munmap_stub_impl_def spec_munmap_def)
  next
    case 2
    with mu os assms find_none_implements [OF assms 2(2)] show ?thesis
      by (auto simp: munmap_stub_impl_def spec_munmap_def)
  next
    case 3
    obtain prev i e s' ps
      where found: "find_loop (\<lambda>e. me_ptr e = addr) 0 (maps s) (nodes s) = Some (prev, i)"
        and i: "i \<noteq> 0" "nodes s i = Some e" and m: "m = abs_entry e"
        and s': "unlink prev e (s\<lparr>mm_os := o1\<rparr>) = Some s'" "mm_os s' = o1"
        and ps: "path (nodes s') (maps s') ps 0"
          "map (\<lambda>p. abs_entry (the (nodes s' p))) ps = us @ vs"
        and impl: "\<And>os'. implements (s'\<lparr>nodes := (nodes s')(i := None), mm_os := os'\<rparr>)
          (a\<lparr>entries := us @ vs, sp_os := os'\<rparr>)"
      by (rule find_unlink_implements [OF assms 3(2), where os = o1]) (rule that)
    have code: "munmap_stub_impl nd K addr len s = do {
        s3 \<leftarrow> (if me_want_close e then post_munmap_hook nd K e len s' else Some s');
        Some (res, s3\<lparr>nodes := (nodes s3)(i := None)\<rparr>) }"
      using mu 3(1) found i s'(1) by (auto simp: munmap_stub_impl_def unlink_def)
    have same: "s'\<lparr>nodes := (nodes s')(i := None), mm_os := o1\<rparr> = s'\<lparr>nodes := (nodes s')(i := None)\<rparr>"
      using s'(2) by (cases s') simp
    note spec = spec_munmap_entry [OF mu [folded os] 3(1,2), of nd, unfolded m abs_entry_sel]
    note hook = hook_path [OF ps(1), of nd K e len, unfolded ps(2) s'(2)]
    have now: "implements (s'\<lparr>nodes := (nodes s')(i := None)\<rparr>) (a\<lparr>entries := us @ vs, sp_os := o1\<rparr>)"
      using impl [of o1] by (simp only: same)
    show ?thesis
      unfolding code spec hook using now impl
      by (cases "List.extract (\<lambda>e'. m_fd e' = me_fd e) (us @ vs)";
          cases "spec_real_close nd K (abs_entry e) o1"; cases nd) auto
  qed
qed

end
