(* ===== verification/MmapProtocol.thy ===== *)
theory MmapProtocol
  imports MmapSpec
begin

text \<open>
  What the delayed close of \<open>mmap_hack.c\<close> achieves. The client and the kernel are described
  by the transition relation \<open>mm_step\<close>: the client opens descriptors, maps descriptors it
  holds, closes them (by \<open>close\<close> or \<open>fclose\<close>) and unmaps. \<open>held\<close> is the set of
  descriptors the client believes to be open; \<open>opn\<close>, \<open>sfd\<close> and \<open>live\<close> read from the outside
  world which descriptors the kernel has open, which descriptor a stream carries, and which shared
  writable mappings exist. The laws of the kernel are the named hypotheses \<open>kernel_laws\<close>
  and \<open>mapping_laws\<close>; the kernel may refuse every call.

  The invariant, kept by every step of a debug build: the module's table is exactly the table of
  the kernel's shared writable mappings, and the kernel has exactly the descriptors open that the
  client holds or that such a mapping still needs.
\<close>

section \<open>The laws of the kernel\<close>

text \<open>Calls that leave a part \<open>v\<close> of the outside world alone.\<close>

definition quiet_calls :: "'w em_api \<Rightarrow> ('w os \<Rightarrow> 'v) \<Rightarrow> bool" where
  "quiet_calls K v \<longleftrightarrow>
     (\<forall>fd os. v (snd (em_fcntl_getfd K fd os)) = v os) \<and>
     (\<forall>fp os. v (snd (em_fileno K fp os)) = v os) \<and>
     (\<forall>fp os. v (snd (em_fflush K fp os)) = v os) \<and>
     (\<forall>used os. v (snd (snd (em_malloc K used os))) = v os)"

definition quiet_maps :: "'w em_api \<Rightarrow> ('w os \<Rightarrow> 'v) \<Rightarrow> bool" where
  "quiet_maps K v \<longleftrightarrow>
     (\<forall>a l prot flags fd off os. v (snd (em_mmap K a l prot flags fd off os)) = v os) \<and>
     (\<forall>a l os. v (snd (em_munmap K a l os)) = v os)"

definition quiet_closes :: "'w em_api \<Rightarrow> ('w os \<Rightarrow> 'v) \<Rightarrow> bool" where
  "quiet_closes K v \<longleftrightarrow>
     (\<forall>fd os. v (snd (em_close K fd os)) = v os) \<and> (\<forall>fp os. v (snd (em_fclose K fp os)) = v os)"

lemma quiet_callsD:
  assumes "quiet_calls K v"
  shows "em_fcntl_getfd K fd os = (r, os') \<Longrightarrow> v os' = v os"
    and "em_fileno K fp os = (r, os') \<Longrightarrow> v os' = v os"
    and "v (snd (em_fflush K fp os)) = v os"
    and "em_malloc K used os = (m, blk, os') \<Longrightarrow> v os' = v os"
  using assms by (simp_all add: quiet_calls_def) (metis snd_conv)+

lemma quiet_mapsD:
  assumes "quiet_maps K v"
  shows "em_mmap K a l prot flags fd off os = (p, os') \<Longrightarrow> v os' = v os"
    and "em_munmap K a l os = (r, os') \<Longrightarrow> v os' = v os"
  using assms by (simp_all add: quiet_maps_def) (metis snd_conv)+

lemma quiet_closesD:
  assumes "quiet_closes K v"
  shows "em_close K fd os = (r, os') \<Longrightarrow> v os' = v os"
    and "em_fclose K fp os = (r, os') \<Longrightarrow> v os' = v os"
  using assms by (simp_all add: quiet_closes_def) (metis snd_conv)+

text \<open>
  Descriptors and streams: \<open>close\<close> and \<open>fclose\<close> may fail, and then the descriptor may be open
  or closed, as POSIX leaves it; a stream is gone after \<open>fclose\<close> whatever it returns.
\<close>

definition closed :: "c_int set \<Rightarrow> c_int \<Rightarrow> c_int \<Rightarrow> c_int set \<Rightarrow> bool" where
  "closed fds fd r fds' \<longleftrightarrow> fds' = fds - {fd} \<or> r \<noteq> 0 \<and> fds' = fds"

definition close_law :: "'w em_api \<Rightarrow> ('w os \<Rightarrow> c_int set) \<Rightarrow> ('w os \<Rightarrow> ptr \<Rightarrow> c_int option) \<Rightarrow> bool" where
  "close_law K opn sfd \<longleftrightarrow> (\<forall>fd os r os'. em_close K fd os = (r, os') \<longrightarrow> fd \<in> opn os \<longrightarrow>
     closed (opn os) fd r (opn os') \<and> sfd os' = sfd os)"

definition fclose_law :: "'w em_api \<Rightarrow> ('w os \<Rightarrow> c_int set) \<Rightarrow> ('w os \<Rightarrow> ptr \<Rightarrow> c_int option) \<Rightarrow> bool" where
  "fclose_law K opn sfd \<longleftrightarrow> (\<forall>fp fd os r os'. em_fclose K fp os = (r, os') \<longrightarrow>
     sfd os fp = Some fd \<longrightarrow> fd \<in> opn os \<longrightarrow>
     closed (opn os) fd r (opn os') \<and> sfd os' = (sfd os)(fp := None))"

definition valid_fd_law :: "'w em_api \<Rightarrow> ('w os \<Rightarrow> c_int set) \<Rightarrow> bool" where
  "valid_fd_law K opn \<longleftrightarrow> (\<forall>fd os. (fd \<in> opn os \<longleftrightarrow> \<not> fst (em_fcntl_getfd K fd os) <s 0) \<and>
     (fd \<in> opn os \<longrightarrow> \<not> fd <s 0))"

definition fileno_law :: "'w em_api \<Rightarrow> ('w os \<Rightarrow> ptr \<Rightarrow> c_int option) \<Rightarrow> bool" where
  "fileno_law K sfd \<longleftrightarrow> (\<forall>fp fd os. sfd os fp = Some fd \<longrightarrow> fst (em_fileno K fp os) = fd)"

definition kernel_laws ::
  "'w em_api \<Rightarrow> ('w os \<Rightarrow> c_int set) \<Rightarrow> ('w os \<Rightarrow> ptr \<Rightarrow> c_int option) \<Rightarrow> bool" where
  "kernel_laws K opn sfd \<longleftrightarrow>
     valid_fd_law K opn \<and> close_law K opn sfd \<and> fclose_law K opn sfd \<and> fileno_law K sfd \<and>
     quiet_calls K opn \<and> quiet_calls K sfd \<and> quiet_maps K opn \<and> quiet_maps K sfd"

lemma kernel_lawsD:
  assumes "kernel_laws K opn sfd"
  shows "valid_fd_law K opn" "close_law K opn sfd" "fclose_law K opn sfd" "fileno_law K sfd"
    "quiet_calls K opn" "quiet_calls K sfd" "quiet_maps K opn" "quiet_maps K sfd"
  using assms by (simp_all add: kernel_laws_def)

lemma kernel_fcntl:
  assumes "kernel_laws K opn sfd" and "em_fcntl_getfd K fd os = (r, os')"
  shows "(fd \<in> opn os \<longleftrightarrow> \<not> r <s 0) \<and> opn os' = opn os \<and> sfd os' = sfd os"
  using kernel_lawsD(1) [OF assms(1)] assms(2)
    quiet_callsD(1) [OF kernel_lawsD(5) [OF assms(1)] assms(2)]
    quiet_callsD(1) [OF kernel_lawsD(6) [OF assms(1)] assms(2)]
  by (simp add: valid_fd_law_def)

lemma kernel_close:
  assumes "kernel_laws K opn sfd" and "em_close K fd os = (r, os')" and "fd \<in> opn os"
  shows "closed (opn os) fd r (opn os')" "sfd os' = sfd os"
  using kernel_lawsD(2) [OF assms(1)] assms(2,3) unfolding close_law_def by blast+

lemma kernel_fclose:
  assumes "kernel_laws K opn sfd" and "em_fclose K fp os = (r, os')" and "sfd os fp = Some fd"
    and "fd \<in> opn os"
  shows "closed (opn os) fd r (opn os')" "sfd os' = (sfd os)(fp := None)"
  using kernel_lawsD(3) [OF assms(1)] assms(2-4) unfolding fclose_law_def by blast+

lemma kernel_fileno:
  assumes "kernel_laws K opn sfd" and "em_fileno K fp os = (r, os')" and "sfd os fp = Some fd"
  shows "r = fd \<and> opn os' = opn os \<and> sfd os' = sfd os"
  using kernel_lawsD(4) [OF assms(1)] assms(2,3)
    quiet_callsD(2) [OF kernel_lawsD(5) [OF assms(1)] assms(2)]
    quiet_callsD(2) [OF kernel_lawsD(6) [OF assms(1)] assms(2)]
  by (metis fileno_law_def fst_conv)

lemma kernel_nonneg: "kernel_laws K opn sfd \<Longrightarrow> fd \<in> opn os \<Longrightarrow> \<not> fd <s 0"
  by (simp add: kernel_laws_def valid_fd_law_def)

lemma kernel_quiet:
  assumes "kernel_laws K opn sfd"
  shows "opn (snd (em_fflush K fp os)) = opn os" "sfd (snd (em_fflush K fp os)) = sfd os"
    "em_munmap K a l os = (r, os') \<Longrightarrow> opn os' = opn os \<and> sfd os' = sfd os"
    "em_mmap K a l pr f d z os = (p, os') \<Longrightarrow> opn os' = opn os \<and> sfd os' = sfd os"
    "em_malloc K used os = (m, blk, os') \<Longrightarrow> opn os' = opn os \<and> sfd os' = sfd os"
proof -
  note calls = quiet_callsD [OF kernel_lawsD(5) [OF assms]] quiet_callsD [OF kernel_lawsD(6) [OF assms]]
    and maps = quiet_mapsD [OF kernel_lawsD(7) [OF assms]] quiet_mapsD [OF kernel_lawsD(8) [OF assms]]
  show "opn (snd (em_fflush K fp os)) = opn os" "sfd (snd (em_fflush K fp os)) = sfd os"
    by (rule calls(3) calls(7))+
  show "em_munmap K a l os = (r, os') \<Longrightarrow> opn os' = opn os \<and> sfd os' = sfd os"
    using maps(2,4) by blast
  show "em_mmap K a l pr f d z os = (p, os') \<Longrightarrow> opn os' = opn os \<and> sfd os' = sfd os"
    using maps(1,3) by blast
  show "em_malloc K used os = (m, blk, os') \<Longrightarrow> opn os' = opn os \<and> sfd os' = sfd os"
    using calls(4,8) by blast
qed

text \<open>
  Mappings: \<open>live os\<close> gives, for the address of every shared writable mapping that was made with a
  descriptor, its length and that descriptor. A new mapping that is not asked to replace another
  one starts where no mapping starts; \<open>munmap\<close> of a whole mapping removes it, of memory that
  belongs to none of them removes none, and a failed \<open>munmap\<close> removes nothing. Closing a
  descriptor does not remove a mapping.
\<close>

type_synonym mappings = "ptr \<rightharpoonup> wsize \<times> c_int"

definition MAP_FIXED :: c_int where "MAP_FIXED = 0x10"

definition shared_writable :: "c_int \<Rightarrow> c_int \<Rightarrow> c_int \<Rightarrow> bool" where
  "shared_writable prot flags fildes \<longleftrightarrow>
     prot AND PROT_WRITE \<noteq> 0 \<and> flags AND MAP_SHARED \<noteq> 0 \<and> \<not> fildes <s 0"

definition memory :: "ptr \<Rightarrow> wsize \<Rightarrow> nat set" where
  "memory p len = {unat p..<unat p + unat len}"

definition unmaps_whole :: "mappings \<Rightarrow> ptr \<Rightarrow> wsize \<Rightarrow> bool" where
  "unmaps_whole M addr len \<longleftrightarrow> (\<exists>fd. M addr = Some (len, fd)) \<or>
     M addr = None \<and> (\<forall>p l fd. M p = Some (l, fd) \<longrightarrow> memory p l \<inter> memory addr len = {})"

definition mmap_law :: "'w em_api \<Rightarrow> ('w os \<Rightarrow> mappings) \<Rightarrow> bool" where
  "mmap_law K live \<longleftrightarrow> (\<forall>a l prot flags fd off os p os'.
     em_mmap K a l prot flags fd off os = (p, os') \<longrightarrow> flags AND MAP_FIXED = 0 \<longrightarrow>
     (p \<noteq> MAP_FAILED \<longrightarrow> live os p = None) \<and>
     live os' = (if p \<noteq> MAP_FAILED \<and> shared_writable prot flags fd
       then (live os)(p \<mapsto> (l, fd)) else live os))"

definition munmap_law :: "'w em_api \<Rightarrow> ('w os \<Rightarrow> mappings) \<Rightarrow> bool" where
  "munmap_law K live \<longleftrightarrow> (\<forall>a l os r os'. em_munmap K a l os = (r, os') \<longrightarrow>
     unmaps_whole (live os) a l \<longrightarrow> live os' = (if r <s 0 then live os else (live os)(a := None)))"

definition mapping_laws :: "'w em_api \<Rightarrow> ('w os \<Rightarrow> mappings) \<Rightarrow> bool" where
  "mapping_laws K live \<longleftrightarrow>
     mmap_law K live \<and> munmap_law K live \<and> quiet_calls K live \<and> quiet_closes K live"

lemma mapping_lawsD:
  assumes "mapping_laws K live"
  shows "mmap_law K live" "munmap_law K live" "quiet_calls K live" "quiet_closes K live"
  using assms by (simp_all add: mapping_laws_def)

lemma mapping_mmap:
  assumes "mapping_laws K live" and "em_mmap K a l prot flags fd off os = (p, os')"
    and "flags AND MAP_FIXED = 0"
  shows "p \<noteq> MAP_FAILED \<Longrightarrow> live os p = None"
    and "live os' = (if p \<noteq> MAP_FAILED \<and> shared_writable prot flags fd
      then (live os)(p \<mapsto> (l, fd)) else live os)"
proof -
  note law = mapping_lawsD(1) [OF assms(1), unfolded mmap_law_def, rule_format, OF assms(2,3)]
  show "p \<noteq> MAP_FAILED \<Longrightarrow> live os p = None" using law by blast
  show "live os' = (if p \<noteq> MAP_FAILED \<and> shared_writable prot flags fd
      then (live os)(p \<mapsto> (l, fd)) else live os)"
    using law by (rule conjunct2)
qed

lemma mapping_munmap:
  "mapping_laws K live \<Longrightarrow> em_munmap K a l os = (r, os') \<Longrightarrow> unmaps_whole (live os) a l \<Longrightarrow>
   live os' = (if r <s 0 then live os else (live os)(a := None))"
  using mapping_lawsD(2) unfolding munmap_law_def by blast

lemmas mapping_quiet = quiet_callsD [OF mapping_lawsD(3)] quiet_closesD [OF mapping_lawsD(4)]

section \<open>The invariant over the abstract table\<close>

text \<open>The table as the kernel sees it: no two entries of one address.\<close>

definition tracks :: "mappings \<Rightarrow> mapping list \<Rightarrow> bool" where
  "tracks M es \<longleftrightarrow> distinct (map m_ptr es) \<and> M = map_of (map (\<lambda>e. (m_ptr e, m_len e, m_fd e)) es)"

lemma dom_tracked: "dom (map_of (map (\<lambda>e. (m_ptr e, m_len e, m_fd e)) es)) = m_ptr ` set es"
  by (simp add: dom_map_of_conv_image_fst image_image)

lemma tracks_Nil [simp]: "tracks Map.empty []"
  by (simp add: tracks_def)

lemma tracks_add:
  "tracks M es \<Longrightarrow> M (m_ptr e) = None \<Longrightarrow> tracks (M(m_ptr e \<mapsto> (m_len e, m_fd e))) (e # es)"
  unfolding tracks_def using dom_tracked [of es] by (auto simp: domIff)

lemma tracks_map:
  assumes "\<And>e. m_ptr (f e) = m_ptr e \<and> m_len (f e) = m_len e \<and> m_fd (f e) = m_fd e"
  shows "tracks M (map f es) = tracks M es"
  using assms by (simp add: tracks_def o_def)

lemma tracks_remove:
  assumes "tracks M (xs @ e # ys)"
  shows "tracks (M(m_ptr e := None)) (xs @ ys)"
proof -
  define g where "g = (\<lambda>e :: mapping. (m_ptr e, m_len e, m_fd e))"
  have d: "m_ptr e \<notin> m_ptr ` set xs" "m_ptr e \<notin> m_ptr ` set ys" "distinct (map m_ptr (xs @ ys))"
    using assms by (auto simp: tracks_def)
  have M: "M = map_of (map g (xs @ e # ys))" using assms by (simp add: tracks_def g_def)
  have none: "map_of (map g zs) (m_ptr e) = None" if "m_ptr e \<notin> m_ptr ` set zs" for zs
  proof -
    have "m_ptr e \<notin> dom (map_of (map g zs))" unfolding g_def dom_tracked by (rule that)
    then show ?thesis by (simp only: domIff not_not)
  qed
  have "M(m_ptr e := None) = map_of (map g (xs @ ys))"
  proof
    fix p
    have "map_of (map g (e # ys)) p = map_of (map g ys) p" if "p \<noteq> m_ptr e"
      using that by (simp add: g_def)
    then show "(M(m_ptr e := None)) p = map_of (map g (xs @ ys)) p"
      using none [OF d(1)] none [OF d(2)]
      by (cases "p = m_ptr e"; cases "map_of (map g xs) p") (simp_all add: M map_add_def del: map_of.simps list.map(2))
  qed
  with d(3) show ?thesis by (simp add: tracks_def g_def)
qed

lemma tracks_iff:
  assumes "tracks M es"
  shows "M p = Some (l, fd) \<longleftrightarrow> (\<exists>e \<in> set es. m_ptr e = p \<and> m_len e = l \<and> m_fd e = fd)"
proof -
  define ps where "ps = map (\<lambda>e. (m_ptr e, m_len e, m_fd e)) es"
  have "distinct (map fst ps)" and M: "M = map_of ps" using assms by (simp_all add: tracks_def o_def ps_def)
  from map_of_eq_Some_iff [OF this(1)] have "M p = Some (l, fd) \<longleftrightarrow> (p, l, fd) \<in> set ps"
    unfolding M .
  then show ?thesis by (auto simp: ps_def)
qed

lemma tracks_fd:
  assumes "tracks M es"
  shows "(\<exists>p l. M p = Some (l, fd)) \<longleftrightarrow> (\<exists>e \<in> set es. m_fd e = fd)"
  unfolding tracks_iff [OF assms] by blast

lemma tracks_only:
  assumes "tracks M es"
  shows "(\<forall>p. (\<exists>l. M p = Some (l, fd)) \<longrightarrow> p = q) \<longleftrightarrow> (\<forall>e \<in> set es. m_fd e = fd \<longrightarrow> m_ptr e = q)"
  unfolding tracks_iff [OF assms] by blast

lemma tracks_same_ptr:
  "tracks M es \<Longrightarrow> e \<in> set es \<Longrightarrow> e' \<in> set es \<Longrightarrow> m_ptr e = m_ptr e' \<Longrightarrow> e = e'"
  by (auto simp: tracks_def distinct_map inj_on_def)

definition waiting :: "mapping list \<Rightarrow> c_int set" where
  "waiting es = m_fd ` {e \<in> set es. m_want_close e}"

text \<open>
  \<open>table_inv O S held es\<close>: \<open>O\<close> are the open descriptors and \<open>S\<close> the open streams.
\<close>

definition table_inv ::
  "c_int set \<Rightarrow> (ptr \<Rightarrow> c_int option) \<Rightarrow> c_int set \<Rightarrow> mapping list \<Rightarrow> bool" where
  "table_inv fds streams held es \<longleftrightarrow>
     fds = held \<union> waiting es \<and>
     (\<forall>e \<in> set es. m_want_close e \<longleftrightarrow> m_fd e \<notin> held) \<and>
     (\<forall>e \<in> set es. m_have_fp e \<longrightarrow> m_want_close e \<and> streams (m_fp e) = Some (m_fd e))"

lemma table_invI:
  "fds = held \<union> waiting es \<Longrightarrow> (\<And>e. e \<in> set es \<Longrightarrow> m_want_close e \<longleftrightarrow> m_fd e \<notin> held) \<Longrightarrow>
   (\<And>e. e \<in> set es \<Longrightarrow> m_have_fp e \<Longrightarrow> m_want_close e \<and> streams (m_fp e) = Some (m_fd e)) \<Longrightarrow>
   table_inv fds streams held es"
  by (simp add: table_inv_def)

lemma table_invD:
  assumes "table_inv fds streams held es"
  shows "fds = held \<union> waiting es"
    and "e \<in> set es \<Longrightarrow> m_want_close e \<longleftrightarrow> m_fd e \<notin> held"
    and "e \<in> set es \<Longrightarrow> m_have_fp e \<Longrightarrow> m_want_close e \<and> streams (m_fp e) = Some (m_fd e)"
  using assms unfolding table_inv_def by blast+

lemma table_inv_open: "table_inv fds streams held es \<Longrightarrow> e \<in> set es \<Longrightarrow> m_fd e \<in> fds"
  by (auto simp: table_inv_def waiting_def)

lemma table_inv_held: "table_inv fds streams held es \<Longrightarrow> fd \<in> held \<Longrightarrow> fd \<in> fds"
  by (simp add: table_inv_def)

lemma table_inv_add:
  "table_inv fds streams held es \<Longrightarrow> m_fd e \<in> held \<Longrightarrow> \<not> m_want_close e \<Longrightarrow> \<not> m_have_fp e \<Longrightarrow>
   table_inv fds streams held (e # es)"
  by (auto simp: table_inv_def waiting_def)

lemma waiting_simps:
  "waiting [] = {}"
  "waiting (e # es) = (if m_want_close e then insert (m_fd e) (waiting es) else waiting es)"
  by (auto simp: waiting_def)

lemma waiting_mark:
  assumes "\<And>e. m_fd (f e) = m_fd e" and "\<And>e. m_want_close (f e)"
  shows "waiting (map (\<lambda>e. if m_fd e = fd then f e else e) es) =
    waiting es \<union> (if \<exists>e \<in> set es. m_fd e = fd then {fd} else {})"
  by (induction es) (auto simp: waiting_simps assms)

lemma table_inv_mark:
  assumes "table_inv fds streams held es" and "fd \<in> held" and "\<exists>e \<in> set es. m_fd e = fd"
    and "\<And>e. m_fd (f e) = m_fd e" and "\<And>e. m_want_close (f e)"
    and "\<And>e. m_fd e = fd \<Longrightarrow> \<not> m_have_fp e \<Longrightarrow> m_have_fp (f e) \<Longrightarrow> streams (m_fp (f e)) = Some fd"
  shows "table_inv fds streams (held - {fd}) (map (\<lambda>e. if m_fd e = fd then f e else e) es)"
proof -
  have unmarked: "\<not> m_want_close e \<and> \<not> m_have_fp e" if "e \<in> set es" "m_fd e = fd" for e
    using assms(1,2) that by (auto simp: table_inv_def)
  have "waiting (map (\<lambda>e. if m_fd e = fd then f e else e) es) = insert fd (waiting es)"
    using waiting_mark [of f fd es, OF assms(4,5)] assms(3) by simp
  then have "fds = held - {fd} \<union> waiting (map (\<lambda>e. if m_fd e = fd then f e else e) es)"
    using table_invD(1) [OF assms(1)] assms(2) by auto
  then show ?thesis
  proof (rule table_invI)
    fix e' assume "e' \<in> set (map (\<lambda>e. if m_fd e = fd then f e else e) es)"
    then obtain e where e: "e \<in> set es" "e' = (if m_fd e = fd then f e else e)" by auto
    show "m_want_close e' \<longleftrightarrow> m_fd e' \<notin> held - {fd}"
      using e table_invD(2) [OF assms(1) e(1)] assms(4,5) by auto
    show "m_have_fp e' \<Longrightarrow> m_want_close e' \<and> streams (m_fp e') = Some (m_fd e')"
      using e table_invD(3) [OF assms(1) e(1)] unmarked [OF e(1)] assms(4-6) by (auto split: if_splits)
  qed
qed

lemma table_inv_close:
  assumes "table_inv fds streams held es" and "fd \<in> held" and "\<not> (\<exists>e \<in> set es. m_fd e = fd)"
    and "\<And>fp. streams fp \<noteq> Some fd \<Longrightarrow> streams' fp = streams fp"
  shows "table_inv (fds - {fd}) streams' (held - {fd}) es"
proof -
  have "fd \<notin> waiting es" using assms(3) by (auto simp: waiting_def)
  then have "fds - {fd} = held - {fd} \<union> waiting es"
    using table_invD(1) [OF assms(1)] by auto
  then show ?thesis
  proof (rule table_invI)
    fix e assume e: "e \<in> set es"
    with assms(3) have "m_fd e \<noteq> fd" by auto
    then show "m_want_close e \<longleftrightarrow> m_fd e \<notin> held - {fd}"
      using table_invD(2) [OF assms(1) e] by simp
    show "m_have_fp e \<Longrightarrow> m_want_close e \<and> streams' (m_fp e) = Some (m_fd e)"
      using table_invD(3) [OF assms(1) e] assms(4) [of "m_fp e"] \<open>m_fd e \<noteq> fd\<close> by auto
  qed
qed

text \<open>
  What the client still holds after a close that returned \<open>r\<close> and left \<open>fds\<close> open: a failed close
  that leaves the descriptor open leaves it with the client.
\<close>

definition after_close :: "c_int set \<Rightarrow> c_int \<Rightarrow> c_int \<Rightarrow> c_int set \<Rightarrow> c_int set" where
  "after_close fds fd r held = (if r \<noteq> 0 \<and> fd \<in> fds then held else held - {fd})"

lemma table_inv_closed:
  assumes "table_inv fds streams held es" and "fd \<in> held" and "\<not> (\<exists>e \<in> set es. m_fd e = fd)"
    and "closed fds fd r fds'" and "\<And>fp. streams fp \<noteq> Some fd \<Longrightarrow> streams' fp = streams fp"
  shows "table_inv fds' streams' (after_close fds' fd r held) es"
proof (cases "fds' = fds - {fd}")
  case True
  then show ?thesis using table_inv_close [OF assms(1-3,5)] by (simp add: after_close_def)
next
  case False
  then have fds': "fds' = fds" "r \<noteq> 0" using assms(4) by (simp_all add: closed_def)
  have "streams' (m_fp e) = Some (m_fd e)" if "e \<in> set es" "m_have_fp e" for e
    using table_invD(3) [OF assms(1) that] assms(3,5) that(1) by (metis option.inject)
  then have "table_inv fds streams' held es"
    using table_invD [OF assms(1)] by (intro table_invI) auto
  then show ?thesis
    using fds' table_inv_held [OF assms(1,2)] by (simp add: after_close_def)
qed

lemma waiting_Cons: "waiting (xs @ e # ys) =
    (if m_want_close e then insert (m_fd e) (waiting (xs @ ys)) else waiting (xs @ ys))"
  by (auto simp: waiting_def)

lemma table_inv_drop:
  assumes "table_inv fds streams held (xs @ e # ys)"
    and "\<not> m_want_close e \<or> (\<exists>e' \<in> set (xs @ ys). m_fd e' = m_fd e)"
  shows "table_inv fds streams held (xs @ ys)"
proof (rule table_invI)
  have "m_fd e \<in> waiting (xs @ ys)" if "m_want_close e"
  proof -
    from assms(2) that obtain e' where e': "e' \<in> set (xs @ ys)" "m_fd e' = m_fd e" by blast
    have "m_want_close e'"
      using table_invD(2) [OF assms(1), of e'] table_invD(2) [OF assms(1), of e] e' that by auto
    with e' show ?thesis unfolding waiting_def by (metis (mono_tags) image_eqI mem_Collect_eq)
  qed
  then show "fds = held \<union> waiting (xs @ ys)"
    using table_invD(1) [OF assms(1)] by (auto simp: waiting_Cons insert_absorb)
next
  fix e' assume "e' \<in> set (xs @ ys)"
  then have e': "e' \<in> set (xs @ e # ys)" by auto
  show "m_want_close e' \<longleftrightarrow> m_fd e' \<notin> held" by (rule table_invD(2) [OF assms(1) e'])
  show "m_have_fp e' \<Longrightarrow> m_want_close e' \<and> streams (m_fp e') = Some (m_fd e')"
    by (rule table_invD(3) [OF assms(1) e'])
qed

lemma table_inv_drop_last:
  assumes "table_inv fds streams held (xs @ e # ys)" and "m_want_close e"
    and "\<not> (\<exists>e' \<in> set (xs @ ys). m_fd e' = m_fd e)"
    and "\<And>fp. streams fp \<noteq> Some (m_fd e) \<Longrightarrow> streams' fp = streams fp"
  shows "table_inv (fds - {m_fd e}) streams' held (xs @ ys)"
proof (rule table_invI)
  have "m_fd e \<notin> waiting (xs @ ys)" using assms(3) by (auto simp: waiting_def)
  moreover have "m_fd e \<notin> held" using table_invD(2) [OF assms(1), of e] assms(2) by simp
  ultimately show "fds - {m_fd e} = held \<union> waiting (xs @ ys)"
    using table_invD(1) [OF assms(1)] assms(2) by (auto simp: waiting_Cons)
next
  fix e' assume e'': "e' \<in> set (xs @ ys)"
  then have e': "e' \<in> set (xs @ e # ys)" by auto
  show "m_want_close e' \<longleftrightarrow> m_fd e' \<notin> held" by (rule table_invD(2) [OF assms(1) e'])
  have "m_fd e' \<noteq> m_fd e" using assms(3) e'' by blast
  then show "m_have_fp e' \<Longrightarrow> m_want_close e' \<and> streams' (m_fp e') = Some (m_fd e')"
    using table_invD(3) [OF assms(1) e'] assms(4) [of "m_fp e'"] by auto
qed

lemma table_inv_open_fd:
  assumes "table_inv fds streams held es" and "fd \<notin> fds" and "streams \<subseteq>\<^sub>m streams'"
  shows "table_inv (insert fd fds) streams' (insert fd held) es"
proof -
  have "m_fd e \<noteq> fd" if "e \<in> set es" for e
    using table_inv_open [OF assms(1) that] assms(2) by auto
  then show ?thesis
    using assms by (auto simp: table_inv_def map_le_def dom_def)
qed

definition protocol_inv ::
  "('w os \<Rightarrow> c_int set) \<Rightarrow> ('w os \<Rightarrow> ptr \<Rightarrow> c_int option) \<Rightarrow> ('w os \<Rightarrow> mappings) \<Rightarrow> c_int set \<Rightarrow>
   'w mm_spec \<Rightarrow> bool" where
  "protocol_inv opn sfd live held a \<longleftrightarrow>
     table_inv (opn (sp_os a)) (sfd (sp_os a)) held (entries a) \<and> tracks (live (sp_os a)) (entries a)"

lemma spec_mmap_inv:
  assumes "kernel_laws K opn sfd" and "mapping_laws K live" and inv: "protocol_inv opn sfd live held a"
    and "fildes \<in> held \<or> fildes <s 0" and "flags AND MAP_FIXED = 0"
    and run: "spec_mmap K used addr len prot flags fildes off a = Some (p, a')"
  shows "protocol_inv opn sfd live held a'"
proof -
  obtain q o1 where mm: "em_mmap K addr len prot flags fildes off (sp_os a) = (q, o1)" by force
  obtain m blk o2 where ml: "em_malloc K used o1 = (m, blk, o2)" by (metis prod_cases3)
  let ?e = "\<lparr>m_ptr = q, m_len = len, m_fd = fildes, m_fp = me_fp blk, m_have_fp = False,
              m_want_close = False\<rparr>"
  note quiet = kernel_quiet(4) [OF assms(1) mm] kernel_quiet(5) [OF assms(1) ml]
    mapping_quiet(4) [OF assms(2) ml]
  note mapped = mapping_mmap [OF assms(2) mm assms(5)]
  note inv' = inv [unfolded protocol_inv_def]
  consider "a' = a\<lparr>sp_os := o1\<rparr>" "\<not> (q \<noteq> MAP_FAILED \<and> shared_writable prot flags fildes)"
    | "q \<noteq> MAP_FAILED" "shared_writable prot flags fildes" "a' = a\<lparr>entries := ?e # entries a, sp_os := o2\<rparr>"
    using run unfolding spec_mmap_def shared_writable_def mm ml Let_def prod.case by (auto split: if_splits)
  then show ?thesis
  proof cases
    case 1
    with inv quiet mapped(2) show ?thesis by (simp add: protocol_inv_def)
  next
    case 2
    with assms(4) have "fildes \<in> held" by (simp add: shared_writable_def)
    then have "table_inv (opn (sp_os a)) (sfd (sp_os a)) held (?e # entries a)"
      by (intro table_inv_add [OF conjunct1 [OF inv']]) simp_all
    moreover have "tracks (live o1) (?e # entries a)"
      using tracks_add [OF conjunct2 [OF inv'], of ?e] mapped 2(1,2) by simp
    ultimately show ?thesis using 2 quiet by (simp add: protocol_inv_def)
  qed
qed

lemma tracks_mark:
  "(\<And>e. m_ptr (f e) = m_ptr e \<and> m_len (f e) = m_len e \<and> m_fd (f e) = m_fd e) \<Longrightarrow>
   tracks M (map (\<lambda>e. if m_fd e = fd then f e else e) es) = tracks M es"
  by (rule tracks_map) simp

lemma spec_close_inv:
  assumes "kernel_laws K opn sfd" and "mapping_laws K live" and inv: "protocol_inv opn sfd live held a"
    and "fd \<in> held" and run: "spec_close K fd a = (r, a')"
  shows "protocol_inv opn sfd live (after_close (opn (sp_os a')) fd r held) a' \<and>
    ((\<exists>e \<in> set (entries a). m_fd e = fd) \<longrightarrow> r = 0)"
proof -
  obtain r1 o1 where fc: "em_fcntl_getfd K fd (sp_os a) = (r1, o1)" by force
  obtain r2 o2 where cl: "em_close K fd o1 = (r2, o2)" by force
  have tinv: "table_inv (opn (sp_os a)) (sfd (sp_os a)) held (entries a)"
    and tr: "tracks (live (sp_os a)) (entries a)" using inv by (simp_all add: protocol_inv_def)
  have o1: "\<not> r1 <s 0" "opn o1 = opn (sp_os a)" "sfd o1 = sfd (sp_os a)" "fd \<in> opn o1"
    using kernel_fcntl [OF assms(1) fc] table_inv_held [OF tinv assms(4)] by auto
  note o2 = kernel_close [OF assms(1) cl o1(4)]
    and live = mapping_quiet(1) [OF assms(2) fc] mapping_quiet(5) [OF assms(2) cl]
  show ?thesis
  proof (cases "\<exists>e \<in> set (entries a). m_fd e = fd")
    case True
    have "table_inv (opn (sp_os a)) (sfd (sp_os a)) (held - {fd})
        (map (\<lambda>e. if m_fd e = fd then e\<lparr>m_want_close := True\<rparr> else e) (entries a))"
      by (rule table_inv_mark [OF tinv assms(4) True]) simp_all
    with True run fc o1 live tr show ?thesis
      by (auto simp: spec_close_def protocol_inv_def after_close_def tracks_mark)
  next
    case False
    have "table_inv (opn o2) (sfd (sp_os a)) (after_close (opn o2) fd r2 held) (entries a)"
      using o2(1) by (intro table_inv_closed [OF tinv assms(4) False]) (simp_all add: o1(2))
    moreover have "r = r2 \<and> a' = a\<lparr>sp_os := o2\<rparr>"
      using False run fc cl o1(1) by (simp add: spec_close_def)
    ultimately show ?thesis
      using False o1 o2 live tr by (simp add: protocol_inv_def)
  qed
qed

lemma spec_fclose_inv:
  assumes "kernel_laws K opn sfd" and "mapping_laws K live" and inv: "protocol_inv opn sfd live held a"
    and "fd \<in> held" and stream: "sfd (sp_os a) fp = Some fd" and "fp \<noteq> 0"
    and run: "spec_fclose K fp a = (r, a')"
  shows "protocol_inv opn sfd live (after_close (opn (sp_os a')) fd r held) a' \<and>
    ((\<exists>e \<in> set (entries a). m_fd e = fd) \<longrightarrow> r = 0)"
proof -
  obtain r1 o1 where fn: "em_fileno K fp (sp_os a) = (r1, o1)" by force
  obtain r2 o2 where cl: "em_fclose K fp o1 = (r2, o2)" by force
  have tinv: "table_inv (opn (sp_os a)) (sfd (sp_os a)) held (entries a)"
    and tr: "tracks (live (sp_os a)) (entries a)" using inv by (simp_all add: protocol_inv_def)
  have op: "fd \<in> opn (sp_os a)" by (rule table_inv_held [OF tinv assms(4)])
  have o1: "r1 = fd" "opn o1 = opn (sp_os a)" "sfd o1 = sfd (sp_os a)" "\<not> fd <s 0"
    using kernel_fileno [OF assms(1) fn stream] kernel_nonneg [OF assms(1) op] by auto
  have o2: "closed (opn o1) fd r2 (opn o2)" "sfd o2 = (sfd o1)(fp := None)"
    using kernel_fclose [OF assms(1) cl, of fd] o1(2,3) op stream by auto
  note live = mapping_quiet(2) [OF assms(2) fn] mapping_quiet(6) [OF assms(2) cl]
  show ?thesis
  proof (cases "\<exists>e \<in> set (entries a). m_fd e = fd")
    case True
    let ?f = "\<lambda>e. e\<lparr>m_want_close := True, m_fp := fp, m_have_fp := True\<rparr>"
    let ?es = "map (\<lambda>e. if m_fd e = fd then ?f e else e) (entries a)"
    have "table_inv (opn (sp_os a)) (sfd (sp_os a)) (held - {fd}) ?es"
      by (rule table_inv_mark [OF tinv assms(4) True]) (simp_all add: stream)
    moreover have "tracks (live (sp_os a)) ?es" using tr by (simp add: tracks_mark)
    moreover have "r = 0 \<and> a' = a\<lparr>entries := ?es, sp_os := snd (em_fflush K fp o1)\<rparr>"
      using True run fn o1(1,4) assms(6) by (simp add: spec_fclose_def)
    ultimately show ?thesis
      using o1 live(1) mapping_quiet(3) [OF assms(2), of fp o1]
      by (simp add: protocol_inv_def kernel_quiet(1,2) [OF assms(1)] after_close_def)
  next
    case False
    have "table_inv (opn o2) (sfd o2) (after_close (opn o2) fd r2 held) (entries a)"
      using o2 stream by (intro table_inv_closed [OF tinv assms(4) False]) (auto simp: o1(2,3))
    moreover have "r = r2 \<and> a' = a\<lparr>sp_os := o2\<rparr>"
      using False run fn cl o1(1,4) assms(6) by (simp add: spec_fclose_def)
    ultimately show ?thesis
      using False o1 live tr by (simp add: protocol_inv_def)
  qed
qed

text \<open>
  \<open>munmap\<close> in a debug build. The delayed close happens for the last mapping of a descriptor that
  the client has closed; the process stops in it exactly if the kernel refuses that close.
\<close>

definition refuses :: "'w em_api \<Rightarrow> mapping \<Rightarrow> 'w os \<Rightarrow> bool" where
  "refuses K e os \<longleftrightarrow> fst (if m_have_fp e then em_fclose K (m_fp e) os else em_close K (m_fd e) os) \<noteq> 0"

lemma spec_real_close_run:
  assumes "kernel_laws K opn sfd" and "mapping_laws K live"
    and tinv: "table_inv (opn os) (sfd os) held (xs @ e # ys)"
    and "m_want_close e" and "\<not> (\<exists>e' \<in> set (xs @ ys). m_fd e' = m_fd e)"
  shows "case spec_real_close False K e os of
      None \<Rightarrow> refuses K e os
    | Some os' \<Rightarrow> \<not> refuses K e os \<and> table_inv (opn os') (sfd os') held (xs @ ys) \<and> live os' = live os"
proof (cases "m_have_fp e")
  case True
  obtain r os' where cl: "em_fclose K (m_fp e) os = (r, os')" by force
  have s: "sfd os (m_fp e) = Some (m_fd e)" and "m_fd e \<in> opn os"
    using tinv True table_inv_open [OF tinv, of e] by (auto simp: table_inv_def)
  note k = kernel_fclose [OF assms(1) cl this]
  have "table_inv (opn os - {m_fd e}) ((sfd os)(m_fp e := None)) held (xs @ ys)"
    by (rule table_inv_drop_last [OF tinv assms(4,5)]) (use s in auto)
  with True cl k mapping_quiet(6) [OF assms(2) cl] show ?thesis
    by (cases "r = 0") (simp_all add: spec_real_close_def refuses_def closed_def)
next
  case False
  obtain r os' where cl: "em_close K (m_fd e) os = (r, os')" by force
  have "m_fd e \<in> opn os" using table_inv_open [OF tinv, of e] by simp
  note k = kernel_close [OF assms(1) cl this]
  have "table_inv (opn os - {m_fd e}) (sfd os) held (xs @ ys)"
    by (rule table_inv_drop_last [OF tinv assms(4,5)]) simp
  with False cl k mapping_quiet(5) [OF assms(2) cl] show ?thesis
    by (cases "r = 0") (simp_all add: spec_real_close_def refuses_def closed_def)
qed

definition stuck_close :: "'w em_api \<Rightarrow> ptr \<Rightarrow> wsize \<Rightarrow> 'w mm_spec \<Rightarrow> bool" where
  "stuck_close K addr len a \<longleftrightarrow>
     (\<exists>r o1. em_munmap K addr len (sp_os a) = (r, o1) \<and> \<not> r <s 0 \<and>
        (\<exists>e \<in> set (entries a). m_ptr e = addr \<and> m_want_close e \<and>
           (\<forall>e' \<in> set (entries a). m_fd e' = m_fd e \<longrightarrow> m_ptr e' = addr) \<and> refuses K e o1))"

lemma stuck_close_iff:
  assumes "em_munmap K addr len (sp_os a) = (r, o1)" and "\<not> r <s 0"
    and "entries a = xs @ e # ys" and "m_ptr e = addr" and "distinct (map m_ptr (entries a))"
  shows "stuck_close K addr len a \<longleftrightarrow>
    m_want_close e \<and> \<not> (\<exists>e' \<in> set (xs @ ys). m_fd e' = m_fd e) \<and> refuses K e o1"
proof -
  have S: "set (entries a) = insert e (set (xs @ ys))" using assms(3) by auto
  have other: "m_ptr e' \<noteq> addr" if "e' \<in> set (xs @ ys)" for e'
    using that assms(3-5) by (auto simp: image_iff)
  have "(\<forall>e' \<in> set (entries a). m_fd e' = m_fd e \<longrightarrow> m_ptr e' = addr) \<longleftrightarrow>
      \<not> (\<exists>e' \<in> set (xs @ ys). m_fd e' = m_fd e)"
    unfolding S using other assms(4) by blast
  moreover have "(\<exists>e' \<in> set (entries a). m_ptr e' = addr \<and> P e') \<longleftrightarrow> P e" for P
    unfolding S using other assms(4) by blast
  ultimately show ?thesis
    using assms(1,2) unfolding stuck_close_def by simp
qed

lemma spec_munmap_entry_run:
  assumes "kernel_laws K opn sfd" and "mapping_laws K live"
    and tinv: "table_inv (opn o1) (sfd o1) held (xs @ e # ys)"
    and ex: "List.extract (\<lambda>e. m_ptr e = addr) (entries a) = Some (xs, e, ys)"
    and mu: "em_munmap K addr len (sp_os a) = (res, o1)" "\<not> res <s 0"
    and "m_len e = len" and "distinct (map m_ptr (entries a))"
  shows "if stuck_close K addr len a then spec_munmap False K addr len a = None
    else \<exists>os'. spec_munmap False K addr len a = Some (res, a\<lparr>entries := xs @ ys, sp_os := os'\<rparr>) \<and>
      table_inv (opn os') (sfd os') held (xs @ ys) \<and> live os' = live o1"
proof -
  have e: "entries a = xs @ e # ys" "m_ptr e = addr" using ex by (auto simp: extract_Some_iff)
  note eq = spec_munmap_entry [OF mu ex, of False] and stuck = stuck_close_iff [OF mu e assms(8)]
  consider "\<not> m_want_close e" | "m_want_close e" "\<not> (\<exists>e' \<in> set (xs @ ys). m_fd e' = m_fd e)"
    | e' where "m_want_close e" "e' \<in> set (xs @ ys)" "m_fd e' = m_fd e"
    by blast
  then show ?thesis
  proof cases
    case 1
    with eq stuck table_inv_drop [OF tinv] show ?thesis by (auto intro!: exI [of _ o1])
  next
    case 2
    then have "List.extract (\<lambda>e'. m_fd e' = m_fd e) (xs @ ys) = None" by (simp add: extract_None_iff)
    with eq stuck 2 assms(7) spec_real_close_run [OF assms(1,2) tinv 2] show ?thesis
      by (cases "spec_real_close False K e o1") auto
  next
    case 3
    then obtain us e'' vs where t: "List.extract (\<lambda>e'. m_fd e' = m_fd e) (xs @ ys) = Some (us, e'', vs)"
      by (cases "List.extract (\<lambda>e'. m_fd e' = m_fd e) (xs @ ys)") (auto simp: extract_None_iff)
    then have "xs @ ys = us @ e'' # vs" and e'': "m_fd e'' = m_fd e" by (auto simp: extract_Some_iff)
    then have mem: "e'' \<in> set (xs @ ys)" by simp
    then have "m_want_close e''" using tinv 3(1) e'' by (auto simp: table_inv_def)
    moreover have "table_inv (opn o1) (sfd o1) held (xs @ ys)"
      using table_inv_drop [OF tinv] mem e'' by blast
    moreover have "\<not> stuck_close K addr len a" using stuck mem e'' by blast
    ultimately show ?thesis using 3(1) t eq assms(7) by (auto intro!: exI [of _ o1])
  qed
qed

lemma spec_munmap_run:
  assumes "kernel_laws K opn sfd" and "mapping_laws K live" and inv: "protocol_inv opn sfd live held a"
    and "unmaps_whole (live (sp_os a)) addr len"
  shows "if stuck_close K addr len a then spec_munmap False K addr len a = None
    else \<exists>r a'. spec_munmap False K addr len a = Some (r, a') \<and> protocol_inv opn sfd live held a'"
proof -
  obtain res o1 where mu: "em_munmap K addr len (sp_os a) = (res, o1)" by force
  note o1 = kernel_quiet(3) [OF assms(1) mu] and unmapped = mapping_munmap [OF assms(2) mu assms(4)]
  have tinv: "table_inv (opn o1) (sfd o1) held (entries a)" and tr: "tracks (live (sp_os a)) (entries a)"
    using inv o1 by (simp_all add: protocol_inv_def)
  consider "res <s 0" | "\<not> res <s 0" "List.extract (\<lambda>e. m_ptr e = addr) (entries a) = None"
    | xs e ys where "\<not> res <s 0" "List.extract (\<lambda>e. m_ptr e = addr) (entries a) = Some (xs, e, ys)"
    by (metis option.exhaust prod_cases3)
  then show ?thesis
  proof cases
    case 1
    with mu tinv tr unmapped show ?thesis
      by (auto simp: spec_munmap_def protocol_inv_def stuck_close_def)
  next
    case 2
    then have none: "\<not> (\<exists>e \<in> set (entries a). m_ptr e = addr)" by (simp add: extract_None_iff)
    then have "live (sp_os a) addr = None"
      using tracks_iff [OF tr, of addr] by (cases "live (sp_os a) addr") auto
    then have "live o1 = live (sp_os a)" using unmapped 2(1) by (simp add: fun_upd_idem)
    with 2 mu tinv tr none show ?thesis
      by (auto simp: spec_munmap_def protocol_inv_def stuck_close_def)
  next
    case 3
    then have e: "entries a = xs @ e # ys" "m_ptr e = addr" by (auto simp: extract_Some_iff)
    then have "live (sp_os a) addr = Some (m_len e, m_fd e)" using tracks_iff [OF tr] by auto
    then have len: "m_len e = len" using assms(4) by (auto simp: unmaps_whole_def)
    have "tracks (live o1) (xs @ ys)"
      using tracks_remove [OF tr [unfolded e(1)]] unmapped 3(1) e(2) by simp
    moreover have "distinct (map m_ptr (entries a))" using tr by (simp add: tracks_def)
    ultimately show ?thesis
      using spec_munmap_entry_run [OF assms(1,2) tinv [unfolded e(1)] 3(2) mu 3(1) len]
      by (auto simp: protocol_inv_def split: if_splits)
  qed
qed

section \<open>The protocol for any implementation of the table\<close>

text \<open>
  The interface between the protocol and the table: four operations on some concrete state
  that simulate the abstract ones. The lemmas of the locale carry the invariant over.
\<close>

locale delayed_close_table =
  fixes rel :: "'s \<Rightarrow> 'w mm_spec \<Rightarrow> bool"
    and c_mmap :: "bool \<Rightarrow> 'w em_api \<Rightarrow> ptr \<Rightarrow> wsize \<Rightarrow> c_int \<Rightarrow> c_int \<Rightarrow> c_int \<Rightarrow> 64 word \<Rightarrow>
      's \<Rightarrow> (ptr \<times> 's) option"
    and c_close :: "'w em_api \<Rightarrow> c_int \<Rightarrow> 's \<Rightarrow> (c_int \<times> 's) option"
    and c_fclose :: "'w em_api \<Rightarrow> ptr \<Rightarrow> 's \<Rightarrow> (c_int \<times> 's) option"
    and c_munmap :: "bool \<Rightarrow> 'w em_api \<Rightarrow> ptr \<Rightarrow> wsize \<Rightarrow> 's \<Rightarrow> (c_int \<times> 's) option"
  assumes sim_mmap: "rel s a \<Longrightarrow> malloc_fresh K \<Longrightarrow>
      \<exists>live. simulates rel (c_mmap nd K addr len prot flags fildes off s)
        (spec_mmap K live addr len prot flags fildes off a)"
    and sim_close: "rel s a \<Longrightarrow> simulates rel (c_close K fildes s) (Some (spec_close K fildes a))"
    and sim_fclose: "rel s a \<Longrightarrow> simulates rel (c_fclose K fp s) (Some (spec_fclose K fp a))"
    and sim_munmap: "rel s a \<Longrightarrow>
      simulates rel (c_munmap nd K addr len s) (spec_munmap nd K addr len a)"
begin

lemma mmap_keeps:
  assumes "kernel_laws K opn sfd" and "mapping_laws K live" and "malloc_fresh K" and "rel s a"
    and "protocol_inv opn sfd live held a" and "fildes \<in> held \<or> fildes <s 0"
    and "flags AND MAP_FIXED = 0" and "c_mmap nd K addr len prot flags fildes off s = Some (p, s')"
  shows "\<exists>a'. rel s' a' \<and> protocol_inv opn sfd live held a'"
  using sim_mmap [OF assms(4,3), of nd addr len prot flags fildes off] assms
  by (auto dest!: simulates_SomeD intro: spec_mmap_inv)

lemma close_keeps:
  assumes "kernel_laws K opn sfd" and "mapping_laws K live" and "rel s a"
    and "protocol_inv opn sfd live held a" and "fd \<in> held" and "c_close K fd s = Some (r, s')"
  shows "\<exists>a'. rel s' a' \<and> protocol_inv opn sfd live (after_close (opn (sp_os a')) fd r held) a' \<and>
    ((\<exists>e \<in> set (entries a). m_fd e = fd) \<longrightarrow> r = 0)"
proof -
  obtain r1 a' where spec: "spec_close K fd a = (r1, a')" by force
  with sim_close [OF assms(3), of K fd] assms(6) spec_close_inv [OF assms(1,2,4,5) spec]
  show ?thesis by auto
qed

lemma fclose_keeps:
  assumes "kernel_laws K opn sfd" and "mapping_laws K live" and "rel s a"
    and "protocol_inv opn sfd live held a" and "fd \<in> held" and "sfd (sp_os a) fp = Some fd"
    and "fp \<noteq> 0" and "c_fclose K fp s = Some (r, s')"
  shows "\<exists>a'. rel s' a' \<and> protocol_inv opn sfd live (after_close (opn (sp_os a')) fd r held) a' \<and>
    ((\<exists>e \<in> set (entries a). m_fd e = fd) \<longrightarrow> r = 0)"
proof -
  obtain r1 a' where spec: "spec_fclose K fp a = (r1, a')" by force
  with sim_fclose [OF assms(3), of K fp] assms(8) spec_fclose_inv [OF assms(1,2,4-7) spec]
  show ?thesis by auto
qed

lemma closes_return:
  assumes "rel s a"
  shows "\<exists>r s'. c_close K fd s = Some (r, s')" and "\<exists>r s'. c_fclose K fp s = Some (r, s')"
  using sim_close [OF assms, of K fd] sim_fclose [OF assms, of K fp]
  by (metis simulates_Some2 prod.exhaust)+

lemma munmap_keeps:
  assumes "kernel_laws K opn sfd" and "mapping_laws K live" and "rel s a"
    and "protocol_inv opn sfd live held a" and "unmaps_whole (live (sp_os a)) addr len"
    and "c_munmap False K addr len s = Some (r, s')"
  shows "\<exists>a'. rel s' a' \<and> protocol_inv opn sfd live held a'"
proof -
  obtain a' where "spec_munmap False K addr len a = Some (r, a')" "rel s' a'"
    using sim_munmap [OF assms(3), of False K addr len] assms(6) by (auto dest!: simulates_SomeD)
  with spec_munmap_run [OF assms(1,2,4,5)] show ?thesis by (auto split: if_splits)
qed

lemma munmap_stops_iff:
  assumes "kernel_laws K opn sfd" and "mapping_laws K live" and "rel s a"
    and "protocol_inv opn sfd live held a" and "unmaps_whole (live (sp_os a)) addr len"
  shows "c_munmap False K addr len s = None \<longleftrightarrow> stuck_close K addr len a"
proof -
  have "c_munmap False K addr len s = None \<longleftrightarrow> spec_munmap False K addr len a = None"
    using sim_munmap [OF assms(3), of False K addr len] by (auto simp: simulates_def)
  with spec_munmap_run [OF assms(1,2,4,5)] show ?thesis by (auto split: if_splits)
qed

end

interpretation pl: delayed_close_table implements mmap_stub_impl wrap_close wrap_fclose munmap_stub_impl
  by unfold_locales (blast intro: refine_mmap refine_close refine_fclose refine_munmap)+

section \<open>Clients of the wrapped functions\<close>

text \<open>
  One step of the program. \<open>open_fd\<close> is any library call that opens a new descriptor, with or
  without a stream; the other rules are calls of the four wrapped functions. A client maps and
  closes only descriptors it holds, does not ask \<open>mmap\<close> to replace a mapping, and unmaps whole
  mappings.
\<close>

inductive mm_step ::
  "bool \<Rightarrow> 'w em_api \<Rightarrow> ('w os \<Rightarrow> c_int set) \<Rightarrow> ('w os \<Rightarrow> ptr \<Rightarrow> c_int option) \<Rightarrow> ('w os \<Rightarrow> mappings) \<Rightarrow>
   'w mm_state \<times> c_int set \<Rightarrow> 'w mm_state \<times> c_int set \<Rightarrow> bool"
  for nd K opn sfd live where
  open_fd: "fd \<notin> opn (mm_os s) \<Longrightarrow> opn os' = insert fd (opn (mm_os s)) \<Longrightarrow>
     sfd (mm_os s) \<subseteq>\<^sub>m sfd os' \<Longrightarrow> live os' = live (mm_os s) \<Longrightarrow>
     mm_step nd K opn sfd live (s, held) (s\<lparr>mm_os := os'\<rparr>, insert fd held)"
| do_mmap: "fildes \<in> held \<or> fildes <s 0 \<Longrightarrow> flags AND MAP_FIXED = 0 \<Longrightarrow>
     mmap_stub_impl nd K addr len prot flags fildes off s = Some (p, s') \<Longrightarrow>
     mm_step nd K opn sfd live (s, held) (s', held)"
| do_close: "fd \<in> held \<Longrightarrow> wrap_close K fd s = Some (r, s') \<Longrightarrow>
     mm_step nd K opn sfd live (s, held) (s', after_close (opn (mm_os s')) fd r held)"
| do_fclose: "fd \<in> held \<Longrightarrow> fp \<noteq> 0 \<Longrightarrow> sfd (mm_os s) fp = Some fd \<Longrightarrow>
     wrap_fclose K fp s = Some (r, s') \<Longrightarrow>
     mm_step nd K opn sfd live (s, held) (s', after_close (opn (mm_os s')) fd r held)"
| do_munmap: "unmaps_whole (live (mm_os s)) addr len \<Longrightarrow>
     munmap_stub_impl nd K addr len s = Some (r, s') \<Longrightarrow>
     mm_step nd K opn sfd live (s, held) (s', held)"

inductive mm_reach ::
  "bool \<Rightarrow> 'w em_api \<Rightarrow> ('w os \<Rightarrow> c_int set) \<Rightarrow> ('w os \<Rightarrow> ptr \<Rightarrow> c_int option) \<Rightarrow> ('w os \<Rightarrow> mappings) \<Rightarrow>
   'w mm_state \<times> c_int set \<Rightarrow> bool"
  for nd K opn sfd live where
  start: "nodes s = Map.empty \<Longrightarrow> maps s = 0 \<Longrightarrow> live (mm_os s) = Map.empty \<Longrightarrow>
     mm_reach nd K opn sfd live (s, opn (mm_os s))"
| step: "mm_reach nd K opn sfd live c \<Longrightarrow> mm_step nd K opn sfd live c c' \<Longrightarrow>
     mm_reach nd K opn sfd live c'"

definition good ::
  "('w os \<Rightarrow> c_int set) \<Rightarrow> ('w os \<Rightarrow> ptr \<Rightarrow> c_int option) \<Rightarrow> ('w os \<Rightarrow> mappings) \<Rightarrow>
   'w mm_state \<times> c_int set \<Rightarrow> bool" where
  "good opn sfd live c \<longleftrightarrow> (\<exists>a. implements (fst c) a \<and> protocol_inv opn sfd live (snd c) a)"

lemma goodI: "implements s a \<Longrightarrow> protocol_inv opn sfd live held a \<Longrightarrow> good opn sfd live (s, held)"
  by (auto simp: good_def)

lemma goodE:
  assumes "good opn sfd live (s, held)"
  obtains a where "implements s a" "protocol_inv opn sfd live held a" "sp_os a = mm_os s"
  using assms implements_sp_os by (auto simp: good_def)

lemma mm_step_good:
  assumes "kernel_laws K opn sfd" and "mapping_laws K live" and "malloc_fresh K"
  shows "mm_step False K opn sfd live c c' \<Longrightarrow> good opn sfd live c \<Longrightarrow> good opn sfd live c'"
proof (induction rule: mm_step.induct)
  case (open_fd fd s os' held)
  then obtain a where a: "implements s a" "protocol_inv opn sfd live held a" "sp_os a = mm_os s"
    by (blast elim: goodE)
  with open_fd(1-4) have "implements (s\<lparr>mm_os := os'\<rparr>) (a\<lparr>sp_os := os'\<rparr>)"
    and "protocol_inv opn sfd live (insert fd held) (a\<lparr>sp_os := os'\<rparr>)"
    using table_inv_open_fd [of "opn (mm_os s)" "sfd (mm_os s)" held "entries a" fd "sfd os'"]
    by (simp_all add: protocol_inv_def)
  then show ?case by (rule goodI)
next
  case (do_mmap fildes held flags addr len prot off s p s')
  then obtain a where "implements s a" "protocol_inv opn sfd live held a" by (blast elim: goodE)
  from pl.mmap_keeps [OF assms this do_mmap(1-3)] show ?case by (blast intro: goodI)
next
  case (do_close fd held s r s')
  then obtain a where "implements s a" "protocol_inv opn sfd live held a" by (blast elim: goodE)
  from pl.close_keeps [OF assms(1,2) this do_close(1,2)] show ?case
    by (auto simp: implements_sp_os intro: goodI)
next
  case (do_fclose fd held fp s r s')
  then obtain a where a: "implements s a" "protocol_inv opn sfd live held a" "sp_os a = mm_os s"
    by (blast elim: goodE)
  from pl.fclose_keeps [OF assms(1,2) a(1,2) do_fclose(1) _ do_fclose(2,4)] do_fclose(3) a(3)
  show ?case by (auto simp: implements_sp_os intro: goodI)
next
  case (do_munmap s addr len r s' held)
  then obtain a where a: "implements s a" "protocol_inv opn sfd live held a" "sp_os a = mm_os s"
    by (blast elim: goodE)
  from pl.munmap_keeps [OF assms(1,2) a(1,2) _ do_munmap(2)] do_munmap(1) a(3) show ?case
    by (auto intro: goodI)
qed

lemma mm_reach_good:
  assumes "kernel_laws K opn sfd" and "mapping_laws K live" and "malloc_fresh K"
  shows "mm_reach False K opn sfd live c \<Longrightarrow> good opn sfd live c"
proof (induction rule: mm_reach.induct)
  case (start s)
  let ?a = "\<lparr>entries = [], sp_os = mm_os s\<rparr>"
  have "implements s ?a" using start by (intro implementsI [where ps = "[]"]) simp_all
  moreover have "protocol_inv opn sfd live (opn (mm_os s)) ?a"
    using start by (simp add: protocol_inv_def table_inv_def waiting_def)
  ultimately show ?case by (rule goodI)
next
  case (step c c')
  then show ?case by (blast intro: mm_step_good [OF assms])
qed

lemma ran_image: "ran m = (\<lambda>p. the (m p)) ` dom m"
proof
  show "ran m \<subseteq> (\<lambda>p. the (m p)) ` dom m"
  proof
    fix x assume "x \<in> ran m"
    then obtain p where "m p = Some x" by (auto simp: ran_def)
    then have "x = the (m p)" and "p \<in> dom m" by auto
    then show "x \<in> (\<lambda>p. the (m p)) ` dom m" by (rule image_eqI)
  qed
  show "(\<lambda>p. the (m p)) ` dom m \<subseteq> ran m" by (auto simp: ran_def)
qed

lemma implements_entries: "implements s a \<Longrightarrow> set (entries a) = abs_entry ` ran (nodes s)"
proof -
  assume "implements s a"
  then obtain ps where ps: "set ps = dom (nodes s)"
      "entries a = map (\<lambda>p. abs_entry (the (nodes s p))) ps"
    unfolding implements_def by blast
  show ?thesis unfolding ps(2) set_map ps(1) ran_image by (simp add: image_image)
qed

lemma good_nodes:
  assumes "good opn sfd live (s, held)"
  shows "live (mm_os s) p = Some (l, fd) \<longleftrightarrow>
      (\<exists>e \<in> ran (nodes s). me_ptr e = p \<and> me_len e = l \<and> me_fd e = fd)"
    and "e \<in> ran (nodes s) \<Longrightarrow> me_want_close e \<longleftrightarrow> me_fd e \<notin> held"
    and "opn (mm_os s) = held \<union> {fd. \<exists>p l. live (mm_os s) p = Some (l, fd)}"
    and "maps s = 0 \<longleftrightarrow> live (mm_os s) = Map.empty"
proof -
  obtain a where impl: "implements s a" and inv: "protocol_inv opn sfd live held a"
      and os: "sp_os a = mm_os s"
    using assms by (rule goodE)
  have a: "table_inv (opn (mm_os s)) (sfd (mm_os s)) held (entries a)"
    and tr: "tracks (live (mm_os s)) (entries a)"
    using inv by (simp_all add: protocol_inv_def os)
  note ents = implements_entries [OF impl]
  show *: "live (mm_os s) p = Some (l, fd) \<longleftrightarrow>
      (\<exists>e \<in> ran (nodes s). me_ptr e = p \<and> me_len e = l \<and> me_fd e = fd)" for p l fd
    unfolding tracks_iff [OF tr] ents by auto
  show want: "me_want_close e \<longleftrightarrow> me_fd e \<notin> held" if "e \<in> ran (nodes s)" for e
    using table_invD(2) [OF a, of "abs_entry e"] ents that by auto
  have "waiting (entries a) = {fd. fd \<notin> held \<and> (\<exists>e \<in> set (entries a). m_fd e = fd)}"
    using table_invD(2) [OF a] by (auto simp: waiting_def)
  then show "opn (mm_os s) = held \<union> {fd. \<exists>p l. live (mm_os s) p = Some (l, fd)}"
    using table_invD(1) [OF a] by (auto simp: tracks_fd [OF tr])
  have "maps s = 0 \<longleftrightarrow> entries a = []" using implements_Nil_iff [OF impl] by simp
  also have "\<dots> \<longleftrightarrow> live (mm_os s) = Map.empty"
    using tr by (cases "entries a") (auto simp: tracks_def)
  finally show "maps s = 0 \<longleftrightarrow> live (mm_os s) = Map.empty" .
qed

text \<open>In a release build the hook has no effect, so \<open>munmap\<close> makes no other library call.\<close>

lemma post_munmap_hook_release:
  "post_munmap_hook True K mp len s = Some s' \<Longrightarrow> s' = s"
  by (auto simp: post_munmap_hook_def delayed_close_def split: if_splits)

lemma munmap_release_os:
  assumes "munmap_stub_impl True K addr len s = Some (r, s')"
  shows "mm_os s' = snd (em_munmap K addr len (mm_os s))"
  using assms
  by (auto simp: munmap_stub_impl_def Let_def split: prod.splits if_splits
      dest!: post_munmap_hook_release)

section \<open>A concrete kernel\<close>

text \<open>
  A small instance of the library calls, used by the witnesses: the outside world is the set
  of open descriptors, the table of open streams and the table of shared writable mappings, of
  which there is at most one, at address 4096; \<open>malloc\<close> hands out the first free one of two
  addresses.
\<close>

record demo_world =
  dw_fds :: "c_int set"
  dw_streams :: "ptr \<Rightarrow> c_int option"
  dw_maps :: mappings

definition demo_opn :: "demo_world os \<Rightarrow> c_int set" where
  "demo_opn os = {fd \<in> dw_fds (env os). \<not> fd <s 0}"

definition demo_sfd :: "demo_world os \<Rightarrow> ptr \<Rightarrow> c_int option" where
  "demo_sfd os = dw_streams (env os)"

definition demo_live :: "demo_world os \<Rightarrow> mappings" where
  "demo_live os = dw_maps (env os)"

definition demo_block :: map_entry where
  "demo_block = \<lparr>me_ptr = 0, me_len = 0, me_fd = 0, me_fp = 0, me_have_fp = False,
     me_want_close = False, me_next = 0\<rparr>"

definition demo_api :: "demo_world em_api" where
  "demo_api = \<lparr>
     em_mmap = (\<lambda>addr len prot flags fd off os.
        if dw_maps (env os) 4096 \<noteq> None then (MAP_FAILED, os)
        else (4096, if shared_writable prot flags fd
                    then os\<lparr>env := (env os)\<lparr>dw_maps := (dw_maps (env os))(4096 \<mapsto> (len, fd))\<rparr>\<rparr> else os)),
     em_munmap = (\<lambda>addr len os. (0, os\<lparr>env := (env os)\<lparr>dw_maps := (dw_maps (env os))(addr := None)\<rparr>\<rparr>)),
     em_fcntl_getfd = (\<lambda>fd os. (if fd \<in> demo_opn os then 0 else - 1, os)),
     em_close = (\<lambda>fd os. if fd \<in> demo_opn os
        then (0, os\<lparr>env := (env os)\<lparr>dw_fds := dw_fds (env os) - {fd}\<rparr>\<rparr>) else (- 1, os)),
     em_fclose = (\<lambda>fp os. case dw_streams (env os) fp of None \<Rightarrow> (- 1, os)
        | Some fd \<Rightarrow> (0, os\<lparr>env := (env os)\<lparr>dw_fds := dw_fds (env os) - {fd},
            dw_streams := (dw_streams (env os))(fp := None)\<rparr>\<rparr>)),
     em_fileno = (\<lambda>fp os. (case dw_streams (env os) fp of None \<Rightarrow> - 1 | Some fd \<Rightarrow> fd, os)),
     em_fflush = (\<lambda>fp os. (0, os)),
     em_malloc = (\<lambda>used os. (if 1 \<notin> used then 1 else if 2 \<notin> used then 2 else 0, demo_block, os))\<rparr>"

lemmas demo_reads = demo_opn_def demo_sfd_def demo_live_def

lemma demo_laws: "kernel_laws demo_api demo_opn demo_sfd"
  unfolding kernel_laws_def
proof (intro conjI)
  show "close_law demo_api demo_opn demo_sfd" "fclose_law demo_api demo_opn demo_sfd"
    by (auto simp: close_law_def fclose_law_def closed_def demo_api_def demo_reads split: if_splits)
qed (simp_all add: valid_fd_law_def fileno_law_def quiet_calls_def quiet_maps_def demo_api_def demo_reads)

lemma no_pair_None: "(\<forall>a b. m \<noteq> Some (a, b)) \<longleftrightarrow> m = None"
  by (cases m) auto

lemma demo_mapping_laws: "mapping_laws demo_api demo_live"
  unfolding mapping_laws_def
proof (intro conjI)
  show "mmap_law demo_api demo_live"
    by (auto simp: mmap_law_def demo_api_def demo_live_def MAP_FAILED_def no_pair_None split: if_splits)
  show "munmap_law demo_api demo_live"
    by (auto simp: munmap_law_def demo_api_def demo_live_def)
qed (simp_all add: quiet_calls_def quiet_closes_def demo_api_def demo_reads split: option.splits)

lemma demo_malloc: "malloc_fresh demo_api"
  by (simp add: malloc_fresh_def demo_api_def)

text \<open>Descriptor 3 is opened, mapped for writing, and closed while the mapping lives.\<close>

definition demo_os :: "c_int set \<Rightarrow> mappings \<Rightarrow> demo_world os" where
  "demo_os fds m = \<lparr>errno = EOK, env = \<lparr>dw_fds = fds, dw_streams = Map.empty, dw_maps = m\<rparr>\<rparr>"

definition demo_start :: "demo_world mm_state" where
  "demo_start = \<lparr>nodes = Map.empty, maps = 0, mm_os = demo_os {} Map.empty\<rparr>"

definition demo_opened :: "demo_world mm_state" where
  "demo_opened = demo_start\<lparr>mm_os := demo_os {3} Map.empty\<rparr>"

definition demo_entry :: "bool \<Rightarrow> map_entry" where
  "demo_entry want = \<lparr>me_ptr = 4096, me_len = 100, me_fd = 3, me_fp = 0, me_have_fp = False,
     me_want_close = want, me_next = 0\<rparr>"

definition demo_mapped :: "bool \<Rightarrow> demo_world mm_state" where
  "demo_mapped want = \<lparr>nodes = [1 \<mapsto> demo_entry want], maps = 1,
     mm_os = demo_os {3} [4096 \<mapsto> (100, 3)]\<rparr>"

lemmas demo_defs = demo_os_def demo_start_def demo_opened_def demo_entry_def demo_mapped_def demo_block_def

lemma demo_run_mmap:
  "mmap_stub_impl nd demo_api 0 100 3 1 3 0 demo_opened = Some (4096, demo_mapped False)"
  by (simp add: mmap_stub_impl_def demo_api_def demo_defs MAP_FAILED_def shared_writable_def
      PROT_WRITE_def MAP_SHARED_def Let_def word_sless_alt)

lemma demo_run_close: "wrap_close demo_api 3 (demo_mapped False) = Some (0, demo_mapped True)"
  by (simp add: wrap_close_def demo_api_def demo_defs demo_opn_def mark_loop.simps
      word_sless_alt)

lemma demo_run_munmap:
  "munmap_stub_impl True demo_api 4096 100 (demo_mapped True) = Some (0, demo_opened)"
  "munmap_stub_impl False demo_api 4096 100 (demo_mapped True) = Some (0, demo_start)"
  by (simp_all add: munmap_stub_impl_def post_munmap_hook_def delayed_close_def demo_api_def
      demo_defs demo_opn_def find_loop.simps word_sless_alt)

lemma demo_whole: "unmaps_whole (demo_live (mm_os (demo_mapped want))) 4096 100"
  by (simp add: unmaps_whole_def demo_live_def demo_defs)

lemma demo_reach: "mm_reach nd demo_api demo_opn demo_sfd demo_live (demo_mapped True, {})"
proof -
  let ?reach = "mm_reach nd demo_api demo_opn demo_sfd demo_live"
    and ?step = "mm_step nd demo_api demo_opn demo_sfd demo_live"
  have "?reach (demo_start, {})"
    using mm_reach.start [of demo_start demo_live nd demo_api demo_opn demo_sfd]
    by (simp add: demo_defs demo_reads)
  moreover have "?step (demo_start, {}) (demo_opened, {3})"
    unfolding demo_opened_def by (rule mm_step.open_fd) (auto simp: demo_defs demo_reads word_sless_alt)
  ultimately have "?reach (demo_opened, {3})" by (rule mm_reach.step)
  moreover have "?step (demo_opened, {3}) (demo_mapped False, {3})"
    using demo_run_mmap by (rule mm_step.do_mmap [rotated 2]) (simp_all add: MAP_FIXED_def)
  ultimately have "?reach (demo_mapped False, {3})" by (rule mm_reach.step)
  moreover have "?step (demo_mapped False, {3}) (demo_mapped True, after_close (demo_opn (mm_os (demo_mapped True))) 3 0 {3})"
    using demo_run_close by (rule mm_step.do_close [rotated]) simp
  ultimately show ?thesis
    using mm_reach.step by (fastforce simp: after_close_def)
qed

section \<open>Properties\<close>

text \<open>
  Property C2. The pointer manipulating code of the four wrapped functions implements the
  abstract table: from related states each returns the same value in related states, and it
  returns exactly when its abstract counterpart does; in particular no operation follows a
  dangling pointer, loses an entry or leaks a block of the list.
\<close>

theorem mmap_hack_refines:
  assumes "implements s a" and "malloc_fresh K"
  shows "simulates implements (mmap_stub_impl nd K addr len prot flags fildes off s)
           (spec_mmap K (dom (nodes s)) addr len prot flags fildes off a) \<and>
         simulates implements (wrap_close K fd s) (Some (spec_close K fd a)) \<and>
         simulates implements (wrap_fclose K fp s) (Some (spec_fclose K fp a)) \<and>
         simulates implements (munmap_stub_impl nd K addr len s) (spec_munmap nd K addr len a)"
  using refine_mmap [OF assms] refine_close [OF assms(1)] refine_fclose [OF assms(1)]
    refine_munmap [OF assms(1)]
  by blast

theorem mmap_hack_refines_witness:
  "simulates implements (wrap_close demo_api 3 demo_start)
     (Some (spec_close demo_api 3 \<lparr>entries = [], sp_os = demo_os {} Map.empty\<rparr>))"
proof -
  have "implements demo_start \<lparr>entries = [], sp_os = demo_os {} Map.empty\<rparr>"
    by (rule implementsI [where ps = "[]"]) (simp_all add: demo_start_def)
  from mmap_hack_refines [OF this demo_malloc] show ?thesis by blast
qed

text \<open>
  Property C1. The purpose of the module: in every state that a client of a debug build can
  reach, the descriptor of every shared writable mapping of the kernel is still open, even after
  the client has closed it; and the mapping is recorded in the table with its address, length and
  descriptor, marked for closing exactly if the client has closed the descriptor.
\<close>

theorem mapped_descriptors_stay_open:
  assumes "kernel_laws K opn sfd" and "mapping_laws K live" and "malloc_fresh K"
    and "mm_reach False K opn sfd live (s, held)" and "live (mm_os s) p = Some (l, fd)"
  shows "fd \<in> opn (mm_os s) \<and>
    (\<exists>e \<in> ran (nodes s). me_ptr e = p \<and> me_len e = l \<and> me_fd e = fd \<and>
       (me_want_close e \<longleftrightarrow> fd \<notin> held))"
proof -
  have g: "good opn sfd live (s, held)" by (rule mm_reach_good [OF assms(1-4)])
  have "fd \<in> opn (mm_os s)" using good_nodes(3) [OF g] assms(5) by blast
  moreover obtain e where "e \<in> ran (nodes s)" "me_ptr e = p" "me_len e = l" "me_fd e = fd"
    using good_nodes(1) [OF g] assms(5) by blast
  ultimately show ?thesis using good_nodes(2) [OF g] by blast
qed

theorem mapped_descriptors_stay_open_witness:
  "demo_live (mm_os (demo_mapped True)) 4096 = Some (100, 3) \<and> 3 \<in> demo_opn (mm_os (demo_mapped True)) \<and>
   (\<exists>e \<in> ran (nodes (demo_mapped True)). me_fd e = 3 \<and> me_want_close e)"
proof -
  have l: "demo_live (mm_os (demo_mapped True)) 4096 = Some (100, 3)"
    by (simp add: demo_live_def demo_defs)
  from mapped_descriptors_stay_open [OF demo_laws demo_mapping_laws demo_malloc demo_reach this] l
  show ?thesis by blast
qed

text \<open>
  Property C12. No descriptor leaks in a debug build: the kernel's open descriptors are exactly
  the ones the client holds and the ones that a shared writable mapping of the kernel was made
  with; the table is empty exactly when there is no such mapping, and then the open descriptors
  are the client's.
\<close>

theorem no_descriptor_leak:
  assumes "kernel_laws K opn sfd" and "mapping_laws K live" and "malloc_fresh K"
    and "mm_reach False K opn sfd live (s, held)"
  shows "opn (mm_os s) = held \<union> {fd. \<exists>p l. live (mm_os s) p = Some (l, fd)} \<and>
    (maps s = 0 \<longleftrightarrow> live (mm_os s) = Map.empty) \<and> (maps s = 0 \<longrightarrow> opn (mm_os s) = held)"
proof -
  have g: "good opn sfd live (s, held)" by (rule mm_reach_good [OF assms])
  from good_nodes(3,4) [OF g] show ?thesis by simp
qed

theorem no_descriptor_leak_witness:
  "mm_reach False demo_api demo_opn demo_sfd demo_live (demo_start, {}) \<and>
   demo_opn (mm_os demo_start) = {}"
proof -
  have "mm_reach False demo_api demo_opn demo_sfd demo_live (demo_start, {})"
    using mm_reach.step [OF demo_reach mm_step.do_munmap [where live = demo_live, OF demo_whole demo_run_munmap(2)]] .
  with no_descriptor_leak [OF demo_laws demo_mapping_laws demo_malloc this] show ?thesis
    by (simp add: demo_start_def)
qed

text \<open>
  Property C13. When a call of a debug build does not return, for a client that unmaps whole
  mappings: \<open>close\<close> and \<open>fclose\<close> always return, and with 0 if a mapping still needs the
  descriptor; \<open>mmap\<close> stops the process exactly if it has made a shared writable mapping and there
  is no memory for its entry; and \<open>munmap\<close> exactly if it has removed the last mapping of a
  descriptor that the client has closed and the kernel refuses the delayed close. The other
  assertions never fail, and no loop follows a dangling pointer or fails to end.
\<close>

theorem wrapped_calls_return:
  assumes "kernel_laws K opn sfd" and "mapping_laws K live" and "malloc_fresh K"
    and "mm_reach False K opn sfd live (s, held)"
  shows "(\<exists>r s'. wrap_close K fd s = Some (r, s') \<and>
      (fd \<in> held \<and> (\<exists>p l. live (mm_os s) p = Some (l, fd)) \<longrightarrow> r = 0)) \<and>
    (\<exists>r s'. wrap_fclose K fp s = Some (r, s') \<and>
      (fd \<in> held \<and> fp \<noteq> 0 \<and> sfd (mm_os s) fp = Some fd \<and> (\<exists>p l. live (mm_os s) p = Some (l, fd)) \<longrightarrow>
       r = 0)) \<and>
    (mmap_stub_impl False K addr len prot flags fildes off s = None \<longleftrightarrow>
      (\<exists>p o1. em_mmap K addr len prot flags fildes off (mm_os s) = (p, o1) \<and> p \<noteq> MAP_FAILED \<and>
         shared_writable prot flags fildes \<and> fst (em_malloc K (dom (nodes s)) o1) = 0)) \<and>
    (unmaps_whole (live (mm_os s)) addr len \<longrightarrow>
      (munmap_stub_impl False K addr len s = None \<longleftrightarrow>
        (\<exists>r o1. em_munmap K addr len (mm_os s) = (r, o1) \<and> \<not> r <s 0 \<and>
          (\<exists>e \<in> ran (nodes s). me_ptr e = addr \<and> me_fd e \<notin> held \<and>
             (\<forall>p l. live (mm_os s) p = Some (l, me_fd e) \<longrightarrow> p = addr) \<and>
             fst (if me_have_fp e then em_fclose K (me_fp e) o1 else em_close K (me_fd e) o1) \<noteq> 0))))"
proof (intro conjI impI)
  have g: "good opn sfd live (s, held)" by (rule mm_reach_good [OF assms])
  then obtain a where impl: "implements s a" and inv: "protocol_inv opn sfd live held a"
      and os: "sp_os a = mm_os s"
    by (rule goodE)
  have mapped: "(\<exists>p l. live (mm_os s) p = Some (l, x)) \<longleftrightarrow> (\<exists>e \<in> set (entries a). m_fd e = x)" for x
    using inv by (simp add: protocol_inv_def os tracks_fd)
  obtain r s' where c: "wrap_close K fd s = Some (r, s')"
    using pl.closes_return(1) [OF impl] by blast
  with pl.close_keeps [OF assms(1,2) impl inv _ c] mapped
  show "\<exists>r s'. wrap_close K fd s = Some (r, s') \<and>
      (fd \<in> held \<and> (\<exists>p l. live (mm_os s) p = Some (l, fd)) \<longrightarrow> r = 0)"
    by blast
  obtain r s' where f: "wrap_fclose K fp s = Some (r, s')"
    using pl.closes_return(2) [OF impl] by blast
  with pl.fclose_keeps [OF assms(1,2) impl inv _ _ _ f] mapped os
  show "\<exists>r s'. wrap_fclose K fp s = Some (r, s') \<and>
      (fd \<in> held \<and> fp \<noteq> 0 \<and> sfd (mm_os s) fp = Some fd \<and> (\<exists>p l. live (mm_os s) p = Some (l, fd)) \<longrightarrow>
       r = 0)"
    by auto
  show "mmap_stub_impl False K addr len prot flags fildes off s = None \<longleftrightarrow>
      (\<exists>p o1. em_mmap K addr len prot flags fildes off (mm_os s) = (p, o1) \<and> p \<noteq> MAP_FAILED \<and>
         shared_writable prot flags fildes \<and> fst (em_malloc K (dom (nodes s)) o1) = 0)"
    by (cases "em_mmap K addr len prot flags fildes off (mm_os s)")
      (auto simp: mmap_stub_impl_def shared_writable_def Let_def split: prod.splits)
  assume whole: "unmaps_whole (live (mm_os s)) addr len"
  have refuses: "refuses K (abs_entry e) o1 \<longleftrightarrow>
      fst (if me_have_fp e then em_fclose K (me_fp e) o1 else em_close K (me_fd e) o1) \<noteq> 0" for e o1
    by (simp add: refuses_def)
  have "(\<forall>p l. live (mm_os s) p = Some (l, x) \<longrightarrow> p = addr) \<longleftrightarrow>
      (\<forall>e' \<in> set (entries a). m_fd e' = x \<longrightarrow> m_ptr e' = addr)" for x
    using inv by (simp add: protocol_inv_def os tracks_only)
  moreover have "m_want_close e \<longleftrightarrow> m_fd e \<notin> held" if "e \<in> set (entries a)" for e
    using inv that by (auto simp: protocol_inv_def table_inv_def)
  ultimately show "munmap_stub_impl False K addr len s = None \<longleftrightarrow>
      (\<exists>r o1. em_munmap K addr len (mm_os s) = (r, o1) \<and> \<not> r <s 0 \<and>
        (\<exists>e \<in> ran (nodes s). me_ptr e = addr \<and> me_fd e \<notin> held \<and>
           (\<forall>p l. live (mm_os s) p = Some (l, me_fd e) \<longrightarrow> p = addr) \<and>
           fst (if me_have_fp e then em_fclose K (me_fp e) o1 else em_close K (me_fd e) o1) \<noteq> 0))"
    using pl.munmap_stops_iff [OF assms(1,2) impl inv, of addr len] whole
    unfolding os stuck_close_def refuses [symmetric] by (auto simp: implements_entries [OF impl])
qed

theorem wrapped_calls_return_witness:
  "munmap_stub_impl False demo_api 4096 100 (demo_mapped True) \<noteq> None"
proof -
  have "\<not> (\<exists>r o1. em_munmap demo_api 4096 100 (mm_os (demo_mapped True)) = (r, o1) \<and> \<not> r <s 0 \<and>
      (\<exists>e \<in> ran (nodes (demo_mapped True)). me_ptr e = 4096 \<and> me_fd e \<notin> {} \<and>
         (\<forall>p l. demo_live (mm_os (demo_mapped True)) p = Some (l, me_fd e) \<longrightarrow> p = 4096) \<and>
         fst (if me_have_fp e then em_fclose demo_api (me_fp e) o1 else em_close demo_api (me_fd e) o1) \<noteq> 0))"
    by (simp add: demo_api_def demo_defs demo_opn_def word_sless_alt)
  then show ?thesis
    using wrapped_calls_return [OF demo_laws demo_mapping_laws demo_malloc demo_reach, of 3 0 4096 100]
      demo_whole [of True] by blast
qed

text \<open>
  Property C33. In a release build the delayed close is compiled away with the assertion it
  stands in: whatever the table holds, \<open>munmap\<close> leaves the kernel's open descriptors as they
  were, so a descriptor whose close was delayed is never closed.
\<close>

theorem release_munmap_closes_nothing:
  assumes "kernel_laws K opn sfd" and "munmap_stub_impl True K addr len s = Some (r, s')"
  shows "opn (mm_os s') = opn (mm_os s)"
proof -
  obtain res o1 where mu: "em_munmap K addr len (mm_os s) = (res, o1)" by force
  from munmap_release_os [OF assms(2)] mu kernel_quiet(3) [OF assms(1) mu] show ?thesis by simp
qed

theorem release_munmap_closes_nothing_witness:
  "\<exists>s. munmap_stub_impl True demo_api 4096 100 (demo_mapped True) = Some (0, s) \<and>
     mm_reach True demo_api demo_opn demo_sfd demo_live (s, {}) \<and> maps s = 0 \<and> demo_opn (mm_os s) = {3}"
proof -
  have "demo_opn (mm_os (demo_mapped True)) = {3}"
    by (auto simp: demo_mapped_def demo_opn_def demo_os_def word_sless_alt)
  then have "demo_opn (mm_os demo_opened) = {3}"
    using release_munmap_closes_nothing [OF demo_laws demo_run_munmap(1)] by simp
  moreover have "mm_reach True demo_api demo_opn demo_sfd demo_live (demo_opened, {})"
    using mm_reach.step [OF demo_reach mm_step.do_munmap [where live = demo_live, OF demo_whole demo_run_munmap(1)]] .
  ultimately show ?thesis
    using demo_run_munmap(1) by (auto simp: demo_opened_def demo_start_def)
qed

end
