(* ===== verification/Uio.thy ===== *)
theory Uio
  imports Prelude
begin

text \<open>
  \<open>libc-compat/winsup/uio.c\<close>: \<open>readv\<close> and \<open>writev\<close> as loops over \<open>read\<close> and \<open>write\<close>.

  An \<open>iovec\<close> is the list of the bytes it designates, so \<open>iov_len\<close> is its length. \<open>ret\<close> and \<open>off\<close> are
  \<open>ssize_t\<close> numbers of 64 bits: the code does not refuse buffers whose lengths add up to more
  (POSIX asks for \<open>EINVAL\<close>), and an addition that leaves the range is a signed overflow, which has
  no result here. \<open>iov_cnt\<close> is compared as an unsigned number, as in C, and reading past the end
  of the array has no result either. \<open>read\<close> and \<open>write\<close> are parameters. The loop retries after
  \<open>EINTR\<close> for as long as that is the answer; it is a partial function, and the theorems prove
  that it returns if the system call is interrupted finitely often.
\<close>

section \<open>The loop\<close>

text \<open>
  \<open>io_read\<close> returns the result of the call and the bytes it has stored, \<open>io_write\<close> the result.
\<close>

record 'w io_api =
  io_read :: "c_int \<Rightarrow> nat \<Rightarrow> 'w os \<Rightarrow> (int \<times> byte list) \<times> 'w os"
  io_write :: "c_int \<Rightarrow> byte list \<Rightarrow> 'w os \<Rightarrow> int \<times> 'w os"

type_synonym iovec = "byte list"

definition uio_xfer ::
  "'w io_api \<Rightarrow> bool \<Rightarrow> c_int \<Rightarrow> nat \<Rightarrow> iovec \<Rightarrow> 'w os \<Rightarrow> int \<times> iovec \<times> 'w os" where
  "uio_xfer A do_write fd off buf os =
     (if do_write
      then (let (r, os') = io_write A fd (drop off buf) os in (r, buf, os'))
      else (let ((r, data), os') = io_read A fd (length buf - off) os
            in (r, take off buf @ data @ drop (off + length data) buf, os')))"

definition in_ssize :: "int \<Rightarrow> bool" where
  "in_ssize n \<longleftrightarrow> - (2 ^ 63) \<le> n \<and> n < 2 ^ 63"

partial_function (option) uio_loop ::
  "'w io_api \<Rightarrow> bool \<Rightarrow> c_int \<Rightarrow> nat \<Rightarrow> nat \<Rightarrow> int \<Rightarrow> nat \<Rightarrow> iovec list \<Rightarrow> 'w os \<Rightarrow>
   (int \<times> iovec list \<times> 'w os) option" where
  "uio_loop A do_write fd cnt i ret off iov os =
     (if i < cnt then
        if i < length iov then
          (case uio_xfer A do_write fd off (iov ! i) os of (r, buf, os') \<Rightarrow>
             if r > 0 then
               if \<not> (in_ssize (ret + r) \<and> in_ssize (int off + r)) then None
               else if off + nat r < length buf
               then uio_loop A do_write fd cnt i (ret + r) (off + nat r) (iov[i := buf]) os'
               else uio_loop A do_write fd cnt (Suc i) (ret + r) 0 (iov[i := buf]) os'
             else if r = 0 then Some (ret, iov[i := buf], os')
             else if errno os' = EINTR
             then uio_loop A do_write fd cnt i ret off (iov[i := buf]) os'
             else Some (if ret = 0 then - 1 else ret, iov[i := buf], os'))
        else None
      else Some (ret, iov, os))"

definition uio_impl ::
  "'w io_api \<Rightarrow> c_int \<Rightarrow> iovec list \<Rightarrow> c_int \<Rightarrow> bool \<Rightarrow> 'w os \<Rightarrow>
   (int \<times> iovec list \<times> 'w os) option" where
  "uio_impl A fd iov iov_cnt do_write os = uio_loop A do_write fd (unat iov_cnt) 0 0 0 iov os"

definition readv ::
  "'w io_api \<Rightarrow> c_int \<Rightarrow> iovec list \<Rightarrow> c_int \<Rightarrow> 'w os \<Rightarrow> (int \<times> iovec list \<times> 'w os) option" where
  "readv A fd iov iov_cnt os = uio_impl A fd iov iov_cnt False os"

definition writev ::
  "'w io_api \<Rightarrow> c_int \<Rightarrow> iovec list \<Rightarrow> c_int \<Rightarrow> 'w os \<Rightarrow> (int \<times> iovec list \<times> 'w os) option" where
  "writev A fd iov iov_cnt os = uio_impl A fd iov iov_cnt True os"

section \<open>The loop rule\<close>

text \<open>The number of bytes before position \<open>off\<close> of buffer \<open>i\<close>.\<close>

definition pos :: "nat \<Rightarrow> nat \<Rightarrow> iovec list \<Rightarrow> nat" where
  "pos i off iov = length (concat (take i iov)) + off"

lemma pos_Suc: "i < length iov \<Longrightarrow> pos (Suc i) 0 iov = pos i (length (iov ! i)) iov"
  by (simp add: pos_def take_Suc_conv_app_nth)

lemma pos_total: "i < length iov \<Longrightarrow>
  length (concat iov) = pos i (length (iov ! i)) iov + length (concat (drop (Suc i) iov))"
  by (subst id_take_nth_drop [of i iov]) (simp_all add: pos_def)

lemma concat_split_at:
  "i < length iov \<Longrightarrow> concat iov = concat (take i iov) @ iov ! i @ concat (drop (Suc i) iov)"
  by (subst id_take_nth_drop [of i iov]) simp_all

lemma length_concat_map: "length (concat xss) = sum_list (map length xss)"
  by (induction xss) auto

lemma map_length_update: "i < length iov \<Longrightarrow> length buf = length (iov ! i) \<Longrightarrow>
  map length (iov[i := buf]) = map length iov"
  by (simp add: map_update list_update_same_conv)

lemma pos_update: "i < length iov \<Longrightarrow> pos i off (iov[i := buf]) = pos i off iov"
  by (simp add: pos_def)

text \<open>
  \<open>Inv p iov os\<close> says what holds when \<open>p\<close> bytes have been transferred; \<open>intr\<close> bounds the
  interruptions that are still to come. A step is a call of \<open>read\<close> or \<open>write\<close>.
\<close>

definition uio_step_ok ::
  "'w io_api \<Rightarrow> bool \<Rightarrow> c_int \<Rightarrow> (nat \<Rightarrow> iovec list \<Rightarrow> 'w os \<Rightarrow> bool) \<Rightarrow> ('w os \<Rightarrow> nat) \<Rightarrow> bool" where
  "uio_step_ok A do_write fd Inv intr \<longleftrightarrow>
     (\<forall>i off iov os r buf os'.
        Inv (pos i off iov) iov os \<longrightarrow> i < length iov \<longrightarrow> off \<le> length (iov ! i) \<longrightarrow>
        uio_xfer A do_write fd off (iov ! i) os = (r, buf, os') \<longrightarrow>
        length buf = length (iov ! i) \<and> nat r \<le> length (iov ! i) - off \<and>
        Inv (pos i off iov + nat r) (iov[i := buf]) os' \<and>
        intr os' \<le> intr os \<and> (r < 0 \<and> errno os' = EINTR \<longrightarrow> intr os' < intr os))"

text \<open>Why the loop may end before all buffers are done: end of file or an error.\<close>

definition uio_stopped ::
  "'w io_api \<Rightarrow> bool \<Rightarrow> c_int \<Rightarrow> nat \<Rightarrow> nat list \<Rightarrow> bool" where
  "uio_stopped A do_write fd n lens \<longleftrightarrow>
     (\<exists>iov os i off r buf os'. map length iov = lens \<and> i < length iov \<and> n = pos i off iov \<and>
        off \<le> length (iov ! i) \<and> (off = 0 \<or> off < length (iov ! i)) \<and>
        uio_xfer A do_write fd off (iov ! i) os = (r, buf, os') \<and>
        (r = 0 \<or> r < 0 \<and> errno os' \<noteq> EINTR))"

text \<open>
  The outcome: the call returns, \<open>n\<close> bytes have been transferred, and \<open>n\<close> is the result
  unless it is 0 and the call failed; \<open>lens\<close> are the lengths of the buffers.
\<close>

definition uio_outcome ::
  "'w io_api \<Rightarrow> bool \<Rightarrow> c_int \<Rightarrow> (nat \<Rightarrow> iovec list \<Rightarrow> 'w os \<Rightarrow> bool) \<Rightarrow> nat list \<Rightarrow>
   (int \<times> iovec list \<times> 'w os) option \<Rightarrow> bool" where
  "uio_outcome A do_write fd Inv lens res \<longleftrightarrow>
     (\<exists>n ret iov os. res = Some (ret, iov, os) \<and> Inv n iov os \<and> map length iov = lens \<and>
        n \<le> sum_list lens \<and> (ret = int n \<or> n = 0 \<and> ret = - 1) \<and>
        (n = sum_list lens \<or> uio_stopped A do_write fd n lens))"

lemma uio_outcome_stopped:
  "Inv n iov os \<Longrightarrow> map length iov = lens \<Longrightarrow> n \<le> sum_list lens \<Longrightarrow>
   ret = int n \<or> n = 0 \<and> ret = - 1 \<Longrightarrow> uio_stopped A do_write fd n lens \<Longrightarrow>
   uio_outcome A do_write fd Inv lens (Some (ret, iov, os))"
  unfolding uio_outcome_def by blast

text \<open>What one transfer does, by \<open>uio_step_ok\<close>.\<close>

lemma uio_stepD:
  assumes "uio_step_ok A do_write fd Inv intr" and "Inv (pos i off iov) iov os" and "i < length iov"
    and "off = 0 \<or> off < length (iov ! i)"
    and xfer: "uio_xfer A do_write fd off (iov ! i) os = (r, buf, os')"
  shows "length buf = length (iov ! i)" and "off + nat r \<le> length (iov ! i)"
    and "Inv (pos i off iov + nat r) (iov[i := buf]) os'"
    and "intr os' \<le> intr os" and "r < 0 \<Longrightarrow> errno os' = EINTR \<Longrightarrow> intr os' < intr os"
    and "map length (iov[i := buf]) = map length iov" and "off \<le> length (iov ! i)"
    and "length (concat (iov[i := buf])) = length (concat iov)"
    and "pos i off iov \<le> length (concat iov)"
    and "r = 0 \<or> r < 0 \<and> errno os' \<noteq> EINTR \<Longrightarrow>
      uio_stopped A do_write fd (pos i off iov) (map length iov)"
proof -
  show off: "off \<le> length (iov ! i)" using assms(4) by auto
  have step: "length buf = length (iov ! i)" "nat r \<le> length (iov ! i) - off"
      "Inv (pos i off iov + nat r) (iov[i := buf]) os'"
      "intr os' \<le> intr os" "r < 0 \<and> errno os' = EINTR \<longrightarrow> intr os' < intr os"
    using assms(1-3) off xfer unfolding uio_step_ok_def by blast+
  then show "length buf = length (iov ! i)" "off + nat r \<le> length (iov ! i)"
      "Inv (pos i off iov + nat r) (iov[i := buf]) os'"
      "intr os' \<le> intr os" "r < 0 \<Longrightarrow> errno os' = EINTR \<Longrightarrow> intr os' < intr os"
    using off by auto
  show lens: "map length (iov[i := buf]) = map length iov"
    by (rule map_length_update [OF assms(3) step(1)])
  then show "length (concat (iov[i := buf])) = length (concat iov)"
    by (simp add: length_concat_map)
  show "pos i off iov \<le> length (concat iov)"
    using pos_total [OF assms(3)] off by (simp add: pos_def)
  show "uio_stopped A do_write fd (pos i off iov) (map length iov)"
    if "r = 0 \<or> r < 0 \<and> errno os' \<noteq> EINTR"
    unfolding uio_stopped_def using assms(3,4) off xfer that by blast
qed

text \<open>The loop, one transfer at a time.\<close>

lemma uio_loop_step:
  assumes "i < length iov" and "uio_xfer A do_write fd off (iov ! i) os = (r, buf, os')"
    and "r > 0 \<longrightarrow> in_ssize (ret + r) \<and> in_ssize (int off + r)"
  shows "uio_loop A do_write fd (length iov) i ret off iov os =
    (if r > 0 \<and> off + nat r < length buf
     then uio_loop A do_write fd (length iov) i (ret + r) (off + nat r) (iov[i := buf]) os'
     else if r > 0 then uio_loop A do_write fd (length iov) (Suc i) (ret + r) 0 (iov[i := buf]) os'
     else if r < 0 \<and> errno os' = EINTR
     then uio_loop A do_write fd (length iov) i ret off (iov[i := buf]) os'
     else Some (if r < 0 \<and> ret = 0 then - 1 else ret, iov[i := buf], os'))"
  using assms by (subst uio_loop.simps) auto

text \<open>No counter overflows while the position is within buffers that an \<open>ssize_t\<close> can count.\<close>

lemma in_ssize_pos:
  assumes "length (concat iov) < 2 ^ 63" and "i < length iov" and "off + nat r \<le> length (iov ! i)"
    and "r > 0"
  shows "in_ssize (int (pos i off iov) + r)" and "in_ssize (int off + r)"
proof -
  have "pos i off iov + nat r \<le> length (concat iov)"
    using pos_total [OF assms(2)] assms(3) by (simp add: pos_def)
  moreover have "int (2 ^ 63) = 2 ^ 63" by simp
  ultimately show "in_ssize (int (pos i off iov) + r)" "in_ssize (int off + r)"
    using assms(1,4) unfolding in_ssize_def pos_def by linarith+
qed

lemma uio_loop_rule:
  assumes ok: "uio_step_ok A do_write fd Inv intr" and "length (concat iov) < 2 ^ 63"
    and "Inv (pos i off iov) iov os" and "i \<le> length iov"
    and "off = 0 \<or> i < length iov \<and> off < length (iov ! i)" and "ret = int (pos i off iov)"
  shows "uio_outcome A do_write fd Inv (map length iov)
    (uio_loop A do_write fd (length iov) i ret off iov os)"
  using assms(2-6)
proof (induction "intr os + (length (concat iov) - pos i off iov)" arbitrary: i off ret iov os
    rule: less_induct)
  case less
  show ?case
  proof (cases "i < length iov")
    case False
    then have "i = length iov" and "off = 0" using less.prems by auto
    then have "pos i off iov = length (concat iov)" by (simp add: pos_def)
    with less.prems \<open>i = length iov\<close> show ?thesis
      by (subst uio_loop.simps) (auto simp: uio_outcome_def length_concat_map)
  next
    case True
    obtain r buf os' where xfer: "uio_xfer A do_write fd off (iov ! i) os = (r, buf, os')"
      by (metis prod_cases3)
    have "off = 0 \<or> off < length (iov ! i)" using less.prems(4) by auto
    note step = uio_stepD [OF ok less.prems(2) True this xfer]
    have "r > 0 \<longrightarrow> in_ssize (ret + r) \<and> in_ssize (int off + r)"
      using in_ssize_pos [OF less.prems(1) True step(2)] less.prems(5) by simp
    note loop = uio_loop_step [OF True xfer this]
    have moved: "pos j k (iov[i := buf]) = pos i off iov + nat r"
      if "j = i \<and> k = off + nat r \<or> j = Suc i \<and> k = 0 \<and> off + nat r = length (iov ! i)" for j k
      using True step(1) that by (auto simp: pos_Suc pos_update) (simp_all add: pos_def)
    have more: "uio_outcome A do_write fd Inv (map length iov)
        (uio_loop A do_write fd (length iov) j (ret + int (nat r)) k (iov[i := buf]) os')"
      if "j = i \<and> k = off + nat r \<and> (off + nat r < length (iov ! i) \<or> nat r = 0) \<or>
          j = Suc i \<and> k = 0 \<and> off + nat r = length (iov ! i)"
        and "r > 0 \<or> r < 0 \<and> errno os' = EINTR" for j k
    proof -
      have "pos j k (iov[i := buf]) = pos i off iov + nat r" using moved that(1) by blast
      moreover have "pos i off iov + nat r \<le> length (concat iov)"
        using pos_total [OF True] step(2) by (simp add: pos_def)
      ultimately show ?thesis
        using that True step less.prems(1,4,5) unfolding step(6) [symmetric]
        by (intro less.hyps [where iov = "iov[i := buf]", simplified]) auto
    qed
    have stop: "uio_outcome A do_write fd Inv (map length iov)
        (Some (if r < 0 \<and> ret = 0 then - 1 else ret, iov[i := buf], os'))"
      if "r = 0 \<or> r < 0 \<and> errno os' \<noteq> EINTR"
      using step(3,6,9) step(10) [OF that] less.prems(5) that
      by (intro uio_outcome_stopped) (auto simp: length_concat_map)
    show ?thesis
      using more [of i "off + nat r"] more [of "Suc i" 0] stop step(1,2) unfolding loop
      by (cases r "0 :: int" rule: linorder_cases) (auto split: if_splits)
  qed
qed

section \<open>Device laws\<close>

text \<open>
  What POSIX says of \<open>write\<close> and \<open>read\<close> on one descriptor: \<open>sent\<close> is what the device
  has accepted so far, \<open>avail\<close> is what is still to be read; a call transfers at most what was
  asked for, and nothing when it fails; \<open>intr\<close> bounds the interruptions to come.
\<close>

definition interrupts :: "('w os \<Rightarrow> nat) \<Rightarrow> int \<Rightarrow> 'w os \<Rightarrow> 'w os \<Rightarrow> bool" where
  "interrupts intr r os os' \<longleftrightarrow> intr os' \<le> intr os \<and> (r < 0 \<and> errno os' = EINTR \<longrightarrow> intr os' < intr os)"

definition write_law ::
  "'w io_api \<Rightarrow> c_int \<Rightarrow> ('w os \<Rightarrow> byte list) \<Rightarrow> ('w os \<Rightarrow> nat) \<Rightarrow> bool" where
  "write_law A fd sent intr \<longleftrightarrow>
     (\<forall>bs os r os'. io_write A fd bs os = (r, os') \<longrightarrow>
        nat r \<le> length bs \<and> sent os' = sent os @ take (nat r) bs \<and> interrupts intr r os os')"

definition read_law ::
  "'w io_api \<Rightarrow> c_int \<Rightarrow> ('w os \<Rightarrow> byte list) \<Rightarrow> ('w os \<Rightarrow> nat) \<Rightarrow> bool" where
  "read_law A fd avail intr \<longleftrightarrow>
     (\<forall>n os r data os'. io_read A fd n os = ((r, data), os') \<longrightarrow>
        length data = nat r \<and> nat r \<le> n \<and> avail os = data @ avail os' \<and> interrupts intr r os os')"

lemma take_concat_pos:
  "i < length iov \<Longrightarrow> off + k \<le> length (iov ! i) \<Longrightarrow>
   take (pos i off iov + k) (concat iov) = take (pos i off iov) (concat iov) @ take k (drop off (iov ! i))"
  by (simp add: concat_split_at pos_def add.assoc take_add)

lemma writev_step_ok:
  assumes "write_law A fd sent intr"
  shows "uio_step_ok A True fd
    (\<lambda>n iov os. iov = iov0 \<and> sent os = sent0 @ take n (concat iov0)) intr"
  unfolding uio_step_ok_def
proof (intro allI impI, elim conjE)
  fix i off iov os r buf os'
  assume "iov = iov0" and sent: "sent os = sent0 @ take (pos i off iov) (concat iov0)"
    and i: "i < length iov" and off: "off \<le> length (iov ! i)"
    and "uio_xfer A True fd off (iov ! i) os = (r, buf, os')"
  then have w: "io_write A fd (drop off (iov ! i)) os = (r, os')" and buf: "buf = iov ! i"
    by (auto simp: uio_xfer_def split: prod.splits)
  then have law: "nat r \<le> length (iov ! i) - off"
      "sent os' = sent os @ take (nat r) (drop off (iov ! i))" "interrupts intr r os os'"
    using assms unfolding write_law_def by (metis length_drop, blast, blast)
  have "sent os' = sent0 @ take (pos i off iov + nat r) (concat iov)"
    using law(1,2) sent \<open>iov = iov0\<close> take_concat_pos [OF i, of off "nat r"] off by simp
  with law buf \<open>iov = iov0\<close> show "length buf = length (iov ! i) \<and> nat r \<le> length (iov ! i) - off \<and>
      (iov[i := buf] = iov0 \<and> sent os' = sent0 @ take (pos i off iov + nat r) (concat iov0)) \<and>
      intr os' \<le> intr os \<and> (r < 0 \<and> errno os' = EINTR \<longrightarrow> intr os' < intr os)"
    by (simp add: interrupts_def)
qed

lemma readv_buffer:
  assumes i: "i < length iov" and off: "off + length data \<le> length (iov ! i)"
    and c: "concat iov = take (pos i off iov) a0 @ drop (pos i off iov) c0"
    and a: "length data \<le> length a0 - pos i off iov" "take (length data) (drop (pos i off iov) a0) = data"
    and p: "pos i off iov \<le> length a0"
  shows "concat (iov[i := take off (iov ! i) @ data @ drop (off + length data) (iov ! i)]) =
    take (pos i off iov + length data) a0 @ drop (pos i off iov + length data) c0"
proof -
  let ?p = "pos i off iov" and ?b = "iov ! i"
  have split: "concat iov = concat (take i iov) @ ?b @ concat (drop (Suc i) iov)"
    by (rule concat_split_at [OF i])
  have len: "length (concat (take i iov) @ take off ?b) = ?p"
    using off by (simp add: pos_def)
  have "take ?p (concat iov) = take ?p a0" using p by (simp add: c)
  moreover have "take ?p (concat iov) = concat (take i iov) @ take off ?b"
    unfolding split using off by (simp add: pos_def)
  ultimately have pre: "concat (take i iov) @ take off ?b = take ?p a0" by simp
  have "drop (?p + length data) (concat iov) = drop (?p + length data) c0"
    using p by (simp add: c add.commute)
  moreover have "drop (?p + length data) (concat iov) =
      drop (off + length data) ?b @ concat (drop (Suc i) iov)"
    unfolding split using off by (simp add: pos_def add.assoc)
  ultimately have post: "drop (off + length data) ?b @ concat (drop (Suc i) iov) =
      drop (?p + length data) c0"
    by simp
  have "concat (iov[i := buf]) = concat (take i iov) @ buf @ concat (drop (Suc i) iov)" for buf
    using i by (simp add: upd_conv_take_nth_drop)
  then have "concat (iov[i := take off ?b @ data @ drop (off + length data) ?b]) =
      (concat (take i iov) @ take off ?b) @ data @ drop (off + length data) ?b @ concat (drop (Suc i) iov)"
    by simp
  also have "\<dots> = take ?p a0 @ data @ drop (?p + length data) c0" by (simp only: pre post)
  also have "\<dots> = take (?p + length data) a0 @ drop (?p + length data) c0"
    by (simp only: take_add a(2) append_assoc)
  finally show ?thesis .
qed

lemma readv_step_ok:
  assumes "read_law A fd avail intr"
  shows "uio_step_ok A False fd
    (\<lambda>n iov os. map length iov = lens \<and> n \<le> length a0 \<and> avail os = drop n a0 \<and>
       concat iov = take n a0 @ drop n c0) intr"
  unfolding uio_step_ok_def
proof (intro allI impI, elim conjE)
  fix i off iov os r buf os'
  assume lens: "map length iov = lens" and p: "pos i off iov \<le> length a0"
    and av: "avail os = drop (pos i off iov) a0"
    and c: "concat iov = take (pos i off iov) a0 @ drop (pos i off iov) c0"
    and i: "i < length iov" and off: "off \<le> length (iov ! i)"
    and x: "uio_xfer A False fd off (iov ! i) os = (r, buf, os')"
  obtain data where rd: "io_read A fd (length (iov ! i) - off) os = ((r, data), os')"
      and buf: "buf = take off (iov ! i) @ data @ drop (off + length data) (iov ! i)"
    using x by (auto simp: uio_xfer_def split: prod.splits)
  then have law: "length data = nat r" "nat r \<le> length (iov ! i) - off"
      "avail os = data @ avail os'" "interrupts intr r os os'"
    using assms unfolding read_law_def by blast+
  have "length (avail os) = length a0 - pos i off iov" using av by simp
  then have dl: "length data \<le> length a0 - pos i off iov"
    using law(3) by (metis length_append le_add1)
  have dt: "take (length data) (drop (pos i off iov) a0) = data"
    using law(3) av by simp
  have lb: "length buf = length (iov ! i)" using law(1,2) off by (simp add: buf)
  have "avail os' = drop (pos i off iov + nat r) a0"
    using law(1,3) av by (metis append_eq_conv_conj drop_drop add.commute)
  moreover have "concat (iov[i := buf]) =
      take (pos i off iov + nat r) a0 @ drop (pos i off iov + nat r) c0"
    using readv_buffer [OF i _ c dl dt p] law(1,2) off by (simp add: buf)
  moreover have "pos i off iov + nat r \<le> length a0" using p dl law(1) by linarith
  ultimately show "length buf = length (iov ! i) \<and> nat r \<le> length (iov ! i) - off \<and>
      (map length (iov[i := buf]) = lens \<and> pos i off iov + nat r \<le> length a0 \<and>
       avail os' = drop (pos i off iov + nat r) a0 \<and>
       concat (iov[i := buf]) = take (pos i off iov + nat r) a0 @ drop (pos i off iov + nat r) c0) \<and>
      intr os' \<le> intr os \<and> (r < 0 \<and> errno os' = EINTR \<longrightarrow> intr os' < intr os)"
    using law lb lens map_length_update [OF i lb] by (simp add: interrupts_def)
qed

lemma unat_of_nat_cnt: "length iov < 2 ^ 31 \<Longrightarrow> unat (of_nat (length iov) :: c_int) = length iov"
  by (simp add: unat_of_nat)

text \<open>What the rule says of \<open>writev\<close>.\<close>

lemma writev_outcome:
  assumes "write_law A fd sent intr" and "length iov < 2 ^ 31" and "length (concat iov) < 2 ^ 63"
  shows "\<exists>n ret os'. writev A fd iov (of_nat (length iov)) os = Some (ret, iov, os') \<and>
    n \<le> length (concat iov) \<and> sent os' = sent os @ take n (concat iov) \<and>
    (ret = int n \<or> n = 0 \<and> ret = - 1) \<and>
    (n = length (concat iov) \<or> uio_stopped A True fd n (map length iov))"
proof -
  have "uio_outcome A True fd (\<lambda>n iov' os'. iov' = iov \<and> sent os' = sent os @ take n (concat iov))
      (map length iov) (uio_loop A True fd (length iov) 0 0 0 iov os)"
    by (rule uio_loop_rule [OF writev_step_ok [OF assms(1)] assms(3)]) (simp_all add: pos_def)
  then show ?thesis
    using unat_of_nat_cnt [OF assms(2)]
    by (auto simp: uio_outcome_def writev_def uio_impl_def length_concat_map)
qed

section \<open>A concrete device\<close>

text \<open>
  A device for the witnesses: it accepts and delivers at most three bytes at a time, and the
  first call of a session is interrupted. Its world is the pair of the flag that the interruption
  is still to come and the bytes accepted, or still to be read.
\<close>

definition demo_dev :: "(bool \<times> byte list) io_api" where
  "demo_dev = \<lparr>
     io_read = (\<lambda>fd n os. if fst (env os) then ((- 1, []), os\<lparr>errno := EINTR, env := (False, snd (env os))\<rparr>)
       else (let data = take (min n 3) (snd (env os))
             in ((int (length data), data), os\<lparr>env := (False, drop (min n 3) (snd (env os)))\<rparr>))),
     io_write = (\<lambda>fd bs os. if fst (env os) then (- 1, os\<lparr>errno := EINTR, env := (False, snd (env os))\<rparr>)
       else (int (length (take 3 bs)), os\<lparr>env := (False, snd (env os) @ take 3 bs)\<rparr>))\<rparr>"

definition demo_intr :: "(bool \<times> byte list) os \<Rightarrow> nat" where
  "demo_intr os = (if fst (env os) then 1 else 0)"

definition demo_dev_os :: "bool \<Rightarrow> byte list \<Rightarrow> (bool \<times> byte list) os" where
  "demo_dev_os b bs = \<lparr>errno = EOK, env = (b, bs)\<rparr>"

lemma demo_write_law: "write_law demo_dev fd (\<lambda>os. snd (env os)) demo_intr"
  unfolding write_law_def
  by (auto simp: demo_dev_def interrupts_def demo_intr_def min_def split: if_splits)

lemma demo_read_law: "read_law demo_dev fd (\<lambda>os. snd (env os)) demo_intr"
  unfolding read_law_def
  by (auto simp: demo_dev_def interrupts_def demo_intr_def Let_def split: if_splits)

section \<open>Properties\<close>

text \<open>
  Property C4. \<open>writev\<close> on a device that obeys POSIX, with buffers whose lengths add up to an
  \<open>ssize_t\<close>: the call returns, whatever mixture of
  short writes and finitely many interruptions the device answers with; the device then has
  accepted a prefix of the concatenated buffers; the result is the length of that prefix, or -1
  only when nothing was accepted; and the prefix is shorter than the whole only if a write
  returned 0 or failed exactly at its end.
\<close>

theorem writev_sends_prefix:
  assumes "write_law A fd sent intr" and "length iov < 2 ^ 31" and "length (concat iov) < 2 ^ 63"
  shows "\<exists>n ret os'. writev A fd iov (of_nat (length iov)) os = Some (ret, iov, os') \<and>
    n \<le> length (concat iov) \<and> sent os' = sent os @ take n (concat iov) \<and>
    (ret = int n \<or> n = 0 \<and> ret = - 1) \<and>
    (n = length (concat iov) \<or> uio_stopped A True fd n (map length iov))"
  by (rule writev_outcome [OF assms])

lemma demo_iov_short:
  "length [[1, 2], [3, 4, 5, 6, 7], [8 :: byte]] < 2 ^ 31"
  "length (concat [[1, 2], [3, 4, 5, 6, 7], [8 :: byte]]) < 2 ^ 63"
  by simp_all

theorem writev_sends_prefix_witness:
  "\<exists>n ret os'. writev demo_dev 1 [[1, 2], [3, 4, 5, 6, 7], [8]] 3 (demo_dev_os True []) =
     Some (ret, [[1, 2], [3, 4, 5, 6, 7], [8]], os') \<and>
     n \<le> 8 \<and> snd (env os') = take n [1, 2, 3, 4, 5, 6, 7, 8]"
proof -
  have "length (concat [[1, 2], [3, 4, 5, 6, 7], [8 :: byte]]) = 8"
    "concat [[1, 2], [3, 4, 5, 6, 7], [8]] = [1, 2, 3, 4, 5, 6, 7, 8 :: byte]"
    "of_nat (length [[1, 2], [3, 4, 5, 6, 7], [8 :: byte]]) = (3 :: c_int)"
    "snd (env (demo_dev_os True [])) = []"
    by (simp_all add: demo_dev_os_def)
  then show ?thesis
    using writev_sends_prefix [OF demo_write_law, of "[[1, 2], [3, 4, 5, 6, 7], [8]]" 1
        "demo_dev_os True []"]
    by (metis (no_types, lifting) append_Nil demo_iov_short)
qed

text \<open>
  Property C16. \<open>readv\<close> on a device that obeys POSIX, with buffers whose lengths add up to an
  \<open>ssize_t\<close>: the call returns; the bytes taken from
  the device fill the buffers from the front, in order and across buffer boundaries, the rest of
  the buffers and their lengths are unchanged, nothing that was taken is lost; and the result
  counts the bytes, or is -1 only when there was none.
\<close>

theorem readv_fills_buffers:
  assumes "read_law A fd avail intr" and "length iov < 2 ^ 31" and "length (concat iov) < 2 ^ 63"
  shows "\<exists>n ret iov' os'. readv A fd iov (of_nat (length iov)) os = Some (ret, iov', os') \<and>
    map length iov' = map length iov \<and> n \<le> length (avail os) \<and>
    concat iov' = take n (avail os) @ drop n (concat iov) \<and> avail os' = drop n (avail os) \<and>
    (ret = int n \<or> n = 0 \<and> ret = - 1) \<and>
    (n = length (concat iov) \<or> uio_stopped A False fd n (map length iov))"
proof -
  have "uio_outcome A False fd (\<lambda>n iov' os'. map length iov' = map length iov \<and> n \<le> length (avail os) \<and>
        avail os' = drop n (avail os) \<and> concat iov' = take n (avail os) @ drop n (concat iov))
      (map length iov) (uio_loop A False fd (length iov) 0 0 0 iov os)"
    by (rule uio_loop_rule [OF readv_step_ok [OF assms(1)] assms(3)]) (simp_all add: pos_def)
  then show ?thesis
    using unat_of_nat_cnt [OF assms(2)]
    by (auto simp: uio_outcome_def readv_def uio_impl_def length_concat_map)
qed

theorem readv_fills_buffers_witness:
  "\<exists>n ret iov' os'. readv demo_dev 0 [[0, 0], [0, 0, 0]] 2 (demo_dev_os True [1, 2, 3, 4]) =
     Some (ret, iov', os') \<and> concat iov' = take n [1, 2, 3, 4] @ drop n [0, 0, 0, 0, 0] \<and>
     snd (env os') = drop n [1, 2, 3, 4]"
proof -
  obtain n ret iov' os' where "readv demo_dev 0 [[0, 0], [0, 0, 0]] 2 (demo_dev_os True [1, 2, 3, 4]) =
      Some (ret, iov', os')" "concat iov' = take n [1, 2, 3, 4] @ drop n [0, 0, 0, 0, 0]"
      "snd (env os') = drop n [1, 2, 3, 4]"
    using readv_fills_buffers [OF demo_read_law, of "[[0, 0], [0, 0, 0]]" 0
        "demo_dev_os True [1, 2, 3, 4]"]
    by (simp add: demo_dev_os_def) blast
  then show ?thesis by blast
qed

text \<open>
  Property C17. A complete transfer: if the lengths of the buffers add up to an \<open>ssize_t\<close>, no buffer is empty and the device never refuses data
  that it is offered (other than by an interruption), \<open>writev\<close> sends every byte of every buffer
  and returns their number.
\<close>

theorem writev_complete:
  assumes "write_law A fd sent intr" and "length iov < 2 ^ 31" and "length (concat iov) < 2 ^ 63"
    and "[] \<notin> set iov"
    and "\<forall>bs os r os'. io_write A fd bs os = (r, os') \<and> bs \<noteq> [] \<longrightarrow> r > 0 \<or> r < 0 \<and> errno os' = EINTR"
  shows "\<exists>os'. writev A fd iov (of_nat (length iov)) os = Some (int (length (concat iov)), iov, os') \<and>
    sent os' = sent os @ concat iov"
proof -
  obtain n ret os' where w: "writev A fd iov (of_nat (length iov)) os = Some (ret, iov, os')"
      "sent os' = sent os @ take n (concat iov)" "ret = int n \<or> n = 0 \<and> ret = - 1"
      "n = length (concat iov) \<or> uio_stopped A True fd n (map length iov)"
    using writev_outcome [OF assms(1-3)] by blast
  have "\<not> uio_stopped A True fd n (map length iov)"
  proof
    assume "uio_stopped A True fd n (map length iov)"
    then obtain iov' o1 i off r buf o2 where st: "map length iov' = map length iov" "i < length iov'"
        "off = 0 \<or> off < length (iov' ! i)" "uio_xfer A True fd off (iov' ! i) o1 = (r, buf, o2)"
        "r = 0 \<or> r < 0 \<and> errno o2 \<noteq> EINTR"
      unfolding uio_stopped_def by blast
    have "length (iov' ! i) = length (iov ! i)" "i < length iov"
      using st(1,2) by (metis length_map nth_map)+
    then have "iov' ! i \<noteq> []" using assms(4) nth_mem [of i iov] by (metis length_0_conv)
    then have "drop off (iov' ! i) \<noteq> []" using st(3) by auto
    moreover have "io_write A fd (drop off (iov' ! i)) o1 = (r, o2)"
      using st(4) by (auto simp: uio_xfer_def split: prod.splits)
    ultimately show False using assms(5) st(5) by fastforce
  qed
  with w(4) have n: "n = length (concat iov)" by simp
  have "ret = int n"
  proof (cases "iov = []")
    case True
    with w(1) have "ret = 0" by (simp add: writev_def uio_impl_def uio_loop.simps)
    with True n show ?thesis by simp
  next
    case False
    then have "concat iov \<noteq> []" using assms(4) by (cases iov) auto
    with n w(3) show ?thesis by (metis length_0_conv)
  qed
  with w(1,2) n show ?thesis by simp
qed

lemma demo_write_progress:
  "io_write demo_dev fd bs os = (r, os') \<Longrightarrow> bs \<noteq> [] \<Longrightarrow> r > 0 \<or> r < 0 \<and> errno os' = EINTR"
  by (auto simp: demo_dev_def split: if_splits)

theorem writev_complete_witness:
  "\<exists>os'. writev demo_dev 1 [[1, 2], [3, 4, 5, 6, 7], [8]] 3 (demo_dev_os True []) =
     Some (8, [[1, 2], [3, 4, 5, 6, 7], [8]], os') \<and> snd (env os') = [1, 2, 3, 4, 5, 6, 7, 8]"
  using writev_complete [OF demo_write_law, of "[[1, 2], [3, 4, 5, 6, 7], [8]]" 1
      "demo_dev_os True []"] demo_write_progress
  by (fastforce simp: demo_dev_os_def)

text \<open>
  An empty buffer ends a transfer early: \<open>write\<close> of no bytes returns 0 on a
  regular file, which the loop takes for the end of the data, so buffers behind an empty one are
  not sent although nothing has failed.
\<close>

theorem writev_stops_at_empty:
  assumes "io_write A fd [] os = (0, os)" and "length iov < 2 ^ 31 - 1"
  shows "writev A fd ([] # iov) (of_nat (Suc (length iov))) os = Some (0, [] # iov, os)"
proof -
  have "unat (of_nat (length ([] # iov)) :: c_int) = length ([] # iov)"
    using assms(2) by (intro unat_of_nat_cnt) simp
  then have "unat (of_nat (Suc (length iov)) :: c_int) = Suc (length iov)"
    by (simp only: length_Cons)
  then show ?thesis
    unfolding writev_def uio_impl_def by (subst uio_loop.simps) (simp add: assms(1) uio_xfer_def)
qed

theorem writev_stops_at_empty_witness:
  "writev demo_dev 1 [[], [1, 2]] 2 (demo_dev_os False []) = Some (0, [[], [1, 2]], demo_dev_os False [])"
  using writev_stops_at_empty [of demo_dev 1 "demo_dev_os False []" "[[1, 2]]"]
  by (simp add: demo_dev_def demo_dev_os_def)

end
