(* ===== verification/Sendfile.thy ===== *)
theory Sendfile
  imports Uio
begin

text \<open>
  \<open>libc-compat/non-linux/sendfile_fallback.c\<close>: \<open>__sendfile_stub\<close> copies \<open>count\<close> bytes from
  one descriptor to another through an 8192 byte buffer on the stack, for systems without
  \<open>sendfile\<close>.

  \<open>size_t\<close> and \<open>off_t\<close> have 64 bits. Results of \<open>read\<close> and \<open>write\<close> are converted to
  \<open>size_t\<close> as the source does, and \<open><\<close> on them is the unsigned comparison of the source.
  The three ways in which the call can end are values of \<open>sf_end\<close>; \<^const>\<open>None\<close> is
  a call that loops. \<open>perror\<close> is left out. The buffer is an explicit list of bytes: passing an
  address range that leaves it to \<open>read\<close> or \<open>write\<close> is the outcome \<open>Overrun\<close>.
\<close>

section \<open>The copy loop\<close>

datatype 'w sf_end = Returned "'w os" | Asserted "'w os" | Overrun "'w os"

definition sf_buf_size :: size_t where "sf_buf_size = 8192"

text \<open>\<open>MIN (n_left, sf_buf_size)\<close>: both operands are signed.\<close>

definition sf_min :: "ssize_t \<Rightarrow> ssize_t \<Rightarrow> ssize_t" where
  "sf_min a b = (if a <s b then a else b)"

definition buf_range :: "byte list \<Rightarrow> nat \<Rightarrow> nat \<Rightarrow> byte list option" where
  "buf_range buf off len = (if off + len \<le> length buf then Some (take len (drop off buf)) else None)"

text \<open>
  The inner loop, lines 46 to 58. \<open>(&sf_buf) + n_write\<close> adds to a pointer to the whole array,
  so it advances by \<open>n_write\<close> times the size of the buffer.
\<close>

partial_function (option) sf_flush ::
  "bool \<Rightarrow> 'w io_api \<Rightarrow> c_int \<Rightarrow> byte list \<Rightarrow> size_t \<Rightarrow> size_t \<Rightarrow> 'w os \<Rightarrow>
   ('w sf_end + size_t \<times> 'w os) option" where
  "sf_flush nd A out_fd buf n_read n_write os =
     (if n_write < n_read then
        (case buf_range buf (unat n_write * unat sf_buf_size) (unat (n_read - n_write)) of
           None \<Rightarrow> Some (Inl (Overrun os))
         | Some bs \<Rightarrow>
           (case io_write A out_fd bs os of (r, os') \<Rightarrow>
              let n_write_new = word_of_int r in
              if \<not> nd \<and> n_write_new = 0 then Some (Inl (Asserted os'))
              else if n_write_new < 0 then
                if errno os' = EINTR then sf_flush nd A out_fd buf n_read n_write os'
                else Some (Inl (Returned os'))
              else sf_flush nd A out_fd buf n_read (n_write + n_write_new) os'))
      else Some (Inr (n_write, os)))"

partial_function (option) sf_loop ::
  "bool \<Rightarrow> 'w io_api \<Rightarrow> c_int \<Rightarrow> c_int \<Rightarrow> ssize_t \<Rightarrow> byte list \<Rightarrow> 'w os \<Rightarrow> 'w sf_end option" where
  "sf_loop nd A out_fd in_fd n_left buf os =
     (if n_left \<noteq> 0 then
        (case io_read A in_fd (unat (sf_min n_left sf_buf_size)) os of ((r, data), os1) \<Rightarrow>
           let n_read = word_of_int r; buf = data @ drop (length data) buf in
           if length buf > unat sf_buf_size then Some (Overrun os1)
           else if n_read = 0 then Some (Returned os1)
           else if n_read < 0 then
             if errno os1 = EINTR then sf_loop nd A out_fd in_fd n_left buf os1
             else Some (Returned os1)
           else
             (case buf_range buf 0 (unat n_read) of
                None \<Rightarrow> Some (Overrun os1)
              | Some bs \<Rightarrow>
                (case io_write A out_fd bs os1 of (w, os2) \<Rightarrow>
                   let n_write = word_of_int w :: size_t in
                   if \<not> nd \<and> n_write = 0 then Some (Asserted os2)
                   else if n_write < 0 \<and> errno os2 \<noteq> EINTR then Some (Returned os2)
                   else
                     sf_flush nd A out_fd buf n_read (if n_write < 0 then 0 else n_write) os2 \<bind>
                     (\<lambda>res. case res of
                        Inl e \<Rightarrow> Some e
                      | Inr (n_write, os3) \<Rightarrow>
                          sf_loop nd A out_fd in_fd (n_left - n_write) buf os3))))
      else Some (Returned os))"

text \<open>\<open>buf\<close> is what the stack happens to hold.\<close>

definition sendfile_stub ::
  "bool \<Rightarrow> 'w io_api \<Rightarrow> c_int \<Rightarrow> c_int \<Rightarrow> size_t \<Rightarrow> byte list \<Rightarrow> 'w os \<Rightarrow> 'w sf_end option" where
  "sendfile_stub nd A out_fd in_fd count buf os = sf_loop nd A out_fd in_fd count buf os"

section \<open>One round of the loop\<close>

lemma unat_sf_buf_size [c_simps]: "unat sf_buf_size = 8192"
  by (simp add: sf_buf_size_def)

lemma not_less_zero_size_t [c_simps]: "\<not> (n :: size_t) < 0"
  by simp

lemma unat_minus_one_size_t: "unat (- 1 :: size_t) = 18446744073709551615"
  unfolding unsigned_minus_1_eq_mask mask_eq_exp_minus_1 by simp

lemma word_of_int_size_t: "0 \<le> r \<Longrightarrow> r < 2 ^ 64 \<Longrightarrow> unat (word_of_int r :: size_t) = nat r"
  by (simp add: unat_eq_nat_uint uint_word_of_int_eq take_bit_int_eq_self)

lemma unat_sf_min:
  assumes "n < 2 ^ 63"
  shows "unat (sf_min (of_nat n) sf_buf_size) = min n 8192"
proof -
  have "unat (of_nat n :: ssize_t) = n" using assms by (simp add: unat_of_nat)
  moreover have "sint (of_nat n :: ssize_t) = int n"
    using assms by (simp add: sint_uint uint_nat unat_of_nat signed_take_bit_int_eq_self)
  ultimately show ?thesis
    by (simp add: sf_min_def sf_buf_size_def word_sless_alt min_def)
qed

lemma sf_flush_done: "\<not> n_write < n_read \<Longrightarrow>
  sf_flush nd A fd buf n_read n_write os = Some (Inr (n_write, os))"
  by (subst sf_flush.simps) simp

lemma sf_flush_overrun:
  assumes "n_write < n_read" and "n_write \<noteq> 0" and "length buf \<le> 8192"
  shows "sf_flush nd A fd buf n_read n_write os = Some (Inl (Overrun os))"
proof -
  have "unat n_write \<ge> 1" using assms(2) by (simp add: Suc_le_eq unat_gt_0)
  moreover have "unat (n_read - n_write) > 0" using assms(1) by (simp add: unat_gt_0)
  ultimately have "\<not> unat n_write * 8192 + unat (n_read - n_write) \<le> length buf"
    using assms(3) by linarith
  then show ?thesis
    using assms(1) by (subst sf_flush.simps) (simp add: buf_range_def unat_sf_buf_size)
qed

text \<open>A round in which \<open>read\<close> delivers \<open>data\<close> and \<open>write\<close> answers \<open>w\<close>.\<close>

lemma sf_loop_round:
  assumes "n_left \<noteq> 0" and buf: "length buf = 8192"
    and rd: "io_read A in_fd (unat (sf_min n_left sf_buf_size)) os = ((int (length data), data), os1)"
    and data: "data \<noteq> []" "length data \<le> 8192"
    and wr: "io_write A out_fd data os1 = (w, os2)" and w: "nd \<or> (word_of_int w :: size_t) \<noteq> 0"
  shows "sf_loop nd A out_fd in_fd n_left buf os =
    sf_flush nd A out_fd (data @ drop (length data) buf) (of_nat (length data)) (word_of_int w) os2 \<bind>
    (\<lambda>res. case res of Inl e \<Rightarrow> Some e
       | Inr (n_write, os3) \<Rightarrow>
           sf_loop nd A out_fd in_fd (n_left - n_write) (data @ drop (length data) buf) os3)"
proof -
  have l: "unat (of_nat (length data) :: size_t) = length data"
    using data(2) by (simp add: unat_of_nat)
  then have "(of_nat (length data) :: size_t) \<noteq> 0" using data(1) by (metis length_0_conv unat_0)
  then show ?thesis
    using assms(1) buf rd data wr w l
    by (subst sf_loop.simps) (auto simp: Let_def buf_range_def c_simps)
qed

section \<open>The intended use: every write takes everything it is given\<close>

text \<open>
  \<open>avail\<close> is what the source still delivers and \<open>sent\<close> what the destination has accepted.
  \<open>read\<close> may deliver less than it is asked for, but not an error, and nothing only at the end;
  \<open>write\<close> accepts all of its argument. Neither touches the other descriptor.
\<close>

definition copy_laws ::
  "'w io_api \<Rightarrow> c_int \<Rightarrow> c_int \<Rightarrow> ('w os \<Rightarrow> byte list) \<Rightarrow> ('w os \<Rightarrow> byte list) \<Rightarrow> bool" where
  "copy_laws A out_fd in_fd avail sent \<longleftrightarrow>
     (\<forall>n os r data os'. io_read A in_fd n os = ((r, data), os') \<longrightarrow>
        r = int (length data) \<and> length data \<le> n \<and> avail os = data @ avail os' \<and> sent os' = sent os \<and>
        (data = [] \<and> n > 0 \<longrightarrow> avail os = [])) \<and>
     (\<forall>bs os r os'. io_write A out_fd bs os = (r, os') \<longrightarrow>
        r = int (length bs) \<and> sent os' = sent os @ bs \<and> avail os' = avail os)"

lemma sf_loop_copies:
  assumes laws: "copy_laws A out_fd in_fd avail sent" and "n < 2 ^ 63" and "length buf = 8192"
  shows "\<exists>os'. sf_loop nd A out_fd in_fd (of_nat n) buf os = Some (Returned os') \<and>
    sent os' = sent os @ take n (avail os) \<and> avail os' = drop n (avail os)"
  using assms(2,3)
proof (induction n arbitrary: buf os rule: less_induct)
  case (less n)
  show ?case
  proof (cases "n = 0")
    case True
    then show ?thesis by (subst sf_loop.simps) simp
  next
    case False
    have nz: "(of_nat n :: ssize_t) \<noteq> 0"
      using False less.prems(1) by (simp add: word_of_nat_eq_0_iff nat_dvd_not_less)
    obtain r data os1 where rd: "io_read A in_fd (min n 8192) os = ((r, data), os1)"
      by (metis prod.exhaust)
    then have r: "r = int (length data)" "length data \<le> min n 8192" "avail os = data @ avail os1"
        "sent os1 = sent os" "data = [] \<longrightarrow> avail os = []"
      using laws False unfolding copy_laws_def by (blast, blast, blast, blast, fastforce)
    show ?thesis
    proof (cases "data = []")
      case True
      with rd r nz less.prems show ?thesis
        by (subst sf_loop.simps) (auto simp: unat_sf_min c_simps)
    next
      case ne: False
      obtain w os2 where wr: "io_write A out_fd data os1 = (w, os2)" by (metis prod.exhaust)
      then have w: "w = int (length data)" "sent os2 = sent os1 @ data" "avail os2 = avail os1"
        using laws unfolding copy_laws_def by blast+
      have wnz: "(of_nat (length data) :: size_t) \<noteq> 0"
        using ne r(2) by (simp add: word_of_nat_eq_0_iff nat_dvd_not_less)
      let ?buf = "data @ drop (length data) buf"
      have "sf_loop nd A out_fd in_fd (of_nat n) buf os =
          sf_loop nd A out_fd in_fd (of_nat (n - length data)) ?buf os2"
        using r(1,2) rd wr w(1) nz ne wnz less.prems
        by (subst sf_loop_round [where data = data and w = w and ?os1.0 = os1 and ?os2.0 = os2])
          (auto simp: unat_sf_min sf_flush_done of_nat_diff)
      moreover have "\<exists>os'. sf_loop nd A out_fd in_fd (of_nat (n - length data)) ?buf os2 =
          Some (Returned os') \<and> sent os' = sent os2 @ take (n - length data) (avail os2) \<and>
          avail os' = drop (n - length data) (avail os2)"
        using ne r(2) less.prems False by (intro less.IH) auto
      ultimately show ?thesis
        using r w by auto
    qed
  qed
qed

section \<open>A concrete pair of descriptors\<close>

text \<open>
  The world of the witnesses: what is still to be read, and what has been written. \<open>k\<close> bounds
  what a call transfers; a negative \<open>k\<close> makes the call fail.
\<close>

definition demo_pipe :: "int \<Rightarrow> int \<Rightarrow> (byte list \<times> byte list) io_api" where
  "demo_pipe rk wk = \<lparr>
     io_read = (\<lambda>fd n os. if rk < 0 then ((- 1, []), os\<lparr>errno := EIO\<rparr>)
       else (let data = take (min n (nat rk)) (fst (env os))
             in ((int (length data), data), os\<lparr>env := (drop (min n (nat rk)) (fst (env os)), snd (env os))\<rparr>))),
     io_write = (\<lambda>fd bs os. if wk < 0 then (- 1, os\<lparr>errno := EPIPE\<rparr>)
       else (let data = take (nat wk) bs
             in (int (length data), os\<lparr>env := (fst (env os), snd (env os) @ data)\<rparr>)))\<rparr>"

definition demo_copy :: "(byte list \<times> byte list) io_api" where
  "demo_copy = (demo_pipe 3 0)\<lparr>io_write :=
     (\<lambda>fd bs os. (int (length bs), os\<lparr>env := (fst (env os), snd (env os) @ bs)\<rparr>))\<rparr>"

definition demo_pipe_os :: "byte list \<Rightarrow> (byte list \<times> byte list) os" where
  "demo_pipe_os bs = \<lparr>errno = EOK, env = (bs, [])\<rparr>"

lemma demo_copy_laws: "copy_laws demo_copy out_fd in_fd (\<lambda>os. fst (env os)) (\<lambda>os. snd (env os))"
  unfolding copy_laws_def by (auto simp: demo_copy_def demo_pipe_def Let_def)

section \<open>Properties\<close>

text \<open>
  Property C18. \<open>__sendfile_stub\<close> in its intended use: if \<open>write\<close> accepts all it is given
  and \<open>read\<close> does not fail, the call returns in either build, and it has moved exactly the
  first \<open>count\<close> bytes of the source, or all of it if it is shorter, to the destination, however
  \<open>read\<close> splits them.
\<close>

theorem sendfile_copies:
  assumes "copy_laws A out_fd in_fd avail sent" and "n < 2 ^ 63" and "length buf = 8192"
  shows "\<exists>os'. sendfile_stub nd A out_fd in_fd (of_nat n) buf os = Some (Returned os') \<and>
    sent os' = sent os @ take n (avail os) \<and> avail os' = drop n (avail os)"
  unfolding sendfile_stub_def by (rule sf_loop_copies [OF assms])

theorem sendfile_copies_witness:
  "\<exists>os'. sendfile_stub True demo_copy 1 0 4 (replicate 8192 0)
     (demo_pipe_os [1, 2, 3, 4, 5]) = Some (Returned os') \<and> env os' = ([5], [1, 2, 3, 4])"
  using sendfile_copies [OF demo_copy_laws, of 4 "replicate 8192 0" True 1 0
      "demo_pipe_os [1, 2, 3, 4, 5]"]
  by (auto simp: demo_pipe_os_def prod_eq_iff)

text \<open>
  Property C34. A failed \<open>read\<close> is never seen: its result is converted to the unsigned
  \<open>n_read\<close>, the test \<open>n_read < 0\<close> cannot succeed, and the next call is asked to write
  \<open>SIZE_MAX\<close> bytes out of the 8192 byte buffer, whatever \<open>errno\<close> is.
\<close>

theorem sendfile_read_error_overruns:
  assumes "count \<noteq> 0" and "length buf = 8192"
    and "io_read A in_fd (unat (sf_min count sf_buf_size)) os = ((- 1, []), os1)"
  shows "sendfile_stub nd A out_fd in_fd count buf os = Some (Overrun os1)"
  using assms unfolding sendfile_stub_def
  by (subst sf_loop.simps) (simp add: buf_range_def c_simps unat_minus_one_size_t)

theorem sendfile_read_error_overruns_witness:
  "sendfile_stub True (demo_pipe (- 1) 0) 1 0 4 (replicate 8192 0) (demo_pipe_os [1]) =
     Some (Overrun ((demo_pipe_os [1])\<lparr>errno := EIO\<rparr>))"
  by (rule sendfile_read_error_overruns) (simp_all add: demo_pipe_def)

text \<open>
  A short write: if \<open>write\<close> accepts some but not all of the bytes it was given,
  the retry passes an address at least one whole buffer behind the start of the buffer, so it
  reads outside of it.
\<close>

theorem sendfile_short_write_overruns:
  assumes "count \<noteq> 0" and "length buf = 8192" and "length data \<le> 8192"
    and "io_read A in_fd (unat (sf_min count sf_buf_size)) os = ((int (length data), data), os1)"
    and "io_write A out_fd data os1 = (int k, os2)" and "0 < k" and "k < length data"
  shows "sendfile_stub nd A out_fd in_fd count buf os = Some (Overrun os2)"
proof -
  have k: "unat (of_nat k :: size_t) = k" "unat (of_nat (length data) :: size_t) = length data"
    using assms(3,7) by (simp_all add: unat_of_nat)
  then have nz: "(of_nat k :: size_t) \<noteq> 0" using assms(6) by (metis gr_implies_not0 unat_0)
  have "(of_nat k :: size_t) < of_nat (length data)"
    using k assms(7) by (simp add: word_less_nat_alt)
  then have "sf_flush nd A out_fd (data @ drop (length data) buf) (of_nat (length data)) (of_nat k) os2 =
      Some (Inl (Overrun os2))"
    using nz assms(2,3) by (intro sf_flush_overrun) auto
  then show ?thesis
    using assms nz unfolding sendfile_stub_def
    by (subst sf_loop_round [where data = data and w = "int k" and ?os1.0 = os1 and ?os2.0 = os2]) auto
qed

theorem sendfile_short_write_overruns_witness:
  "sendfile_stub False (demo_pipe 8 2) 1 0 4 (replicate 8192 0) (demo_pipe_os [1, 2, 3]) =
     Some (Overrun ((demo_pipe_os [1, 2, 3])\<lparr>env := ([], [1, 2])\<rparr>))"
  by (rule sendfile_short_write_overruns [where k = 2 and data = "[1, 2, 3]"
        and ?os1.0 = "(demo_pipe_os [1, 2, 3])\<lparr>env := ([], [])\<rparr>"])
    (simp_all add: demo_pipe_def demo_pipe_os_def sf_min_def sf_buf_size_def word_sless_alt Let_def)

text \<open>
  A failed \<open>write\<close> is taken for a success: the bytes of the round are lost, the
  count of the bytes that are left grows by one, and the copy goes on with the next ones.
\<close>

theorem sendfile_write_error_ignored:
  assumes "count \<noteq> 0" and "length buf = 8192" and "data \<noteq> []" and "length data \<le> 8192"
    and "io_read A in_fd (unat (sf_min count sf_buf_size)) os = ((int (length data), data), os1)"
    and "io_write A out_fd data os1 = (- 1, os2)"
  shows "sendfile_stub nd A out_fd in_fd count buf os =
    sendfile_stub nd A out_fd in_fd (count + 1) (data @ drop (length data) buf) os2"
proof -
  have "\<not> (- 1 :: size_t) < of_nat (length data)" by (simp add: not_less)
  then show ?thesis
    using assms unfolding sendfile_stub_def
    by (subst sf_loop_round [where data = data and w = "- 1" and ?os1.0 = os1 and ?os2.0 = os2])
      (auto simp: sf_flush_done)
qed

theorem sendfile_write_error_ignored_witness:
  "sendfile_stub False (demo_pipe 2 (- 1)) 1 0 4 (replicate 8192 0) (demo_pipe_os [1, 2, 3]) =
   sendfile_stub False (demo_pipe 2 (- 1)) 1 0 5 ([1, 2] @ drop 2 (replicate 8192 0))
     \<lparr>errno = EPIPE, env = ([3], [])\<rparr>"
  by (subst sendfile_write_error_ignored [where data = "[1, 2]"
        and ?os1.0 = "(demo_pipe_os [1, 2, 3])\<lparr>env := ([3], [])\<rparr>"
        and ?os2.0 = "\<lparr>errno = EPIPE, env = ([3], [])\<rparr>"])
    (simp_all add: demo_pipe_def demo_pipe_os_def sf_min_def sf_buf_size_def word_sless_alt Let_def)

end
