(* ===== verification/MkDev.thy ===== *)
theory MkDev
  imports Prelude
begin

text \<open>
  The device number macros of \<open>libc-compat/include/winsup/mknod_compat.h\<close>, which
  \<open>libc-compat/include/emsup/mkdev_stubs.h\<close> repeats word for word. \<open>dev_t\<close> is taken as an
  unsigned number of 32 bits, as on Windows, so the shift of \<open>__gnu_dev_major\<close> is a logical one;
  the shift of \<open>__gnu_dev_makedev\<close> drops the bits that leave the word, as compilers do, although
  ISO C leaves a shift into the sign bit undefined.
\<close>

type_synonym dev_t = "32 word"

definition gnu_dev_makedev :: "c_int \<Rightarrow> c_int \<Rightarrow> dev_t" where
  "gnu_dev_makedev maj mnr = push_bit 16 maj OR (mnr AND 0xffff)"

definition gnu_dev_major :: "dev_t \<Rightarrow> c_int" where
  "gnu_dev_major dev = drop_bit 16 dev AND 0xffff"

definition gnu_dev_minor :: "dev_t \<Rightarrow> c_int" where
  "gnu_dev_minor dev = dev AND 0xffff"

lemma bit_low_half: "bit (w AND 0xffff) n \<longleftrightarrow> bit w n \<and> n < 16" for w :: "32 word"
proof -
  have "(0xffff :: 32 word) = mask 16" by (simp add: mask_eq_exp_minus_1)
  then have "w AND 0xffff = take_bit 16 w" by (simp only: take_bit_eq_mask)
  then show ?thesis by (simp only: bit_take_bit_iff) blast
qed

text \<open>
  Property C31. Device numbers lose nothing that fits: of every major and minor number the low
  16 bits come back, and every device number is the one made of its own parts.
\<close>

theorem makedev_roundtrip:
  "gnu_dev_major (gnu_dev_makedev maj mnr) = maj AND 0xffff \<and>
   gnu_dev_minor (gnu_dev_makedev maj mnr) = mnr AND 0xffff \<and>
   gnu_dev_makedev (gnu_dev_major dev) (gnu_dev_minor dev) = dev"
  unfolding gnu_dev_makedev_def gnu_dev_major_def gnu_dev_minor_def
  by (auto intro!: bit_word_eqI
      simp: bit_low_half bit_or_iff bit_push_bit_iff bit_drop_bit_eq
      simp del: push_bit_and dest: bit_imp_le_length)

end
