(* ===== verification/Win32.thy ===== *)
theory Win32
  imports Prelude
begin

text \<open>
  The platform under \<open>libc-compat/winsup\<close>. The Win32 functions and the C runtime are not part
  of the repository: they are the fields of a \<open>win32\<close> record, the parameter \<open>W\<close> of
  every operation. A field takes its arguments and the system state and returns its result and
  the new system state; a result \<^const>\<open>None\<close> is a failed call whose output is not available.
  Output buffers are part of the result.

  The state of the process is a \<open>proc\<close>: what the platform shares with it (\<open>errno\<close>, the last
  Win32 error, everything else as an abstract value), and the static variables of the
  repository's own code, which no platform call can change. Paths and other C strings are
  \<^typ>\<open>string\<close> values without NUL. \<open>free\<close> has no effect in the model, and the log
  messages of a debug build are left out.
\<close>

section \<open>State\<close>

type_synonym handle = "64 word"
type_synonym wchar = "16 word"
type_synonym mode_t = "16 word"
type_synonym ptr = "64 word"

record 'w sys = "'w os" +
  last_error :: dword

text \<open>\<open>fd_cache\<close> and \<open>fd_cache_max_size\<close> are the static variables of \<open>internal/fd.c\<close>.\<close>

record 'w proc =
  sys :: "'w sys"
  fd_cache :: "c_int list"
  fd_cache_max_size :: nat

type_synonym ('w, 'a) ext = "'w sys \<Rightarrow> 'a \<times> 'w sys"
type_synonym ('w, 'a) res = "('a \<times> 'w proc) option"

definition syscall :: "('w, 'a) ext \<Rightarrow> 'w proc \<Rightarrow> 'a \<times> 'w proc" where
  "syscall f s = (case f (sys s) of (r, y) \<Rightarrow> (r, s\<lparr>sys := y\<rparr>))"

definition set_errno :: "errno \<Rightarrow> 'w proc \<Rightarrow> 'w proc" where
  "set_errno e s = s\<lparr>sys := (sys s)\<lparr>errno := e\<rparr>\<rparr>"

definition set_last_error :: "dword \<Rightarrow> 'w proc \<Rightarrow> 'w proc" where
  "set_last_error e s = s\<lparr>sys := (sys s)\<lparr>last_error := e\<rparr>\<rparr>"

definition get_errno :: "'w proc \<Rightarrow> errno" where "get_errno s = errno (sys s)"

definition get_last_error :: "'w proc \<Rightarrow> dword" where "get_last_error s = last_error (sys s)"

definition get_env :: "'w proc \<Rightarrow> 'w" where "get_env s = env (sys s)"

lemma env_last_error_update [simp]: "env (y\<lparr>last_error := e\<rparr>) = env (y :: 'w sys)"
  by (cases y) simp

section \<open>Structures of the platform\<close>

text \<open>
  \<open>struct stat\<close> in its 64-bit layout; the members that the sources neither set nor read, which
  stay 0, are left out.
\<close>

record stat =
  st_mode :: mode_t
  st_dev :: c_uint
  st_rdev :: c_uint
  st_nlink :: "16 word"
  st_size :: "64 word"
  st_atime :: "64 word"
  st_mtime :: "64 word"
  st_ctime :: "64 word"

definition stat_zero :: stat where
  "stat_zero = \<lparr>st_mode = 0, st_dev = 0, st_rdev = 0, st_nlink = 0, st_size = 0,
     st_atime = 0, st_mtime = 0, st_ctime = 0\<rparr>"

text \<open>\<open>BY_HANDLE_FILE_INFORMATION\<close>.\<close>

record file_info =
  fi_attributes :: dword
  fi_links :: dword
  fi_size_high :: dword
  fi_size_low :: dword
  fi_atime :: "64 word"
  fi_mtime :: "64 word"

text \<open>\<open>REPARSE_DATA_BUFFER\<close>: offsets and lengths count bytes, the path buffer is UTF-16.\<close>

record reparse_data =
  rd_tag :: dword
  rd_print_off :: nat
  rd_print_len :: nat
  rd_subst_off :: nat
  rd_subst_len :: nat
  rd_path :: "wchar list"

text \<open>\<open>struct dirent\<close> of the C runtime.\<close>

record dirent =
  de_ino :: c_int
  de_reclen :: "16 word"
  de_namlen :: "16 word"
  de_name :: "byte list"

section \<open>Constants of the platform headers\<close>

abbreviation (input) INVALID_HANDLE_VALUE :: handle where "INVALID_HANDLE_VALUE \<equiv> - 1"

abbreviation (input) ERROR_INVALID_HANDLE :: dword where "ERROR_INVALID_HANDLE \<equiv> 6"
abbreviation (input) ERROR_INVALID_PARAMETER :: dword where "ERROR_INVALID_PARAMETER \<equiv> 87"
abbreviation (input) GENERIC_READ :: dword where "GENERIC_READ \<equiv> 0x80000000"
abbreviation (input) FILE_SHARE_VALID_FLAGS :: dword where "FILE_SHARE_VALID_FLAGS \<equiv> 7"
abbreviation (input) OPEN_EXISTING :: dword where "OPEN_EXISTING \<equiv> 3"
abbreviation (input) CREATE_NEW :: dword where "CREATE_NEW \<equiv> 1"
abbreviation (input) CREATE_ALWAYS :: dword where "CREATE_ALWAYS \<equiv> 2"
abbreviation (input) OPEN_ALWAYS :: dword where "OPEN_ALWAYS \<equiv> 4"
abbreviation (input) TRUNCATE_EXISTING :: dword where "TRUNCATE_EXISTING \<equiv> 5"
abbreviation (input) FILE_FLAG_BACKUP_SEMANTICS :: dword where "FILE_FLAG_BACKUP_SEMANTICS \<equiv> 0x2000000"
abbreviation (input) FILE_FLAG_OPEN_REPARSE_POINT :: dword where "FILE_FLAG_OPEN_REPARSE_POINT \<equiv> 0x200000"
abbreviation (input) FILE_WRITE_DATA :: dword where "FILE_WRITE_DATA \<equiv> 2"
abbreviation (input) FILE_APPEND_DATA :: dword where "FILE_APPEND_DATA \<equiv> 4"
abbreviation (input) FILE_ATTRIBUTE_READONLY :: dword where "FILE_ATTRIBUTE_READONLY \<equiv> 1"
abbreviation (input) FILE_ATTRIBUTE_DIRECTORY :: dword where "FILE_ATTRIBUTE_DIRECTORY \<equiv> 0x10"
abbreviation (input) FILE_ATTRIBUTE_REPARSE_POINT :: dword where "FILE_ATTRIBUTE_REPARSE_POINT \<equiv> 0x400"
abbreviation (input) FILE_TYPE_UNKNOWN :: dword where "FILE_TYPE_UNKNOWN \<equiv> 0"
abbreviation (input) FILE_TYPE_DISK :: dword where "FILE_TYPE_DISK \<equiv> 1"
abbreviation (input) FILE_TYPE_CHAR :: dword where "FILE_TYPE_CHAR \<equiv> 2"
abbreviation (input) FILE_TYPE_PIPE :: dword where "FILE_TYPE_PIPE \<equiv> 3"
abbreviation (input) IO_REPARSE_TAG_SYMLINK :: dword where "IO_REPARSE_TAG_SYMLINK \<equiv> 0xA000000C"
abbreviation (input) SYMBOLIC_LINK_FLAG_DIRECTORY :: dword where "SYMBOLIC_LINK_FLAG_DIRECTORY \<equiv> 1"
abbreviation (input) SYMBOLIC_LINK_FLAG_ALLOW_UNPRIVILEGED_CREATE :: dword where
  "SYMBOLIC_LINK_FLAG_ALLOW_UNPRIVILEGED_CREATE \<equiv> 2"
abbreviation (input) MAXIMUM_REPARSE_DATA_BUFFER_SIZE :: nat where
  "MAXIMUM_REPARSE_DATA_BUFFER_SIZE \<equiv> 16384"
abbreviation (input) PATH_MAX :: nat where "PATH_MAX \<equiv> 260"

abbreviation (input) O_RDONLY :: c_int where "O_RDONLY \<equiv> 0"
abbreviation (input) O_WRONLY :: c_int where "O_WRONLY \<equiv> 1"
abbreviation (input) O_RDWR :: c_int where "O_RDWR \<equiv> 2"
abbreviation (input) O_ACCMODE :: c_int where "O_ACCMODE \<equiv> 3"
abbreviation (input) O_APPEND :: c_int where "O_APPEND \<equiv> 8"
abbreviation (input) O_CLOEXEC :: c_int where "O_CLOEXEC \<equiv> 0x80"
abbreviation (input) O_CREAT :: c_int where "O_CREAT \<equiv> 0x100"
abbreviation (input) O_TRUNC :: c_int where "O_TRUNC \<equiv> 0x200"
abbreviation (input) O_EXCL :: c_int where "O_EXCL \<equiv> 0x400"
abbreviation (input) O_BINARY :: c_int where "O_BINARY \<equiv> 0x8000"

abbreviation (input) S_IFMT :: mode_t where "S_IFMT \<equiv> 0xF000"
abbreviation (input) S_IFIFO :: mode_t where "S_IFIFO \<equiv> 0x1000"
abbreviation (input) S_IFCHR :: mode_t where "S_IFCHR \<equiv> 0x2000"
abbreviation (input) S_IFBLK :: mode_t where "S_IFBLK \<equiv> 0x3000"
abbreviation (input) S_IFDIR :: mode_t where "S_IFDIR \<equiv> 0x4000"
abbreviation (input) S_IFLNK :: mode_t where "S_IFLNK \<equiv> 0x6000"
abbreviation (input) S_IFREG :: mode_t where "S_IFREG \<equiv> 0x8000"
abbreviation (input) S_IFSOCK :: mode_t where "S_IFSOCK \<equiv> 0xC000"
abbreviation (input) S_IR_ALL :: mode_t where "S_IR_ALL \<equiv> 0x124"
abbreviation (input) S_IW_ALL :: mode_t where "S_IW_ALL \<equiv> 0x92"
abbreviation (input) S_IX_ALL :: mode_t where "S_IX_ALL \<equiv> 0x49"

definition S_ISDIR :: "mode_t \<Rightarrow> bool" where "S_ISDIR m \<longleftrightarrow> m AND S_IFMT = S_IFDIR"

section \<open>The platform\<close>

record 'w win32 =
  w_get_osfhandle :: "c_int \<Rightarrow> ('w, handle) ext"
  w_open_osfhandle :: "handle \<Rightarrow> c_int \<Rightarrow> ('w, c_int) ext"
  w_close :: "c_int \<Rightarrow> ('w, c_int) ext"
  w_CloseHandle :: "handle \<Rightarrow> ('w, bool) ext"
  w_CreateFile :: "string \<Rightarrow> dword \<Rightarrow> dword \<Rightarrow> dword \<Rightarrow> dword \<Rightarrow> ('w, handle) ext"
  w_GetFinalPathNameByHandle :: "handle \<Rightarrow> nat \<Rightarrow> ('w, dword \<times> string) ext"
  w_GetFileInformationByHandle :: "handle \<Rightarrow> ('w, file_info option) ext"
  w_SetFileAttributes :: "handle \<Rightarrow> dword \<Rightarrow> ('w, bool) ext"
  w_GetFileType :: "handle \<Rightarrow> ('w, dword) ext"
  w_NtQueryObject :: "handle \<Rightarrow> ('w, dword option) ext"
  w_DeviceIoControl :: "handle \<Rightarrow> ('w, reparse_data option) ext"
  w_WideCharToMultiByte :: "wchar list \<Rightarrow> c_int \<Rightarrow> ('w, c_int \<times> string) ext"
  w_CreateHardLink :: "string \<Rightarrow> string \<Rightarrow> ('w, bool) ext"
  w_CreateSymbolicLink :: "string \<Rightarrow> string \<Rightarrow> dword \<Rightarrow> ('w, bool) ext"
  w_PathIsRelative :: "string \<Rightarrow> bool"
  w_RtlTimeToSecondsSince1970 :: "64 word \<Rightarrow> dword option"
  w_malloc :: "nat \<Rightarrow> ('w, bool) ext"
  w_strdup :: "string \<Rightarrow> ('w, bool) ext"
  w_stat :: "string \<Rightarrow> ('w, c_int \<times> stat) ext"
  w_access :: "string \<Rightarrow> c_int \<Rightarrow> ('w, c_int) ext"
  w_chmod :: "string \<Rightarrow> mode_t \<Rightarrow> ('w, c_int) ext"
  w_mkdir :: "string \<Rightarrow> ('w, c_int) ext"
  w_rmdir :: "string \<Rightarrow> ('w, c_int) ext"
  w_unlink :: "string \<Rightarrow> ('w, c_int) ext"
  w_rename :: "string \<Rightarrow> string \<Rightarrow> ('w, c_int) ext"
  w_real_open :: "string \<Rightarrow> c_int \<Rightarrow> mode_t option \<Rightarrow> ('w, c_int) ext"
  w_real_fdopen :: "c_int \<Rightarrow> string \<Rightarrow> ('w, ptr) ext"
  w_real_CreateFileW ::
    "wchar list option \<Rightarrow> dword \<Rightarrow> dword \<Rightarrow> ptr \<Rightarrow> dword \<Rightarrow> dword \<Rightarrow> handle \<Rightarrow> ('w, handle) ext"
  w_lseek :: "c_int \<Rightarrow> c_int \<Rightarrow> c_int \<Rightarrow> ('w, c_int) ext"
  w_opendir :: "string \<Rightarrow> ('w, ptr) ext"
  w_readdir :: "ptr \<Rightarrow> ('w, dirent option) ext"
  w_closedir :: "ptr \<Rightarrow> ('w, c_int) ext"
  w_rewinddir :: "ptr \<Rightarrow> ('w, unit) ext"
  w_telldir :: "ptr \<Rightarrow> ('w, c_int) ext"
  w_seekdir :: "ptr \<Rightarrow> c_int \<Rightarrow> ('w, unit) ext"
  w_stack_stat :: stat

text \<open>
  A platform on which every call fails and changes nothing: the witnesses of the other theories
  start from it and give it the calls that they need.
\<close>

definition null_win :: "'w win32" where
  "null_win = \<lparr>
     w_get_osfhandle = (\<lambda>_ y. (INVALID_HANDLE_VALUE, y)),
     w_open_osfhandle = (\<lambda>_ _ y. (- 1, y)),
     w_close = (\<lambda>_ y. (- 1, y)),
     w_CloseHandle = (\<lambda>_ y. (False, y)),
     w_CreateFile = (\<lambda>_ _ _ _ _ y. (INVALID_HANDLE_VALUE, y)),
     w_GetFinalPathNameByHandle = (\<lambda>_ _ y. ((0, []), y)),
     w_GetFileInformationByHandle = (\<lambda>_ y. (None, y)),
     w_SetFileAttributes = (\<lambda>_ _ y. (False, y)),
     w_GetFileType = (\<lambda>_ y. (FILE_TYPE_UNKNOWN, y)),
     w_NtQueryObject = (\<lambda>_ y. (None, y)),
     w_DeviceIoControl = (\<lambda>_ y. (None, y)),
     w_WideCharToMultiByte = (\<lambda>_ _ y. ((0, []), y)),
     w_CreateHardLink = (\<lambda>_ _ y. (False, y)),
     w_CreateSymbolicLink = (\<lambda>_ _ _ y. (False, y)),
     w_PathIsRelative = (\<lambda>_. True),
     w_RtlTimeToSecondsSince1970 = (\<lambda>_. None),
     w_malloc = (\<lambda>_ y. (False, y)),
     w_strdup = (\<lambda>_ y. (False, y)),
     w_stat = (\<lambda>_ y. ((- 1, stat_zero), y)),
     w_access = (\<lambda>_ _ y. (- 1, y)),
     w_chmod = (\<lambda>_ _ y. (- 1, y)),
     w_mkdir = (\<lambda>_ y. (- 1, y)),
     w_rmdir = (\<lambda>_ y. (- 1, y)),
     w_unlink = (\<lambda>_ y. (- 1, y)),
     w_rename = (\<lambda>_ _ y. (- 1, y)),
     w_real_open = (\<lambda>_ _ _ y. (- 1, y)),
     w_real_fdopen = (\<lambda>_ _ y. (0, y)),
     w_real_CreateFileW = (\<lambda>_ _ _ _ _ _ _ y. (INVALID_HANDLE_VALUE, y)),
     w_lseek = (\<lambda>_ _ _ y. (- 1, y)),
     w_opendir = (\<lambda>_ y. (0, y)),
     w_readdir = (\<lambda>_ y. (None, y)),
     w_closedir = (\<lambda>_ y. (- 1, y)),
     w_rewinddir = (\<lambda>_ y. ((), y)),
     w_telldir = (\<lambda>_ y. (- 1, y)),
     w_seekdir = (\<lambda>_ _ y. ((), y)),
     w_stack_stat = stat_zero\<rparr>"

end
