(* ===== verification/WinErrMap.thy ===== *)
theory WinErrMap
  imports Prelude
begin

text \<open>
  \<open>libc-compat/winsup/internal/winerr_map.h\<close>: the table from Windows error numbers to
  \<open>errno\<close> values, entry for entry. The 9000 entries are cut into 60 segments of 150, one
  definition each, in the order of the file; an entry 0 of the source is \<^const>\<open>EOK\<close>. Most of
  the table is 0, and a segment without another entry is written \<open>replicate 150 EOK\<close>.

  \<open>winerr_spec\<close> lists the mapped codes by number, as \<open>winerror.h\<close> and the comments of the
  header give them, and the lemmas show that the table maps these codes and no others.
\<close>

section \<open>The table\<close>

definition winerr_seg00 :: "errno list" where
  "winerr_seg00 = [
    EOK, EINVAL, ENOENT, ENOENT, EMFILE, EACCES, EBADF, EOK, ENOMEM, EOK, EOK, EOK, EOK,
    EINVAL, ENOMEM, ENODEV, EOK, EXDEV, ENOENT, EROFS, ENODEV, EIO, EOK, EIO, EOK, EINVAL, EOK,
    EINVAL, EOK, EOK, EOK, EOK, EBUSY, EBUSY, EOK, EOK, ENOLCK, EOK, ENODATA, ENOSPC, EOK, EOK,
    EOK, EOK, EOK, EOK, EOK, EOK, EOK, EOK, ENOSYS, EHOSTUNREACH, EADDRINUSE, ENOENT, EOK,
    ENOENT, EOK, EOK, ENOSYS, EIO, EOK, EOK, EOK, EOK, ENOENT, EOK, EOK, ENOENT, EOK, EOK, EOK,
    EOK, EOK, EOK, EOK, EOK, EOK, EOK, EOK, EOK, EEXIST, EOK, EPERM, EOK, EOK, EOK, EOK,
    EINVAL, EOK, EAGAIN, EOK, EOK, EOK, EOK, EOK, EOK, EOK, EOK, EOK, EOK, EOK, EOK, EOK, EOK,
    EINTR, EOK, EOK, EOK, EOK, EPIPE, EIO, EOK, ENOSPC, ENFILE, EOK, EOK, EOK, EOK, EOK, EOK,
    ENOSYS, EOK, EOK, ENOENT, EOK, EOK, ENOENT, ESRCH, ECHILD, EBUSY, EOK, EINVAL, EOK, EOK,
    EOK, EOK, EOK, EOK, EOK, EOK, EOK, EOK, EOK, EOK, EOK, ENOTEMPTY, EOK, EOK, EOK, EOK]"

definition winerr_seg01 :: "errno list" where
  "winerr_seg01 = [
    EOK, EOK, EOK, EOK, EOK, EOK, EIO, EOK, EOK, EOK, EOK, ENOENT, EBUSY, EOK, EAGAIN, EOK,
    EOK, EOK, EOK, EOK, EBUSY, EOK, EOK, EOK, EOK, EOK, EOK, EOK, EOK, EOK, EOK, EOK, EOK,
    EEXIST, EOK, EOK, EOK, EOK, EOK, EOK, EOK, ENOEXEC, ENOEXEC, ENOEXEC, EOK, EOK, EOK,
    ENOEXEC, EOK, EOK, EOK, EOK, EOK, EOK, EOK, EIO, ENAMETOOLONG, EOK, EINVAL, EINVAL, EINVAL,
    EOK, EOK, EOK, EOK, EOK, ENOEXEC, EOK, EOK, EOK, EOK, EOK, EOK, EOK, EOK, EOK, EOK, EOK,
    EOK, EOK, EINVAL, EBUSY, EPIPE, EPIPE, EMSGSIZE, EOK, EOK, EOK, EOK, EOK, EOK, EOK, EOK,
    EOK, EOK, EOK, EOK, EOK, EOK, EOK, EOK, EOK, EOK, EOK, EINVAL, EINVAL, EOK, EOK, EOK,
    ENOENT, EOK, EOK, EOK, EOK, EOK, EOK, EOK, ENOTDIR, EOK, EOK, EOK, EOK, EOK, EOK, EOK,
    ENOSPC, EOK, ENOSPC, EOK, EOK, EOK, EOK, ENOTSUP, EOK, EOK, EOK, EOK, EOK, EPERM, EOK, EOK,
    EOK, EOK, EOK, EOK, EOK, EOK, EOK, EOK, EOK]"

definition winerr_seg02 :: "errno list" where
  "winerr_seg02 = [
    EOK, EOK, EOK, EOK, EOK, EOK, EOK, EOK, EOK, EOK, EOK, EOK, EOK, EOK, EOK, EOK, EOK, EOK,
    EOK, EOK, EOK, EOK, EOK, EOK, EOK, EOK, EOK, EOK, EOK, EOK, EOK, EOK, EOK, EOK, EOK, EOK,
    EOK, EOK, EOK, EOK, EOK, EOK, EOK, EOK, EOK, EOK, EOK, EOK, EOK, EOK, EOK, EOK, EOK, EOK,
    EOK, EOK, EOK, EOK, EOK, EOK, EOK, EOK, EOK, EOK, EOK, EOK, EOK, EOK, EOK, EOK, EOK, EOK,
    EOK, EOK, EOK, EOK, EOK, EOK, EOK, EOK, EOK, EOK, EOK, EOK, EOK, EOK, EOK, EOK, EOK, EOK,
    EOK, EOK, EOK, EOK, EOK, EOK, EOK, EOK, EOK, EOK, EOK, EOK, EOK, EOK, EOK, EOK, EOK, EOK,
    EOK, EOK, EOK, EOK, EOK, EOK, EOK, EOK, EOK, EOK, EOK, EOK, EOK, EOK, EOK, EOK, EINVAL,
    EOK, EOK, EOK, EOK, EOK, EOK, EOK, EOK, EOK, EOK, EOK, EOK, EOK, EOK, EOK, EOK, EOK, EOK,
    EOK, EOK, EOK, EOK, EOK, EOK, EOK]"

definition winerr_seg03 :: "errno list" where
  "winerr_seg03 = [
    EOK, EOK, EOK, EOK, EOK, EOK, EOK, EOK, EOK, EOK, EOK, EOK, EOK, EOK, EOK, EOK, EOK, EOK,
    EOK, EOK, EOK, EOK, EOK, EOK, EOK, EOK, EOK, EOK, EOK, EOK, EOK, EOK, EOK, EOK, EOK, EOK,
    EOK, EINVAL, EOK, EOK, EOK, EOK, EOK, EOK, EOK, EOK, EOK, EOK, EOK, EOK, EOK, EOK, EOK,
    EOK, EOK, EOK, EOK, EOK, EOK, EOK, EOK, EOK, EOK, EOK, EOK, EOK, EOK, EOK, EOK, EOK, EOK,
    EOK, EOK, EOK, EOK, EOK, EOK, EOK, EOK, EOK, EOK, EOK, EOK, EOK, EOK, EBUSY, EPIPE, EOK,
    EOK, EOK, EOK, EOK, EOK, EOK, EOK, EOK, EOK, EOK, EOK, EOK, EOK, EOK, EOK, EOK, EOK, EOK,
    EOK, EOK, EOK, EOK, EOK, EOK, EOK, EOK, EOK, EOK, EOK, EOK, EOK, EOK, EOK, EOK, EOK, EOK,
    EOK, EOK, EOK, EOK, EOK, EOK, EOK, EOK, EOK, EOK, EOK, EOK, EOK, EOK, EOK, EOK, EOK, EOK,
    EOK, EOK, EOK, EOK, EOK, EOK, EOK, EOK]"

definition winerr_seg04 :: "errno list" where "winerr_seg04 = replicate 150 EOK"

definition winerr_seg05 :: "errno list" where "winerr_seg05 = replicate 150 EOK"

definition winerr_seg06 :: "errno list" where
  "winerr_seg06 = [
    EOK, EOK, EOK, EOK, EOK, EOK, EOK, EOK, EOK, EOK, EOK, EOK, EOK, EOK, EOK, EOK, EOK, EOK,
    EOK, EOK, EOK, EOK, EOK, EOK, EOK, EOK, EOK, EOK, EOK, EOK, EOK, EOK, EOK, EOK, EOK, EOK,
    EOK, EOK, EOK, EOK, EOK, EOK, EOK, EOK, EOK, EOK, EOK, EOK, EOK, EOK, EOK, EOK, EOK, EOK,
    EOK, EOK, EOK, EOK, EOK, EOK, EOK, EOK, EOK, EOK, EOK, EOK, EOK, EOK, EOK, EOK, EOK, EOK,
    EOK, EOK, EOK, EOK, EOK, EOK, EOK, EOK, EOK, EOK, EOK, EOK, EOK, EOK, EOK, EOK, EOK, EOK,
    EOK, EOK, EOK, EOK, EOK, EOK, EAGAIN, EAGAIN, EFAULT, EOK, EOK, EOK, EOK, EOK, EOK, EOK,
    ENXIO, EOK, EINVAL, EOK, EOK, EOK, EOK, EOK, EOK, EOK, EOK, EOK, EOK, EOK, EOK, EOK, EOK,
    EOK, EOK, EOK, EOK, EOK, EOK, EOK, EOK, EOK, EOK, EOK, EOK, EOK, EOK, EOK, EOK, EOK, EOK,
    EOK, EOK, EOK, EOK, EOK, EOK, EOK, EOK, EOK]"

definition winerr_seg07 :: "errno list" where
  "winerr_seg07 = [
    EOK, EOK, EOK, EBUSY, EOK, EOK, EOK, EOK, EOK, EOK, EOK, EOK, EOK, EOK, EOK, EOK, EOK,
    EFAULT, EOK, EOK, EOK, EOK, EOK, EOK, EOK, EOK, EOK, EOK, EOK, EOK, EOK, EOK, EOK, EOK,
    EOK, EOK, EOK, EOK, EOK, EOK, EOK, EOK, EOK, EOK, EOK, EOK, EOK, EOK, EOK, EOK, ENOSPC,
    EIO, EIO, EIO, EIO, EOK, EIO, EOK, EOK, EOK, EOK, EIO, EIO, EOK, EOK, EOK, EOK, EIO, EOK,
    EOK, EOK, EOK, EOK, EOK, EOK, EOK, EOK, EOK, EOK, EIO, EOK, EDEADLOCK, EOK, EOK, EOK, EOK,
    EOK, EOK, EOK, EOK, EOK, EOK, EMLINK, EOK, EOK, EOK, EOK, EOK, EOK, EOK, EOK, EOK, EOK,
    EOK, EOK, EOK, EOK, EOK, EOK, EOK, EOK, EOK, EOK, EOK, EOK, EIO, EIO, EOK, EOK, EOK, EOK,
    EOK, EOK, EOK, EOK, EOK, EOK, EOK, EOK, EOK, EOK, EOK, EOK, EOK, EOK, EOK, EOK, EOK, EOK,
    EOK, EOK, EOK, EOK, EOK, EOK, EOK, EOK, EOK, EOK, EOK]"

definition winerr_seg08 :: "errno list" where
  "winerr_seg08 = [
    ENODEV, EOK, EOK, EOK, EOK, EOK, EOK, EOK, EOK, EOK, EOK, EOK, EOK, EOK, EOK, EOK, EOK,
    EOK, EOK, EOK, EOK, EOK, EOK, EINTR, EOK, ECONNREFUSED, EOK, EOK, EOK, EOK, EOK, EOK, EOK,
    EOK, EOK, EOK, EOK, EOK, EOK, EOK, EOK, EOK, EOK, EOK, EOK, EOK, EOK, EOK, EOK, EOK, EOK,
    EOK, EOK, EOK, EOK, EOK, EOK, EOK, EOK, EOK, EOK, EOK, EOK, EOK, EOK, EOK, EOK, EOK, EOK,
    EOK, EOK, EOK, EOK, EOK, EOK, EOK, EOK, EOK, EOK, EOK, EOK, EOK, EOK, EOK, EOK, EOK, EOK,
    EOK, EOK, EOK, EOK, EOK, EOK, EOK, EOK, EOK, EOK, EOK, EOK, EOK, EOK, EOK, EOK, EOK, EOK,
    EOK, EOK, EOK, EOK, EOK, EOK, EOK, EOK, EOK, EPERM, EOK, EOK, EOK, EOK, EOK, EOK, EOK, EOK,
    EOK, EOK, EOK, EOK, EOK, EOK, EOK, EOK, EOK, EINVAL, EOK, EOK, EOK, EOK, EOK, EOK, EOK,
    EOK, EOK, EOK, EOK, EOK, EOK, EOK, EOK, EOK, EOK]"

definition winerr_seg09 :: "errno list" where
  "winerr_seg09 = [
    EOK, EOK, EOK, EOK, EOK, EOK, EOK, EOK, EOK, EOK, EOK, EOK, EOK, EOK, EOK, EOK, EOK, EOK,
    EOK, EOK, EOK, EOK, EOK, EOK, EOK, EOK, EOK, EOK, EOK, EOK, EOK, EOK, EOK, EOK, EOK, EOK,
    EOK, EOK, EOK, EOK, EOK, EOK, EEXIST, EIO, EOK, EOK, EOK, EOK, EOK, EOK, EOK, EOK, EOK,
    EOK, EOK, EOK, EOK, EOK, EOK, EOK, EOK, EOK, EOK, EOK, EOK, EOK, EOK, EOK, EOK, EOK, EOK,
    EOK, EOK, EOK, EOK, EOK, EOK, EOK, EOK, EOK, EOK, EOK, EOK, EOK, EOK, EOK, EOK, EOK, EOK,
    EOK, EOK, EOK, EOK, EOK, EOK, EOK, EOK, EOK, EOK, EOK, EFBIG, EAGAIN, EAGAIN, EAGAIN,
    EAGAIN, EAGAIN, EOK, EOK, EOK, EOK, EBUSY, EOK, EOK, EOK, EOK, EOK, EOK, EOK, EOK, EOK,
    EOK, EOK, EOK, EOK, EOK, EOK, EOK, EOK, EOK, EOK, EOK, EOK, EOK, EOK, EOK, EOK, EOK, EOK,
    EOK, EOK, EOK, EOK, EOK, EOK, EOK, EOK, EOK, EOK, EOK, EOK]"

definition winerr_seg10 :: "errno list" where "winerr_seg10 = replicate 150 EOK"

definition winerr_seg11 :: "errno list" where "winerr_seg11 = replicate 150 EOK"

definition winerr_seg12 :: "errno list" where
  "winerr_seg12 = [
    EOK, EOK, EOK, EOK, EOK, EOK, EOK, EOK, EOK, EOK, EOK, EOK, EOK, EOK, EOK, EOK, EIO, EOK,
    EOK, EOK, EOK, EOK, EOK, EOK, EOK, EOK, EOK, EOK, EOK, EOK, EOK, EOK, EOK, EOK, EOK, EOK,
    EOK, EOK, EOK, EOK, EOK, EOK, EOK, EOK, EOK, EOK, EOK, EOK, EOK, EOK, EOK, EOK, EOK, EOK,
    EOK, EOK, EOK, EOK, EOK, EOK, EOK, EOK, EOK, EOK, EOK, EOK, EOK, EOK, EOK, EOK, EOK, EOK,
    EOK, EOK, EOK, EOK, EOK, EOK, EOK, EOK, EOK, EOK, EOK, EOK, EOK, EOK, EOK, EOK, EOK, EOK,
    EOK, EOK, EOK, EOK, EOK, EOK, EOK, EOK, EOK, EOK, EOK, EOK, EOK, EOK, EOK, EOK, EOK, EOK,
    EOK, EOK, EOK, EOK, EOK, EOK, EOK, EOK, EOK, EOK, EOK, EOK, EOK, EOK, EOK, EOK, EOK, EOK,
    EOK, EOK, EOK, EOK, EOK, EOK, EOK, EOK, EOK, EOK, EOK, EOK, EOK, EOK, EOK, EOK, EOK, EOK,
    EOK, EOK, EOK, EOK, EOK, EOK]"

definition winerr_seg13 :: "errno list" where "winerr_seg13 = replicate 150 EOK"

definition winerr_seg14 :: "errno list" where
  "winerr_seg14 = [
    EOK, EOK, EOK, EOK, EOK, EOK, EOK, EOK, EOK, EOK, EOK, EOK, EOK, EOK, EOK, EOK, EOK, EOK,
    EOK, EOK, EOK, EOK, EOK, EOK, EOK, EOK, EOK, EOK, EOK, EOK, EOK, EOK, EOK, EOK, EOK, EOK,
    EOK, EOK, EOK, EOK, EOK, EOK, EOK, EOK, EOK, EOK, EOK, EOK, EOK, EOK, EOK, EOK, EOK, EOK,
    EOK, EOK, EOK, EOK, EOK, EOK, EOK, EOK, EOK, EOK, EOK, EOK, EOK, EOK, EOK, EOK, EOK, EOK,
    EOK, EOK, EOK, EOK, EOK, EOK, EOK, EOK, EOK, EOK, EOK, EOK, EOK, EOK, EOK, EOK, EOK, EOK,
    EOK, EOK, EOK, EOK, EOK, EOK, EOK, EOK, EOK, EOK, EOK, EOK, EINVAL, EOK, EOK, EOK, EOK,
    EOK, EOK, EOK, EOK, EOK, EOK, EOK, EOK, EOK, EOK, EOK, EOK, EOK, EOK, EOK, EOK, EOK, EOK,
    EOK, EOK, EOK, EOK, EOK, EOK, EOK, EOK, EOK, EOK, EOK, EOK, EOK, EOK, EOK, EOK, EOK, EOK,
    EOK, EOK, EOK, EOK, EOK, EOK, EOK]"

definition winerr_seg15 :: "errno list" where
  "winerr_seg15 = [
    ENOLINK, EOK, EOK, EOK, EOK, EOK, EOK, EOK, EOK, EOK, EOK, EOK, EOK, EOK, EOK, EOK, EOK,
    EOK, EOK, EOK, EOK, EOK, EOK, EOK, EOK, EOK, EOK, EOK, EOK, EOK, EOK, EOK, EOK, EOK, EOK,
    EOK, EOK, EOK, EOK, EOK, EOK, EOK, EOK, EOK, EOK, EOK, EOK, EOK, EOK, EOK, EOK, EOK, EOK,
    EOK, EOK, EOK, EOK, EOK, EOK, EOK, EOK, EOK, EOK, EOK, EOK, EOK, EOK, EOK, EOK, EOK, EOK,
    EOK, EOK, EOK, EOK, EOK, EOK, EOK, EOK, EOK, EOK, EOK, EOK, EOK, EOK, EOK, EOK, EOK, EOK,
    EOK, EOK, EOK, EOK, EOK, EOK, EOK, EOK, EOK, EOK, EOK, EOK, EOK, EOK, EOK, EOK, EOK, EOK,
    EOK, EOK, EOK, EOK, EOK, EOK, EOK, EOK, EOK, EOK, EOK, EOK, EOK, EOK, EOK, EOK, EOK, EOK,
    EOK, EOK, EOK, EOK, EOK, EOK, EOK, EOK, EOK, EOK, EOK, EOK, EOK, EOK, EOK, EOK, EOK, EOK,
    EOK, EOK, EOK, EOK, EOK, EOK, EOK]"

definition winerr_seg16 :: "errno list" where
  "winerr_seg16 = [
    EOK, EAGAIN, EAGAIN, EOK, EAGAIN, EOK, EOK, EOK, EOK, EOK, EOK, EOK, EOK, EOK, EOK, EOK,
    EOK, EOK, EOK, EOK, EOK, EOK, EOK, EOK, EOK, EOK, EOK, EOK, EOK, EOK, EOK, EOK, EOK, EOK,
    EOK, EOK, EOK, EOK, EOK, EOK, EOK, EOK, EOK, EOK, EOK, EOK, EOK, EOK, EOK, EOK, EOK, EOK,
    EOK, EOK, EOK, EOK, EOK, EOK, EOK, EOK, EOK, EOK, EOK, EOK, EOK, EOK, EOK, EOK, EOK, EOK,
    EOK, EOK, EOK, EOK, EOK, EOK, EOK, EOK, EOK, EOK, EOK, EOK, EOK, EOK, EOK, EOK, EOK, EOK,
    EOK, EOK, EOK, EOK, EOK, EOK, EOK, EOK, EOK, EOK, EOK, EOK, EOK, EOK, EOK, EOK, EOK, EOK,
    EOK, EOK, EOK, EOK, EOK, EOK, EOK, EOK, EOK, EOK, EOK, EOK, EOK, EOK, EOK, EOK, EOK, EOK,
    EOK, EOK, EOK, EOK, EOK, EOK, EOK, EOK, EOK, EOK, EOK, EOK, EOK, EOK, EOK, EOK, EOK, EOK,
    EOK, EOK, EOK, EOK, EOK, EOK, EOK, EOK]"

definition winerr_seg17 :: "errno list" where "winerr_seg17 = replicate 150 EOK"

definition winerr_seg18 :: "errno list" where "winerr_seg18 = replicate 150 EOK"

definition winerr_seg19 :: "errno list" where "winerr_seg19 = replicate 150 EOK"

definition winerr_seg20 :: "errno list" where "winerr_seg20 = replicate 150 EOK"

definition winerr_seg21 :: "errno list" where "winerr_seg21 = replicate 150 EOK"

definition winerr_seg22 :: "errno list" where "winerr_seg22 = replicate 150 EOK"

definition winerr_seg23 :: "errno list" where "winerr_seg23 = replicate 150 EOK"

definition winerr_seg24 :: "errno list" where "winerr_seg24 = replicate 150 EOK"

definition winerr_seg25 :: "errno list" where "winerr_seg25 = replicate 150 EOK"

definition winerr_seg26 :: "errno list" where "winerr_seg26 = replicate 150 EOK"

definition winerr_seg27 :: "errno list" where "winerr_seg27 = replicate 150 EOK"

definition winerr_seg28 :: "errno list" where "winerr_seg28 = replicate 150 EOK"

definition winerr_seg29 :: "errno list" where "winerr_seg29 = replicate 150 EOK"

definition winerr_seg30 :: "errno list" where "winerr_seg30 = replicate 150 EOK"

definition winerr_seg31 :: "errno list" where "winerr_seg31 = replicate 150 EOK"

definition winerr_seg32 :: "errno list" where "winerr_seg32 = replicate 150 EOK"

definition winerr_seg33 :: "errno list" where "winerr_seg33 = replicate 150 EOK"

definition winerr_seg34 :: "errno list" where "winerr_seg34 = replicate 150 EOK"

definition winerr_seg35 :: "errno list" where "winerr_seg35 = replicate 150 EOK"

definition winerr_seg36 :: "errno list" where "winerr_seg36 = replicate 150 EOK"

definition winerr_seg37 :: "errno list" where "winerr_seg37 = replicate 150 EOK"

definition winerr_seg38 :: "errno list" where "winerr_seg38 = replicate 150 EOK"

definition winerr_seg39 :: "errno list" where "winerr_seg39 = replicate 150 EOK"

definition winerr_seg40 :: "errno list" where "winerr_seg40 = replicate 150 EOK"

definition winerr_seg41 :: "errno list" where "winerr_seg41 = replicate 150 EOK"

definition winerr_seg42 :: "errno list" where "winerr_seg42 = replicate 150 EOK"

definition winerr_seg43 :: "errno list" where "winerr_seg43 = replicate 150 EOK"

definition winerr_seg44 :: "errno list" where "winerr_seg44 = replicate 150 EOK"

definition winerr_seg45 :: "errno list" where "winerr_seg45 = replicate 150 EOK"

definition winerr_seg46 :: "errno list" where "winerr_seg46 = replicate 150 EOK"

definition winerr_seg47 :: "errno list" where "winerr_seg47 = replicate 150 EOK"

definition winerr_seg48 :: "errno list" where "winerr_seg48 = replicate 150 EOK"

definition winerr_seg49 :: "errno list" where "winerr_seg49 = replicate 150 EOK"

definition winerr_seg50 :: "errno list" where "winerr_seg50 = replicate 150 EOK"

definition winerr_seg51 :: "errno list" where "winerr_seg51 = replicate 150 EOK"

definition winerr_seg52 :: "errno list" where "winerr_seg52 = replicate 150 EOK"

definition winerr_seg53 :: "errno list" where "winerr_seg53 = replicate 150 EOK"

definition winerr_seg54 :: "errno list" where "winerr_seg54 = replicate 150 EOK"

definition winerr_seg55 :: "errno list" where
  "winerr_seg55 = [
    EOK, EOK, EOK, EOK, EOK, EOK, EOK, EOK, EOK, EOK, EOK, EOK, EOK, EOK, EOK, EOK, EOK, EOK,
    EOK, EOK, EOK, EOK, EOK, EOK, EOK, EOK, EOK, EOK, EOK, EOK, EOK, EOK, EOK, EOK, EOK, EOK,
    EOK, EOK, EOK, EOK, EOK, EOK, EOK, EOK, EOK, EOK, EOK, EOK, EOK, EOK, EOK, EOK, EOK, EOK,
    EOK, EOK, EOK, EOK, EOK, EOK, EOK, EOK, EOK, EOK, EOK, EOK, EOK, EOK, EOK, EOK, EOK, EOK,
    EOK, EOK, EOK, EOK, EOK, EOK, EOK, EOK, EOK, EOK, EOK, EOK, EOK, EOK, EOK, EOK, EOK, EOK,
    EOK, EIO, EOK, EOK, EOK, EOK, EOK, EOK, EOK, EOK, EOK, EOK, EOK, EOK, EOK, EOK, EOK, EOK,
    EOK, EOK, EOK, EOK, EOK, EOK, EOK, EOK, EOK, EOK, EOK, EOK, EOK, EOK, EOK, EOK, EOK, EOK,
    EOK, EOK, EOK, EOK, EOK, EOK, EOK, EOK, EOK, EOK, EOK, EOK, EOK, EOK, EOK, EOK, EOK, EOK,
    EOK, EOK, EOK, EOK, EOK, EOK]"

definition winerr_seg56 :: "errno list" where "winerr_seg56 = replicate 150 EOK"

definition winerr_seg57 :: "errno list" where "winerr_seg57 = replicate 150 EOK"

definition winerr_seg58 :: "errno list" where "winerr_seg58 = replicate 150 EOK"

definition winerr_seg59 :: "errno list" where "winerr_seg59 = replicate 150 EOK"

definition winerr_segs :: "errno list list" where
  "winerr_segs = [
    winerr_seg00, winerr_seg01, winerr_seg02, winerr_seg03, winerr_seg04, winerr_seg05,
    winerr_seg06, winerr_seg07, winerr_seg08, winerr_seg09, winerr_seg10, winerr_seg11,
    winerr_seg12, winerr_seg13, winerr_seg14, winerr_seg15, winerr_seg16, winerr_seg17,
    winerr_seg18, winerr_seg19, winerr_seg20, winerr_seg21, winerr_seg22, winerr_seg23,
    winerr_seg24, winerr_seg25, winerr_seg26, winerr_seg27, winerr_seg28, winerr_seg29,
    winerr_seg30, winerr_seg31, winerr_seg32, winerr_seg33, winerr_seg34, winerr_seg35,
    winerr_seg36, winerr_seg37, winerr_seg38, winerr_seg39, winerr_seg40, winerr_seg41,
    winerr_seg42, winerr_seg43, winerr_seg44, winerr_seg45, winerr_seg46, winerr_seg47,
    winerr_seg48, winerr_seg49, winerr_seg50, winerr_seg51, winerr_seg52, winerr_seg53,
    winerr_seg54, winerr_seg55, winerr_seg56, winerr_seg57, winerr_seg58, winerr_seg59]"

definition winerr_map :: "errno list" where "winerr_map = concat winerr_segs"

section \<open>The mapped codes by number\<close>

definition winerr_spec :: "(nat \<times> errno) list" where
  "winerr_spec = [
    (1, EINVAL), (2, ENOENT), (3, ENOENT), (4, EMFILE), (5, EACCES), (6, EBADF), (8, ENOMEM),
    (13, EINVAL), (14, ENOMEM), (15, ENODEV), (17, EXDEV), (18, ENOENT), (19, EROFS),
    (20, ENODEV), (21, EIO), (23, EIO), (25, EINVAL), (27, EINVAL), (32, EBUSY), (33, EBUSY),
    (36, ENOLCK), (38, ENODATA), (39, ENOSPC), (50, ENOSYS), (51, EHOSTUNREACH),
    (52, EADDRINUSE), (53, ENOENT), (55, ENOENT), (58, ENOSYS), (59, EIO), (64, ENOENT),
    (67, ENOENT), (80, EEXIST), (82, EPERM), (87, EINVAL), (89, EAGAIN), (104, EINTR),
    (109, EPIPE), (110, EIO), (112, ENOSPC), (113, ENFILE), (120, ENOSYS), (123, ENOENT),
    (126, ENOENT), (127, ESRCH), (128, ECHILD), (129, EBUSY), (131, EINVAL), (145, ENOTEMPTY),
    (156, EIO), (161, ENOENT), (162, EBUSY), (164, EAGAIN), (170, EBUSY), (183, EEXIST),
    (191, ENOEXEC), (192, ENOEXEC), (193, ENOEXEC), (197, ENOEXEC), (205, EIO),
    (206, ENAMETOOLONG), (208, EINVAL), (209, EINVAL), (210, EINVAL), (216, ENOEXEC),
    (230, EINVAL), (231, EBUSY), (232, EPIPE), (233, EPIPE), (234, EMSGSIZE), (254, EINVAL),
    (255, EINVAL), (259, ENOENT), (267, ENOTDIR), (275, ENOSPC), (277, ENOSPC), (282, ENOTSUP),
    (288, EPERM), (424, EINVAL), (487, EINVAL), (535, EBUSY), (536, EPIPE), (996, EAGAIN),
    (997, EAGAIN), (998, EFAULT), (1006, ENXIO), (1008, EINVAL), (1053, EBUSY), (1067, EFAULT),
    (1100, ENOSPC), (1101, EIO), (1102, EIO), (1103, EIO), (1104, EIO), (1106, EIO),
    (1111, EIO), (1112, EIO), (1117, EIO), (1129, EIO), (1131, EDEADLOCK), (1142, EMLINK),
    (1165, EIO), (1166, EIO), (1200, ENODEV), (1223, EINTR), (1225, ECONNREFUSED),
    (1314, EPERM), (1332, EINVAL), (1392, EEXIST), (1393, EIO), (1450, EFBIG), (1451, EAGAIN),
    (1452, EAGAIN), (1453, EAGAIN), (1454, EAGAIN), (1455, EAGAIN), (1460, EBUSY), (1816, EIO),
    (2202, EINVAL), (2250, ENOLINK), (2401, EAGAIN), (2402, EAGAIN), (2404, EAGAIN),
    (8341, EIO)]"

definition winerr_entry :: "nat \<Rightarrow> errno" where
  "winerr_entry n = (case map_of winerr_spec n of Some e \<Rightarrow> e | None \<Rightarrow> EOK)"

section \<open>Comparing a table with a list of codes\<close>

text \<open>\<open>consume a ps es\<close> walks a piece of the table that begins at number \<open>a\<close> along the list, and returns the codes behind it if they agree.\<close>

primrec consume :: "nat \<Rightarrow> (nat \<times> errno) list \<Rightarrow> errno list \<Rightarrow> (nat \<times> errno) list option" where
  "consume a ps [] = Some ps"
| "consume a ps (e # es) =
     (case ps of
        [] \<Rightarrow> if e = EOK then consume (Suc a) [] es else None
      | p # qs \<Rightarrow>
          if fst p = a then (if e = snd p then consume (Suc a) qs es else None)
          else if a < fst p \<and> e = EOK then consume (Suc a) (p # qs) es else None)"

lemma consume_append:
  "consume a ps (xs @ ys) = consume a ps xs \<bind> (\<lambda>qs. consume (a + length xs) qs ys)"
  by (induction xs arbitrary: a ps) (auto split: list.splits)

lemma consume_zeros:
  "ps = [] \<or> a + n \<le> fst (hd ps) \<Longrightarrow> consume a ps (replicate n EOK) = Some ps"
  by (induction n arbitrary: a) (auto split: list.splits)

definition entry_of :: "(nat \<times> errno) list \<Rightarrow> nat \<Rightarrow> errno" where
  "entry_of ps n = (case map_of ps n of Some e \<Rightarrow> e | None \<Rightarrow> EOK)"

lemma entry_of_simps [simp]:
  "entry_of [] n = EOK"
  "entry_of (p # ps) n = (if fst p = n then snd p else entry_of ps n)"
  by (auto simp: entry_of_def split: prod.splits)

lemma consume_sound:
  "consume a ps es = Some [] \<Longrightarrow>
   (\<forall>p \<in> set ps. a \<le> fst p) \<and> es = map (entry_of ps) [a..<a + length es]"
proof (induction es arbitrary: a ps)
  case (Cons e es)
  have up: "[a..<Suc (a + length es)] = a # [Suc a..<Suc (a + length es)]"
    by (simp add: upt_conv_Cons del: upt_Suc)
  show ?case
  proof (cases ps)
    case Nil
    with Cons.prems have "e = EOK" "consume (Suc a) [] es = Some []" by (auto split: if_splits)
    with Cons.IH [of "Suc a" "[]"] Nil show ?thesis by (simp add: up del: upt_Suc)
  next
    case (Cons p qs)
    show ?thesis
    proof (cases "fst p = a")
      case True
      with Cons.prems Cons have e: "e = snd p" "consume (Suc a) qs es = Some []"
        by (auto split: if_splits)
      have IH: "\<forall>q \<in> set qs. Suc a \<le> fst q" "es = map (entry_of qs) [Suc a..<Suc a + length es]"
        using Cons.IH [OF e(2)] by blast+
      have "map (entry_of qs) [Suc a..<Suc a + length es] = map (entry_of ps) [Suc a..<Suc a + length es]"
        using True Cons by (intro map_cong) auto
      with IH(2) have "es = map (entry_of ps) [Suc a..<Suc (a + length es)]"
        by (simp only: add_Suc)
      moreover have "entry_of ps a = e" using True e(1) Cons by simp
      ultimately have "e # es = map (entry_of ps) [a..<Suc (a + length es)]"
        unfolding up by simp
      with IH(1) True Cons show ?thesis by (auto simp del: upt_Suc intro: Suc_leD)
    next
      case False
      with Cons.prems Cons have e: "e = EOK" "a < fst p" "consume (Suc a) ps es = Some []"
        by (auto split: if_splits)
      have IH: "\<forall>q \<in> set ps. Suc a \<le> fst q" "es = map (entry_of ps) [Suc a..<Suc a + length es]"
        using Cons.IH [OF e(3)] by blast+
      then have "entry_of ps a = EOK"
        unfolding entry_of_def by (force split: option.splits dest: map_of_SomeD)
      with IH e show ?thesis by (auto simp: up simp del: upt_Suc intro: Suc_leD)
    qed
  qed
qed simp

section \<open>The segments\<close>


lemma consume_seg00: "consume 0 winerr_spec winerr_seg00 = Some (drop 49 winerr_spec)"
  by (simp add: winerr_seg00_def winerr_spec_def)

lemma consume_seg01: "consume 150 (drop 49 winerr_spec) winerr_seg01 = Some (drop 78 winerr_spec)"
  by (simp add: winerr_seg01_def winerr_spec_def)

lemma consume_seg02: "consume 300 (drop 78 winerr_spec) winerr_seg02 = Some (drop 79 winerr_spec)"
  by (simp add: winerr_seg02_def winerr_spec_def)

lemma consume_seg03: "consume 450 (drop 79 winerr_spec) winerr_seg03 = Some (drop 82 winerr_spec)"
  by (simp add: winerr_seg03_def winerr_spec_def)

lemma consume_seg06: "consume 900 (drop 82 winerr_spec) winerr_seg06 = Some (drop 87 winerr_spec)"
  by (simp add: winerr_seg06_def winerr_spec_def)

lemma consume_seg07: "consume 1050 (drop 87 winerr_spec) winerr_seg07 = Some (drop 103 winerr_spec)"
  by (simp add: winerr_seg07_def winerr_spec_def)

lemma consume_seg08: "consume 1200 (drop 103 winerr_spec) winerr_seg08 = Some (drop 108 winerr_spec)"
  by (simp add: winerr_seg08_def winerr_spec_def)

lemma consume_seg09: "consume 1350 (drop 108 winerr_spec) winerr_seg09 = Some (drop 117 winerr_spec)"
  by (simp add: winerr_seg09_def winerr_spec_def)

lemma consume_seg12: "consume 1800 (drop 117 winerr_spec) winerr_seg12 = Some (drop 118 winerr_spec)"
  by (simp add: winerr_seg12_def winerr_spec_def)

lemma consume_seg14: "consume 2100 (drop 118 winerr_spec) winerr_seg14 = Some (drop 119 winerr_spec)"
  by (simp add: winerr_seg14_def winerr_spec_def)

lemma consume_seg15: "consume 2250 (drop 119 winerr_spec) winerr_seg15 = Some (drop 120 winerr_spec)"
  by (simp add: winerr_seg15_def winerr_spec_def)

lemma consume_seg16: "consume 2400 (drop 120 winerr_spec) winerr_seg16 = Some (drop 123 winerr_spec)"
  by (simp add: winerr_seg16_def winerr_spec_def)

lemma consume_seg55: "consume 8250 (drop 123 winerr_spec) winerr_seg55 = Some (drop 124 winerr_spec)"
  by (simp add: winerr_seg55_def winerr_spec_def)

lemma consume_zero_segs:
  "consume 600 (drop 82 winerr_spec) winerr_seg04 = Some (drop 82 winerr_spec)"
  "consume 750 (drop 82 winerr_spec) winerr_seg05 = Some (drop 82 winerr_spec)"
  "consume 1500 (drop 117 winerr_spec) winerr_seg10 = Some (drop 117 winerr_spec)"
  "consume 1650 (drop 117 winerr_spec) winerr_seg11 = Some (drop 117 winerr_spec)"
  "consume 1950 (drop 118 winerr_spec) winerr_seg13 = Some (drop 118 winerr_spec)"
  "consume 2550 (drop 123 winerr_spec) winerr_seg17 = Some (drop 123 winerr_spec)"
  "consume 2700 (drop 123 winerr_spec) winerr_seg18 = Some (drop 123 winerr_spec)"
  "consume 2850 (drop 123 winerr_spec) winerr_seg19 = Some (drop 123 winerr_spec)"
  "consume 3000 (drop 123 winerr_spec) winerr_seg20 = Some (drop 123 winerr_spec)"
  "consume 3150 (drop 123 winerr_spec) winerr_seg21 = Some (drop 123 winerr_spec)"
  "consume 3300 (drop 123 winerr_spec) winerr_seg22 = Some (drop 123 winerr_spec)"
  "consume 3450 (drop 123 winerr_spec) winerr_seg23 = Some (drop 123 winerr_spec)"
  "consume 3600 (drop 123 winerr_spec) winerr_seg24 = Some (drop 123 winerr_spec)"
  "consume 3750 (drop 123 winerr_spec) winerr_seg25 = Some (drop 123 winerr_spec)"
  "consume 3900 (drop 123 winerr_spec) winerr_seg26 = Some (drop 123 winerr_spec)"
  "consume 4050 (drop 123 winerr_spec) winerr_seg27 = Some (drop 123 winerr_spec)"
  "consume 4200 (drop 123 winerr_spec) winerr_seg28 = Some (drop 123 winerr_spec)"
  "consume 4350 (drop 123 winerr_spec) winerr_seg29 = Some (drop 123 winerr_spec)"
  "consume 4500 (drop 123 winerr_spec) winerr_seg30 = Some (drop 123 winerr_spec)"
  "consume 4650 (drop 123 winerr_spec) winerr_seg31 = Some (drop 123 winerr_spec)"
  "consume 4800 (drop 123 winerr_spec) winerr_seg32 = Some (drop 123 winerr_spec)"
  "consume 4950 (drop 123 winerr_spec) winerr_seg33 = Some (drop 123 winerr_spec)"
  "consume 5100 (drop 123 winerr_spec) winerr_seg34 = Some (drop 123 winerr_spec)"
  "consume 5250 (drop 123 winerr_spec) winerr_seg35 = Some (drop 123 winerr_spec)"
  "consume 5400 (drop 123 winerr_spec) winerr_seg36 = Some (drop 123 winerr_spec)"
  "consume 5550 (drop 123 winerr_spec) winerr_seg37 = Some (drop 123 winerr_spec)"
  "consume 5700 (drop 123 winerr_spec) winerr_seg38 = Some (drop 123 winerr_spec)"
  "consume 5850 (drop 123 winerr_spec) winerr_seg39 = Some (drop 123 winerr_spec)"
  "consume 6000 (drop 123 winerr_spec) winerr_seg40 = Some (drop 123 winerr_spec)"
  "consume 6150 (drop 123 winerr_spec) winerr_seg41 = Some (drop 123 winerr_spec)"
  "consume 6300 (drop 123 winerr_spec) winerr_seg42 = Some (drop 123 winerr_spec)"
  "consume 6450 (drop 123 winerr_spec) winerr_seg43 = Some (drop 123 winerr_spec)"
  "consume 6600 (drop 123 winerr_spec) winerr_seg44 = Some (drop 123 winerr_spec)"
  "consume 6750 (drop 123 winerr_spec) winerr_seg45 = Some (drop 123 winerr_spec)"
  "consume 6900 (drop 123 winerr_spec) winerr_seg46 = Some (drop 123 winerr_spec)"
  "consume 7050 (drop 123 winerr_spec) winerr_seg47 = Some (drop 123 winerr_spec)"
  "consume 7200 (drop 123 winerr_spec) winerr_seg48 = Some (drop 123 winerr_spec)"
  "consume 7350 (drop 123 winerr_spec) winerr_seg49 = Some (drop 123 winerr_spec)"
  "consume 7500 (drop 123 winerr_spec) winerr_seg50 = Some (drop 123 winerr_spec)"
  "consume 7650 (drop 123 winerr_spec) winerr_seg51 = Some (drop 123 winerr_spec)"
  "consume 7800 (drop 123 winerr_spec) winerr_seg52 = Some (drop 123 winerr_spec)"
  "consume 7950 (drop 123 winerr_spec) winerr_seg53 = Some (drop 123 winerr_spec)"
  "consume 8100 (drop 123 winerr_spec) winerr_seg54 = Some (drop 123 winerr_spec)"
  "consume 8400 (drop 124 winerr_spec) winerr_seg56 = Some (drop 124 winerr_spec)"
  "consume 8550 (drop 124 winerr_spec) winerr_seg57 = Some (drop 124 winerr_spec)"
  "consume 8700 (drop 124 winerr_spec) winerr_seg58 = Some (drop 124 winerr_spec)"
  "consume 8850 (drop 124 winerr_spec) winerr_seg59 = Some (drop 124 winerr_spec)"
  by (simp_all add: winerr_spec_def consume_zeros
    winerr_seg04_def winerr_seg05_def winerr_seg10_def winerr_seg11_def winerr_seg13_def
      winerr_seg17_def winerr_seg18_def winerr_seg19_def winerr_seg20_def winerr_seg21_def
      winerr_seg22_def winerr_seg23_def winerr_seg24_def winerr_seg25_def winerr_seg26_def
      winerr_seg27_def winerr_seg28_def winerr_seg29_def winerr_seg30_def winerr_seg31_def
      winerr_seg32_def winerr_seg33_def winerr_seg34_def winerr_seg35_def winerr_seg36_def
      winerr_seg37_def winerr_seg38_def winerr_seg39_def winerr_seg40_def winerr_seg41_def
      winerr_seg42_def winerr_seg43_def winerr_seg44_def winerr_seg45_def winerr_seg46_def
      winerr_seg47_def winerr_seg48_def winerr_seg49_def winerr_seg50_def winerr_seg51_def
      winerr_seg52_def winerr_seg53_def winerr_seg54_def winerr_seg56_def winerr_seg57_def
      winerr_seg58_def winerr_seg59_def)

lemmas consume_segs =
  consume_seg00 consume_seg01 consume_seg02 consume_seg03 consume_seg06 consume_seg07
  consume_seg08 consume_seg09 consume_seg12 consume_seg14 consume_seg15 consume_seg16
  consume_seg55 consume_zero_segs

lemma length_segs [simp]:
  "length winerr_seg00 = 150"
  "length winerr_seg01 = 150"
  "length winerr_seg02 = 150"
  "length winerr_seg03 = 150"
  "length winerr_seg04 = 150"
  "length winerr_seg05 = 150"
  "length winerr_seg06 = 150"
  "length winerr_seg07 = 150"
  "length winerr_seg08 = 150"
  "length winerr_seg09 = 150"
  "length winerr_seg10 = 150"
  "length winerr_seg11 = 150"
  "length winerr_seg12 = 150"
  "length winerr_seg13 = 150"
  "length winerr_seg14 = 150"
  "length winerr_seg15 = 150"
  "length winerr_seg16 = 150"
  "length winerr_seg17 = 150"
  "length winerr_seg18 = 150"
  "length winerr_seg19 = 150"
  "length winerr_seg20 = 150"
  "length winerr_seg21 = 150"
  "length winerr_seg22 = 150"
  "length winerr_seg23 = 150"
  "length winerr_seg24 = 150"
  "length winerr_seg25 = 150"
  "length winerr_seg26 = 150"
  "length winerr_seg27 = 150"
  "length winerr_seg28 = 150"
  "length winerr_seg29 = 150"
  "length winerr_seg30 = 150"
  "length winerr_seg31 = 150"
  "length winerr_seg32 = 150"
  "length winerr_seg33 = 150"
  "length winerr_seg34 = 150"
  "length winerr_seg35 = 150"
  "length winerr_seg36 = 150"
  "length winerr_seg37 = 150"
  "length winerr_seg38 = 150"
  "length winerr_seg39 = 150"
  "length winerr_seg40 = 150"
  "length winerr_seg41 = 150"
  "length winerr_seg42 = 150"
  "length winerr_seg43 = 150"
  "length winerr_seg44 = 150"
  "length winerr_seg45 = 150"
  "length winerr_seg46 = 150"
  "length winerr_seg47 = 150"
  "length winerr_seg48 = 150"
  "length winerr_seg49 = 150"
  "length winerr_seg50 = 150"
  "length winerr_seg51 = 150"
  "length winerr_seg52 = 150"
  "length winerr_seg53 = 150"
  "length winerr_seg54 = 150"
  "length winerr_seg55 = 150"
  "length winerr_seg56 = 150"
  "length winerr_seg57 = 150"
  "length winerr_seg58 = 150"
  "length winerr_seg59 = 150"
  by (simp_all add:
    winerr_seg00_def winerr_seg01_def winerr_seg02_def winerr_seg03_def winerr_seg04_def
      winerr_seg05_def winerr_seg06_def winerr_seg07_def winerr_seg08_def winerr_seg09_def
      winerr_seg10_def winerr_seg11_def winerr_seg12_def winerr_seg13_def winerr_seg14_def
      winerr_seg15_def winerr_seg16_def winerr_seg17_def winerr_seg18_def winerr_seg19_def
      winerr_seg20_def winerr_seg21_def winerr_seg22_def winerr_seg23_def winerr_seg24_def
      winerr_seg25_def winerr_seg26_def winerr_seg27_def winerr_seg28_def winerr_seg29_def
      winerr_seg30_def winerr_seg31_def winerr_seg32_def winerr_seg33_def winerr_seg34_def
      winerr_seg35_def winerr_seg36_def winerr_seg37_def winerr_seg38_def winerr_seg39_def
      winerr_seg40_def winerr_seg41_def winerr_seg42_def winerr_seg43_def winerr_seg44_def
      winerr_seg45_def winerr_seg46_def winerr_seg47_def winerr_seg48_def winerr_seg49_def
      winerr_seg50_def winerr_seg51_def winerr_seg52_def winerr_seg53_def winerr_seg54_def
      winerr_seg55_def winerr_seg56_def winerr_seg57_def winerr_seg58_def winerr_seg59_def)


lemma consume_map: "consume 0 winerr_spec winerr_map = Some []"
  by (simp add: winerr_map_def winerr_segs_def consume_append consume_segs) (simp add: winerr_spec_def)

lemma length_winerr_map [simp]: "length winerr_map = 9000"
  by (simp add: winerr_map_def winerr_segs_def)

lemma winerr_map_entries: "winerr_map = map winerr_entry [0..<9000]"
  using consume_sound [OF consume_map]
  by (simp add: winerr_entry_def [abs_def] entry_of_def [abs_def] del: upt_Suc)

lemma nth_winerr_map: "n < 9000 \<Longrightarrow> winerr_map ! n = winerr_entry n"
  by (simp add: winerr_map_entries del: upt_Suc)

lemma winerr_spec_range: "(n, e) \<in> set winerr_spec \<Longrightarrow> 0 < n \<and> n < 9000 \<and> e \<noteq> EOK \<and> e \<noteq> EUNMAPPED"
  by (auto simp: winerr_spec_def)

lemma winerr_entry_beyond: "9000 \<le> n \<Longrightarrow> map_of winerr_spec n = None"
  by (rule ccontr) (auto dest!: map_of_SomeD winerr_spec_range)

end
