(* ===== verification/WinErrno.thy ===== *)
theory WinErrno
  imports Win32 WinErrMap
begin

text \<open>
  \<open>libc-compat/winsup/internal/errno.c\<close>: \<open>__set_errno_via_winerr\<close> turns a Windows error
  number into an \<open>errno\<close> value by the table of \<open>WinErrMap\<close>.
\<close>

definition set_errno_via_winerr :: "dword \<Rightarrow> 'w proc \<Rightarrow> 'w proc" where
  "set_errno_via_winerr winerr s =
     (if winerr = 0 then set_errno EOK s
      else if unat winerr < length winerr_map then
        (let mapped_err = winerr_map ! unat winerr in
         if mapped_err = EOK then set_errno EUNMAPPED s else set_errno mapped_err s)
      else set_errno EUNMAPPED s)"

section \<open>Reading and writing the process state\<close>

lemma get_set [simp]:
  "get_errno (set_errno e s) = e"
  "get_errno (set_last_error w s) = get_errno s"
  "get_last_error (set_last_error w s) = w"
  "get_last_error (set_errno e s) = get_last_error s"
  "get_env (set_errno e s) = get_env s"
  "get_env (set_last_error w s) = get_env s"
  "fd_cache (set_errno e s) = fd_cache s"
  "fd_cache (set_last_error w s) = fd_cache s"
  "fd_cache_max_size (set_errno e s) = fd_cache_max_size s"
  "fd_cache_max_size (set_last_error w s) = fd_cache_max_size s"
  "set_errno e (set_errno e' s) = set_errno e s"
  by (simp_all add: get_errno_def set_errno_def get_last_error_def set_last_error_def get_env_def)

lemma syscall_frame [simp]:
  "fd_cache (snd (syscall f s)) = fd_cache s"
  "fd_cache_max_size (snd (syscall f s)) = fd_cache_max_size s"
  by (simp_all add: syscall_def split: prod.splits)

lemma syscall_frameD [frame]:
  "syscall f s = (r, s') \<Longrightarrow> fd_cache s' = fd_cache s \<and> fd_cache_max_size s' = fd_cache_max_size s"
  by (auto simp: syscall_def split: prod.splits)

lemma syscall_env: "syscall f s = (r, s') \<Longrightarrow> get_env s' = env (snd (f (sys s)))"
  by (auto simp: syscall_def get_env_def split: prod.splits)

lemma set_errno_via_winerr_conv: "set_errno_via_winerr winerr s =
  set_errno (get_errno (set_errno_via_winerr winerr s)) s"
  by (simp add: set_errno_via_winerr_def Let_def)

lemma set_errno_via_winerr_frame [simp]:
  "get_last_error (set_errno_via_winerr w s) = get_last_error s"
  "get_env (set_errno_via_winerr w s) = get_env s"
  "fd_cache (set_errno_via_winerr w s) = fd_cache s"
  "fd_cache_max_size (set_errno_via_winerr w s) = fd_cache_max_size s"
  by (simp_all add: set_errno_via_winerr_def Let_def)

text \<open>The errno value as a function of the error number alone.\<close>

definition winerr_to_errno :: "dword \<Rightarrow> errno" where
  "winerr_to_errno w = (if w = 0 then EOK
     else case map_of winerr_spec (unat w) of Some e \<Rightarrow> e | None \<Rightarrow> EUNMAPPED)"

lemma set_errno_via_winerr_spec: "set_errno_via_winerr w s = set_errno (winerr_to_errno w) s"
proof (cases "w \<noteq> 0 \<and> unat w < 9000")
  case True
  have "e \<noteq> EOK" if "map_of winerr_spec (unat w) = Some e" for e
    using that by (auto dest!: map_of_SomeD winerr_spec_range)
  with True show ?thesis
    by (auto simp: set_errno_via_winerr_def winerr_to_errno_def Let_def nth_winerr_map winerr_entry_def
        split: option.splits)
next
  case False
  then show ?thesis
    by (auto simp: set_errno_via_winerr_def winerr_to_errno_def winerr_entry_beyond)
qed

lemma winerr_to_errno_EOK_iff: "winerr_to_errno w = EOK \<longleftrightarrow> w = 0"
  by (auto simp: winerr_to_errno_def split: option.splits dest!: map_of_SomeD winerr_spec_range)

section \<open>Properties\<close>

text \<open>
  Property C6. \<open>__set_errno_via_winerr\<close> for each of the 2^32 Windows error numbers: \<open>errno\<close>
  becomes 0 for \<open>NO_ERROR\<close>, the listed value for the 124 listed codes, and -1 for every other
  number, in the table or beyond its end; \<open>errno\<close> is 0 only for \<open>NO_ERROR\<close>; and nothing else
  in the process changes.
\<close>

theorem set_errno_via_winerr_correct:
  "set_errno_via_winerr w s = set_errno (winerr_to_errno w) s \<and>
   (get_errno (set_errno_via_winerr w s) = EOK \<longleftrightarrow> w = 0) \<and>
   length winerr_map = 9000"
  by (simp add: set_errno_via_winerr_spec winerr_to_errno_EOK_iff)

end
