(* ===== verification/OflagCache.thy ===== *)
theory OflagCache
  imports WinErrno
begin

text \<open>
  The cache of open flags in \<open>libc-compat/winsup/internal/fd.c\<close>. Windows does not tell in which
  mode a handle was opened, so \<open>open\<close> records for each descriptor whether it is in append mode;
  the table has one entry per possible descriptor, -1 for none. A lookup by handle walks the
  entries below \<open>fd_cache_max_size\<close>, asks the C runtime for the handle of each, and drops the
  entries of descriptors that are closed.
\<close>

section \<open>Operations\<close>

definition open_max :: nat where "open_max = 8192"

definition init_oflag_cache :: "'w proc \<Rightarrow> 'w proc" where
  "init_oflag_cache s = s\<lparr>fd_cache := replicate open_max (- 1)\<rparr>"

definition fd_cache_oflag :: "bool \<Rightarrow> c_int \<Rightarrow> c_int \<Rightarrow> 'w proc \<Rightarrow> 'w proc option" where
  "fd_cache_oflag nd fd oflag s = do {
     c_assert nd (\<not> fd <s 0);
     c_assert nd (fd <s of_nat open_max);
     if unat fd < length (fd_cache s)
     then Some (s\<lparr>fd_cache := (fd_cache s)[unat fd := oflag AND O_APPEND],
       fd_cache_max_size := (if fd_cache_max_size s \<le> unat fd then Suc (unat fd) else fd_cache_max_size s)\<rparr>)
     else None
   }"

definition get_osfhandle_oflag_fallback :: "'w win32 \<Rightarrow> handle \<Rightarrow> 'w proc \<Rightarrow> c_int \<times> 'w proc" where
  "get_osfhandle_oflag_fallback W h s =
     (case syscall (w_NtQueryObject W h) s of
        (None, s) \<Rightarrow> (0, s)
      | (Some granted, s) \<Rightarrow>
          if granted AND FILE_WRITE_DATA \<noteq> 0 then (0, s)
          else (if granted AND FILE_APPEND_DATA \<noteq> 0 then O_APPEND else 0, s))"

definition drop_entry :: "nat \<Rightarrow> 'w proc \<Rightarrow> 'w proc" where
  "drop_entry fd s = s\<lparr>fd_cache := (fd_cache s)[fd := - 1],
     fd_cache_max_size := (if fd = fd_cache_max_size s - 1
       then fd_cache_max_size s - 1 else fd_cache_max_size s)\<rparr>"

lemma drop_entry_simps [simp]:
  "fd_cache (drop_entry fd s) = (fd_cache s)[fd := - 1]"
  "fd_cache_max_size (drop_entry fd s) =
     (if fd = fd_cache_max_size s - 1 then fd_cache_max_size s - 1 else fd_cache_max_size s)"
  "get_env (drop_entry fd s) = get_env s"
  by (simp_all add: drop_entry_def get_env_def)

function get_osfhandle_oflag_loop ::
  "'w win32 \<Rightarrow> handle \<Rightarrow> nat \<Rightarrow> 'w proc \<Rightarrow> ('w, c_int) res" where
  "get_osfhandle_oflag_loop W h fd s =
     (if fd < fd_cache_max_size s then
        if fd < length (fd_cache s) then
          let oflag = fd_cache s ! fd in
          if oflag <s 0 then get_osfhandle_oflag_loop W h (Suc fd) s
          else
            (let (other, s1) = syscall (w_get_osfhandle W (of_nat fd)) s in
             if other = INVALID_HANDLE_VALUE then
               get_osfhandle_oflag_loop W h (Suc fd) (drop_entry fd s1)
             else if h = other then Some (oflag, s1)
             else get_osfhandle_oflag_loop W h (Suc fd) s1)
        else None
      else Some (get_osfhandle_oflag_fallback W h s))"
  by pat_completeness auto
termination
  by (relation "measure (\<lambda>(W, h, fd, s). fd_cache_max_size s - fd)")
    (auto dest!: sym [of "(_, _)"] frame)

declare get_osfhandle_oflag_loop.simps [simp del]

definition get_osfhandle_oflag :: "'w win32 \<Rightarrow> handle \<Rightarrow> 'w proc \<Rightarrow> ('w, c_int) res" where
  "get_osfhandle_oflag W h s =
     (if h = INVALID_HANDLE_VALUE then Some (0, s) else get_osfhandle_oflag_loop W h 0 s)"

section \<open>The invariant\<close>

definition cache_inv :: "'w proc \<Rightarrow> bool" where
  "cache_inv s \<longleftrightarrow> length (fd_cache s) = open_max \<and> fd_cache_max_size s \<le> open_max \<and>
     set (fd_cache s) \<subseteq> {- 1, 0, O_APPEND} \<and>
     (\<forall>i < open_max. fd_cache_max_size s \<le> i \<longrightarrow> fd_cache s ! i = - 1)"

lemma cache_invI:
  "length (fd_cache s) = open_max \<Longrightarrow> fd_cache_max_size s \<le> open_max \<Longrightarrow>
   set (fd_cache s) \<subseteq> {- 1, 0, O_APPEND} \<Longrightarrow>
   (\<And>i. i < open_max \<Longrightarrow> fd_cache_max_size s \<le> i \<Longrightarrow> fd_cache s ! i = - 1) \<Longrightarrow> cache_inv s"
  by (simp add: cache_inv_def)

lemma cache_inv_cong:
  "fd_cache s' = fd_cache s \<Longrightarrow> fd_cache_max_size s' = fd_cache_max_size s \<Longrightarrow> cache_inv s' = cache_inv s"
  by (simp add: cache_inv_def)

lemma cache_inv_frame [simp]:
  "cache_inv (snd (syscall f s)) = cache_inv s"
  "cache_inv (set_errno e s) = cache_inv s"
  "cache_inv (set_last_error w s) = cache_inv s"
  "cache_inv (set_errno_via_winerr w s) = cache_inv s"
  by (rule cache_inv_cong; simp)+

lemma cache_inv_init: "fd_cache_max_size s = 0 \<Longrightarrow> cache_inv (init_oflag_cache s)"
  by (rule cache_invI) (auto simp: init_oflag_cache_def)

lemma and_append_cases: "oflag AND O_APPEND = 0 \<or> oflag AND O_APPEND = O_APPEND" for oflag :: c_int
  using word_and_exp [of oflag 3] by (simp split: if_splits)

lemma fd_cache_oflag_inv:
  assumes "cache_inv s" and "fd_cache_oflag nd fd oflag s = Some s'"
  shows "cache_inv s'"
proof -
  let ?n = "unat fd"
  have s': "fd_cache s' = (fd_cache s)[?n := oflag AND O_APPEND]" "?n < length (fd_cache s)"
      "fd_cache_max_size s' = max (fd_cache_max_size s) (Suc ?n)"
    using assms(2) by (auto simp: fd_cache_oflag_def split: if_splits)
  show ?thesis
  proof (rule cache_invI)
    show "set (fd_cache s') \<subseteq> {- 1, 0, O_APPEND}"
      using assms(1) and_append_cases [of oflag] set_update_subset_insert [of "fd_cache s" ?n]
      unfolding s'(1) cache_inv_def by blast
  qed (use assms(1) s' in \<open>auto simp: cache_inv_def\<close>)
qed

text \<open>The assertions hold, and the entry exists, for every descriptor the C runtime can return.\<close>

lemma fd_cache_oflag_returns:
  assumes "cache_inv s" and "unat fd < open_max"
  shows "\<exists>s'. fd_cache_oflag nd fd oflag s = Some s' \<and> fd_cache s' ! unat fd = oflag AND O_APPEND \<and>
    sys s' = sys s \<and> unat fd < fd_cache_max_size s'"
proof -
  have "sint fd = int (unat fd)" using assms(2) by (intro sint_small) (simp add: open_max_def)
  then have "\<not> fd <s 0 \<and> fd <s of_nat open_max"
    using assms(2) by (simp add: word_sless_alt open_max_def uint_small_iff)
  then show ?thesis
    using assms by (simp add: fd_cache_oflag_def cache_inv_def)
qed

section \<open>Lookup\<close>

text \<open>
  \<open>H e fd\<close> is the handle of descriptor \<open>fd\<close> in environment \<open>e\<close>. The law says that
  \<open>_get_osfhandle\<close> reports it and opens or closes nothing.
\<close>

definition handle_law :: "'w win32 \<Rightarrow> ('w \<Rightarrow> c_int \<Rightarrow> handle) \<Rightarrow> bool" where
  "handle_law W H \<longleftrightarrow> (\<forall>fd y. fst (w_get_osfhandle W fd y) = H (env y) fd \<and>
     env (snd (w_get_osfhandle W fd y)) = env y)"

lemma handle_lawD:
  "handle_law W H \<Longrightarrow> syscall (w_get_osfhandle W fd) s = (h, s') \<Longrightarrow>
   h = H (get_env s) fd \<and> get_env s' = get_env s"
  unfolding handle_law_def syscall_def get_env_def
  by (auto split: prod.splits) (metis fst_conv snd_conv)+

text \<open>The entry that a lookup of \<open>h\<close> stops at.\<close>

definition hit :: "('w \<Rightarrow> c_int \<Rightarrow> handle) \<Rightarrow> handle \<Rightarrow> 'w proc \<Rightarrow> nat \<Rightarrow> bool" where
  "hit H h s n \<longleftrightarrow> \<not> fd_cache s ! n <s 0 \<and> H (get_env s) (of_nat n) = h"

definition evicted :: "('w \<Rightarrow> c_int \<Rightarrow> handle) \<Rightarrow> 'w proc \<Rightarrow> 'w proc \<Rightarrow> bool" where
  "evicted H s s' \<longleftrightarrow> cache_inv s' \<and> get_env s' = get_env s \<and>
     fd_cache_max_size s' \<le> fd_cache_max_size s \<and>
     (\<forall>i < open_max. fd_cache s' ! i = fd_cache s ! i \<or>
        fd_cache s' ! i = - 1 \<and> H (get_env s) (of_nat i) = INVALID_HANDLE_VALUE)"

lemma evicted_trans: "evicted H s s1 \<Longrightarrow> evicted H s1 s2 \<Longrightarrow> evicted H s s2"
  by (simp add: evicted_def) metis

lemma evicted_syscall:
  "cache_inv s \<Longrightarrow> handle_law W H \<Longrightarrow> syscall (w_get_osfhandle W fd) s = (h, s') \<Longrightarrow> evicted H s s'"
  using handle_lawD [of W H fd s h s'] syscall_frameD [of "w_get_osfhandle W fd" s h s']
  by (simp add: evicted_def cache_inv_def)

lemma evicted_drop:
  assumes "cache_inv s" and "i < fd_cache_max_size s" and "H (get_env s) (of_nat i) = INVALID_HANDLE_VALUE"
  shows "evicted H s (drop_entry i s)"
proof -
  have "cache_inv (drop_entry i s)"
  proof (rule cache_invI)
    show "set (fd_cache (drop_entry i s)) \<subseteq> {- 1, 0, O_APPEND}"
      using assms(1) set_update_subset_insert [of "fd_cache s" i "- 1"]
      unfolding cache_inv_def drop_entry_simps by blast
  qed (use assms(1,2) in \<open>auto simp: cache_inv_def nth_list_update split: if_splits\<close>)
  then show ?thesis
    using assms by (auto simp: evicted_def cache_inv_def nth_list_update)
qed

text \<open>One round of the loop, for an entry with flags and for one without.\<close>

lemma oflag_loop_skip:
  "fd < fd_cache_max_size s \<Longrightarrow> fd < length (fd_cache s) \<Longrightarrow> fd_cache s ! fd <s 0 \<Longrightarrow>
   get_osfhandle_oflag_loop W h fd s = get_osfhandle_oflag_loop W h (Suc fd) s"
  by (subst get_osfhandle_oflag_loop.simps) (simp add: Let_def)

lemma oflag_loop_look:
  assumes "fd < fd_cache_max_size s" and "fd < length (fd_cache s)" and "\<not> fd_cache s ! fd <s 0"
    and "syscall (w_get_osfhandle W (of_nat fd)) s = (other, s1)"
  shows "get_osfhandle_oflag_loop W h fd s =
    (if other = INVALID_HANDLE_VALUE then get_osfhandle_oflag_loop W h (Suc fd) (drop_entry fd s1)
     else if h = other then Some (fd_cache s ! fd, s1)
     else get_osfhandle_oflag_loop W h (Suc fd) s1)"
  using assms by (subst get_osfhandle_oflag_loop.simps) (simp add: Let_def)

text \<open>An entry that does not hit is passed over, whatever is evicted at it.\<close>

lemma oflag_loop_more:
  assumes ev: "evicted H s s1"
    and same: "\<And>j. hit H h s j \<Longrightarrow> fd_cache s1 ! j = fd_cache s ! j"
    and more: "\<exists>s3. evicted H s1 s3 \<and> r = Some (case find (hit H h s) xs of
      Some n \<Rightarrow> (fd_cache s1 ! n, s3) | None \<Rightarrow> get_osfhandle_oflag_fallback W h s3)"
  shows "\<exists>s3. evicted H s s3 \<and> r = Some (case find (hit H h s) xs of
    Some n \<Rightarrow> (fd_cache s ! n, s3) | None \<Rightarrow> get_osfhandle_oflag_fallback W h s3)"
proof -
  from more obtain s3 where s3: "evicted H s1 s3" "r = Some (case find (hit H h s) xs of
      Some n \<Rightarrow> (fd_cache s1 ! n, s3) | None \<Rightarrow> get_osfhandle_oflag_fallback W h s3)"
    by blast
  have "fd_cache s1 ! n = fd_cache s ! n" if "find (hit H h s) xs = Some n" for n
    using same that by (auto simp: find_Some_iff)
  with s3 evicted_trans [OF ev s3(1)] show ?thesis by (auto split: option.splits)
qed

lemma find_hit_skip:
  assumes "fd < m" and "m' - Suc fd = m - Suc fd" and "get_env t = get_env s" and "\<not> hit H h s fd"
    and "\<And>j. Suc fd \<le> j \<Longrightarrow> fd_cache t ! j = fd_cache s ! j"
  shows "find (hit H h t) [Suc fd..<m'] = find (hit H h s) [fd..<m]"
proof -
  have "m' = m \<or> m' \<le> Suc fd \<and> m \<le> Suc fd" using assms(2) by linarith
  then have "[fd..<m] = fd # [Suc fd..<m']" using assms(1) by (auto simp: upt_conv_Cons)
  with assms(3-5) show ?thesis by (auto simp: hit_def intro!: find_cong)
qed

lemma oflag_loop_spec:
  assumes "handle_law W H" and "h \<noteq> INVALID_HANDLE_VALUE"
  shows "cache_inv s \<Longrightarrow> \<exists>s1. evicted H s s1 \<and> get_osfhandle_oflag_loop W h fd s =
    Some (case find (hit H h s) [fd..<fd_cache_max_size s] of
      Some n \<Rightarrow> (fd_cache s ! n, s1) | None \<Rightarrow> get_osfhandle_oflag_fallback W h s1)"
proof (induction "fd_cache_max_size s - fd" arbitrary: fd s)
  case 0
  then have "evicted H s s" by (simp add: evicted_def)
  with 0 show ?case
    by (intro exI [of _ s], subst get_osfhandle_oflag_loop.simps) simp
next
  case (Suc k)
  let ?m = "fd_cache_max_size s"
  have fd: "fd < ?m" "fd < length (fd_cache s)" using Suc.hyps(2) Suc.prems by (auto simp: cache_inv_def)
  have ih: "\<exists>s3. evicted H t s3 \<and> get_osfhandle_oflag_loop W h (Suc fd) t =
      Some (case find (hit H h s) [fd..<?m] of Some n \<Rightarrow> (fd_cache t ! n, s3)
        | None \<Rightarrow> get_osfhandle_oflag_fallback W h s3)"
    if "cache_inv t" "fd_cache_max_size t - Suc fd = ?m - Suc fd" "get_env t = get_env s" "\<not> hit H h s fd"
      "\<And>j. Suc fd \<le> j \<Longrightarrow> fd_cache t ! j = fd_cache s ! j" for t
    using Suc.hyps(1) [of t "Suc fd"] Suc.hyps(2) find_hit_skip [OF fd(1) that(2-5)] that(1,2) by simp
  obtain other s1 where sc: "syscall (w_get_osfhandle W (of_nat fd)) s = (other, s1)"
    by (metis prod.exhaust)
  have other: "other = H (get_env s) (of_nat fd)" "get_env s1 = get_env s"
    using handle_lawD [OF assms(1) sc] by blast+
  have fr: "fd_cache s1 = fd_cache s" "fd_cache_max_size s1 = ?m" using syscall_frameD [OF sc] by blast+
  have ev: "evicted H s s1" by (rule evicted_syscall [OF Suc.prems assms(1) sc])
  then have inv1: "cache_inv s1" by (simp add: evicted_def)
  note look = oflag_loop_look [OF fd _ sc, of h]
  consider "fd_cache s ! fd <s 0" | "\<not> fd_cache s ! fd <s 0" "other = INVALID_HANDLE_VALUE"
    | "\<not> fd_cache s ! fd <s 0" "h = other" | "\<not> fd_cache s ! fd <s 0" "other \<noteq> INVALID_HANDLE_VALUE" "h \<noteq> other"
    by blast
  then show ?case
  proof cases
    case 1
    then show ?thesis
      using ih [of s] Suc.prems oflag_loop_skip [OF fd 1, of W h] by (simp add: hit_def)
  next
    case 2
    have nh: "\<not> hit H h s fd" using 2 other assms(2) by (auto simp: hit_def)
    have e2: "evicted H s (drop_entry fd s1)"
      using fd inv1 2 other fr by (intro evicted_trans [OF ev] evicted_drop) auto
    then have inv2: "cache_inv (drop_entry fd s1)" by (simp only: evicted_def)
    have size: "fd_cache_max_size (drop_entry fd s1) - Suc fd = ?m - Suc fd" by (auto simp: fr)
    have same: "fd_cache (drop_entry fd s1) ! j = fd_cache s ! j" if "hit H h s j \<or> Suc fd \<le> j" for j
      using that nh by (cases "j = fd") (auto simp: fr)
    show ?thesis
      using oflag_loop_more [OF e2 _ ih [OF inv2 size]] look 2 nh same other(2) fr(1) by simp
  next
    case 3
    then show ?thesis using look ev other assms(2) fd
      by (intro exI [of _ s1]) (simp add: upt_conv_Cons hit_def)
  next
    case 4
    then have nh: "\<not> hit H h s fd" using other by (simp add: hit_def)
    show ?thesis
      using oflag_loop_more [OF ev _ ih [OF inv1]] look 4 nh other(2) fr by simp
  qed
qed

section \<open>The contract of the cache\<close>

text \<open>
  What the users of the cache rely on, for a store of type \<open>'s\<close>: \<open>put\<close> records the flag of
  a descriptor that is in range, \<open>get\<close> finds it again by any handle that only this descriptor
  has, neither breaks the invariant, and a lookup does not make a later one fail.
\<close>

locale flag_store =
  fixes inv :: "'s \<Rightarrow> bool"
    and range :: "c_int \<Rightarrow> bool"
    and owns :: "'s \<Rightarrow> c_int \<Rightarrow> 'h \<Rightarrow> bool"
    and has :: "'s \<Rightarrow> c_int \<Rightarrow> c_int \<Rightarrow> bool"
    and put :: "c_int \<Rightarrow> c_int \<Rightarrow> 's \<Rightarrow> 's option"
    and get :: "'h \<Rightarrow> 's \<Rightarrow> (c_int \<times> 's) option"
  assumes put_ok: "inv s \<Longrightarrow> range fd \<Longrightarrow> \<exists>s'. put fd fl s = Some s' \<and> inv s' \<and>
      has s' fd (fl AND O_APPEND) \<and> (\<forall>fd h. owns s' fd h \<longleftrightarrow> owns s fd h)"
    and get_ok: "inv s \<Longrightarrow> owns s fd h \<Longrightarrow> has s fd fl \<Longrightarrow>
      \<exists>s'. get h s = Some (fl, s') \<and> inv s' \<and> has s' fd fl \<and> owns s' fd h"
begin

lemma get_after_put:
  assumes "inv s" and "range fd" and "owns s fd h"
  shows "\<exists>s' s''. put fd fl s = Some s' \<and> get h s' = Some (fl AND O_APPEND, s'') \<and> inv s''"
proof -
  obtain s' where put: "put fd fl s = Some s'" "inv s'" "has s' fd (fl AND O_APPEND)" "owns s' fd h"
    using put_ok [OF assms(1,2)] assms(3) by metis
  from get_ok [OF put(2,4,3)] put(1) show ?thesis by blast
qed

lemma get_again:
  assumes "inv s" and "owns s fd h" and "has s fd fl" and "get h s = Some (r, s')"
  shows "r = fl \<and> (\<exists>s''. get h s' = Some (fl, s''))"
proof -
  obtain s1 where get: "get h s = Some (fl, s1)" "inv s1" "has s1 fd fl" "owns s1 fd h"
    using get_ok [OF assms(1-3)] by blast
  from get_ok [OF get(2,4,3)] get(1) assms(4) show ?thesis by auto
qed

end

text \<open>The two relations on the model: one descriptor has the handle; the flag is in the table.\<close>

definition sole_owner :: "('w \<Rightarrow> c_int \<Rightarrow> handle) \<Rightarrow> 'w proc \<Rightarrow> c_int \<Rightarrow> handle \<Rightarrow> bool" where
  "sole_owner H s fd h \<longleftrightarrow> h \<noteq> INVALID_HANDLE_VALUE \<and>
     (\<forall>n < open_max. H (get_env s) (of_nat n) = h \<longleftrightarrow> n = unat fd)"

definition has_flag :: "'w proc \<Rightarrow> c_int \<Rightarrow> c_int \<Rightarrow> bool" where
  "has_flag s fd fl \<longleftrightarrow> unat fd < fd_cache_max_size s \<and> fd_cache s ! unat fd = fl \<and> \<not> fl <s 0"

lemma append_flag_not_negative: "\<not> (oflag AND O_APPEND) <s (0 :: c_int)"
  using and_append_cases [of oflag] by (auto simp: word_sless_alt)

lemma get_osfhandle_oflag_finds:
  assumes "handle_law W H" and "cache_inv s" and "sole_owner H s fd h" and "has_flag s fd fl"
  shows "\<exists>s'. get_osfhandle_oflag W h s = Some (fl, s') \<and> evicted H s s'"
proof -
  have le: "fd_cache_max_size s \<le> open_max" using assms(2) by (simp add: cache_inv_def)
  have only: "hit H h s n \<longleftrightarrow> n = unat fd" if "n < fd_cache_max_size s" for n
    using that le assms(3,4) by (auto simp: hit_def sole_owner_def has_flag_def)
  have "find (hit H h s) [0..<fd_cache_max_size s] = Some (unat fd)"
    using assms(4) only by (auto simp: find_Some_iff has_flag_def intro!: exI [of _ "unat fd"])
  then show ?thesis
    using oflag_loop_spec [OF assms(1) _ assms(2), of h 0] assms(3,4)
    by (auto simp: get_osfhandle_oflag_def sole_owner_def has_flag_def)
qed

lemma has_flag_evicted:
  assumes "evicted H s s'" and "cache_inv s" and "sole_owner H s fd h" and "has_flag s fd fl"
  shows "has_flag s' fd fl \<and> sole_owner H s' fd h"
proof -
  have n: "unat fd < open_max" using assms(2,4) by (simp add: has_flag_def cache_inv_def)
  then have "H (get_env s) (of_nat (unat fd)) = h" using assms(3) unfolding sole_owner_def by blast
  then have "H (get_env s) fd = h" by simp
  then have c: "fd_cache s' ! unat fd = fl"
    using assms(1,3,4) n by (auto simp: evicted_def sole_owner_def has_flag_def)
  moreover have "unat fd < fd_cache_max_size s'"
  proof (rule ccontr)
    assume "\<not> unat fd < fd_cache_max_size s'"
    then have "fd_cache s' ! unat fd = - 1" using assms(1) n by (simp add: evicted_def cache_inv_def)
    with c assms(4) show False by (auto simp: has_flag_def)
  qed
  ultimately show ?thesis
    using assms(1,3,4) by (simp add: has_flag_def sole_owner_def evicted_def)
qed

text \<open>
  The contract holds on the model: the store is the process state together with the platform it
  runs on, whose \<open>_get_osfhandle\<close> obeys its law.
\<close>

type_synonym 'w flag_world = "'w win32 \<times> ('w \<Rightarrow> c_int \<Rightarrow> handle) \<times> 'w proc"

definition world_inv :: "'w flag_world \<Rightarrow> bool" where
  "world_inv = (\<lambda>(W, H, s). handle_law W H \<and> cache_inv s)"

definition world_owns :: "'w flag_world \<Rightarrow> c_int \<Rightarrow> handle \<Rightarrow> bool" where
  "world_owns = (\<lambda>(W, H, s). sole_owner H s)"

definition world_has :: "'w flag_world \<Rightarrow> c_int \<Rightarrow> c_int \<Rightarrow> bool" where
  "world_has = (\<lambda>(W, H, s). has_flag s)"

definition world_put :: "bool \<Rightarrow> c_int \<Rightarrow> c_int \<Rightarrow> 'w flag_world \<Rightarrow> 'w flag_world option" where
  "world_put nd fd fl = (\<lambda>(W, H, s). map_option (\<lambda>s'. (W, H, s')) (fd_cache_oflag nd fd fl s))"

definition world_get :: "handle \<Rightarrow> 'w flag_world \<Rightarrow> (c_int \<times> 'w flag_world) option" where
  "world_get h = (\<lambda>(W, H, s). map_option (\<lambda>(r, s'). (r, W, H, s')) (get_osfhandle_oflag W h s))"

lemmas world_defs = world_inv_def world_owns_def world_has_def world_put_def world_get_def

lemma world_put_ok:
  assumes "world_inv x" and "unat fd < open_max"
  shows "\<exists>x'. world_put nd fd fl x = Some x' \<and> world_inv x' \<and> world_has x' fd (fl AND O_APPEND) \<and>
    (\<forall>fd h. world_owns x' fd h \<longleftrightarrow> world_owns x fd h)"
proof -
  obtain W H s where x: "x = (W, H, s)" by (cases x)
  then have inv: "handle_law W H" "cache_inv s" using assms(1) by (simp_all add: world_defs)
  obtain s' where s': "fd_cache_oflag nd fd fl s = Some s'" "fd_cache s' ! unat fd = fl AND O_APPEND"
      "sys s' = sys s" "unat fd < fd_cache_max_size s'"
    using fd_cache_oflag_returns [OF inv(2) assms(2)] by blast
  then show ?thesis
    using inv fd_cache_oflag_inv [OF inv(2) s'(1)] append_flag_not_negative [of fl]
    by (simp add: x world_defs has_flag_def sole_owner_def get_env_def)
qed

lemma world_get_ok:
  assumes "world_inv x" and "world_owns x fd h" and "world_has x fd fl"
  shows "\<exists>x'. world_get h x = Some (fl, x') \<and> world_inv x' \<and> world_has x' fd fl \<and> world_owns x' fd h"
proof -
  obtain W H s where x: "x = (W, H, s)" by (cases x)
  then have s: "handle_law W H" "cache_inv s" "sole_owner H s fd h" "has_flag s fd fl"
    using assms by (simp_all add: world_defs)
  obtain s' where s': "get_osfhandle_oflag W h s = Some (fl, s')" "evicted H s s'"
    using get_osfhandle_oflag_finds [OF s] by blast
  then show ?thesis
    using s(1) has_flag_evicted [OF s'(2) s(2-4)] by (simp add: x world_defs evicted_def)
qed

interpretation fl: flag_store world_inv "\<lambda>fd. unat fd < open_max" world_owns world_has
    "world_put nd" world_get for nd
  by unfold_locales (rule world_put_ok world_get_ok; assumption)+

section \<open>A concrete platform\<close>

text \<open>For the witnesses: the environment says which descriptors are open, and on which handle.\<close>

definition demo_win :: "(c_int \<Rightarrow> handle) win32" where
  "demo_win = null_win\<lparr>w_get_osfhandle := (\<lambda>fd y. (env y fd,
     if env y fd = INVALID_HANDLE_VALUE then y\<lparr>errno := EBADF\<rparr> else y))\<rparr>"

definition demo_proc :: "'w \<Rightarrow> 'w proc" where
  "demo_proc e = init_oflag_cache
     \<lparr>sys = \<lparr>errno = EOK, env = e, last_error = 0\<rparr>, fd_cache = [], fd_cache_max_size = 0\<rparr>"

lemma demo_handle_law: "handle_law demo_win id"
  by (simp add: handle_law_def demo_win_def)

lemma demo_cache_inv: "cache_inv (demo_proc e)"
  unfolding demo_proc_def by (rule cache_inv_init) simp

lemma demo_env [simp]: "get_env (demo_proc e) = e"
  by (simp add: demo_proc_def init_oflag_cache_def get_env_def)

definition demo_handles :: "c_int \<Rightarrow> handle" where
  "demo_handles = (\<lambda>fd. if fd = 5 then 77 else INVALID_HANDLE_VALUE)"

lemma demo_sole_owner: "sole_owner id (demo_proc demo_handles) 5 77"
proof -
  have "of_nat n = (5 :: c_int) \<longleftrightarrow> n = 5" if "n < open_max" for n
    using that unat_of_nat [of n, where 'a = 32] by (auto simp: open_max_def)
  then show ?thesis by (simp add: sole_owner_def demo_handles_def)
qed

section \<open>Properties\<close>

text \<open>
  Property C3. The flag cache gives back what was stored: after \<open>__fd_cache_oflag (fd, oflag)\<close>
  on a descriptor in range, in either build, a lookup by the handle of that descriptor returns
  the append bit of \<open>oflag\<close>, whatever else is cached, as long as no other descriptor has the
  handle; both calls keep the invariant of the table, dropping entries of closed descriptors on
  the way.
\<close>

theorem oflag_cache_correct:
  assumes "handle_law W H" and "cache_inv s" and "unat fd < open_max" and "sole_owner H s fd h"
  shows "\<exists>s' s''. fd_cache_oflag nd fd oflag s = Some s' \<and> cache_inv s' \<and>
    get_osfhandle_oflag W h s' = Some (oflag AND O_APPEND, s'') \<and> cache_inv s''"
proof -
  obtain x' x'' where x: "world_put nd fd oflag (W, H, s) = Some x'" "world_inv x''"
      "world_get h x' = Some (oflag AND O_APPEND, x'')"
    using fl.get_after_put [of "(W, H, s)" fd h nd oflag] assms by (auto simp: world_defs)
  then show ?thesis
    using fd_cache_oflag_inv [OF assms(2)] by (auto simp: world_defs)
qed

theorem oflag_cache_correct_witness:
  "\<exists>s' s''. fd_cache_oflag True 5 (O_WRONLY OR O_APPEND) (demo_proc demo_handles) = Some s' \<and>
     get_osfhandle_oflag demo_win 77 s' = Some (O_APPEND, s'')"
  using oflag_cache_correct [OF demo_handle_law demo_cache_inv _ demo_sole_owner,
      where nd = True and oflag = "O_WRONLY OR O_APPEND"]
  by (auto simp: open_max_def)

end
