(* ===== verification/FdPath.thy ===== *)
theory FdPath
  imports OflagCache
begin

text \<open>
  Descriptors, handles and paths in \<open>libc-compat/winsup/internal/fd.c\<close>: \<open>__fd_get_path\<close> asks
  Windows for the path of a descriptor and strips the prefix of extended paths in place;
  \<open>__open_dir_fd\<close> and \<open>__open_symlink_fd\<close> open what the C runtime refuses to open.

  The path buffer is the list of its characters, terminator and rest included; \<open>memmove\<close>, the
  store of the terminator and \<open>strlen\<close> have no result when they leave the buffer.
\<close>

section \<open>The path of a descriptor\<close>

abbreviation NUL :: char where "NUL \<equiv> CHR 0x00"
abbreviation BACKSLASH :: char where "BACKSLASH \<equiv> CHR 0x5C"

definition ext_prefix :: string where
  "ext_prefix = [BACKSLASH, BACKSLASH, CHR ''?'', BACKSLASH]"

definition unc_prefix :: string where
  "unc_prefix = ext_prefix @ ''UNC'' @ [BACKSLASH]"

definition c_string :: "string \<Rightarrow> string option" where
  "c_string buf = (if NUL \<in> set buf then Some (takeWhile (\<lambda>c. c \<noteq> NUL) buf) else None)"

definition memmove :: "string \<Rightarrow> nat \<Rightarrow> nat \<Rightarrow> nat \<Rightarrow> string option" where
  "memmove buf dst src n =
     (if dst + n \<le> length buf \<and> src + n \<le> length buf
      then Some (take dst buf @ take n (drop src buf) @ drop (dst + n) buf) else None)"

definition put_nul :: "string \<Rightarrow> nat \<Rightarrow> string option" where
  "put_nul buf i = (if i < length buf then Some (buf[i := NUL]) else None)"

text \<open>Lines 67 to 78.\<close>

definition strip_prefix :: "string \<Rightarrow> string option" where
  "strip_prefix buf = do {
     str \<leftarrow> c_string buf;
     let buf_len = length str;
     if take 8 buf = unc_prefix then do {
       let path_len = buf_len - 8;
       buf \<leftarrow> memmove buf 2 8 path_len;
       put_nul buf (path_len + 2)
     } else if take 4 buf = ext_prefix then do {
       let path_len = buf_len - 4;
       buf \<leftarrow> memmove buf 0 4 path_len;
       put_nul buf path_len
     } else Some buf
   }"

definition fd_get_path :: "'w win32 \<Rightarrow> c_int \<Rightarrow> 'w proc \<Rightarrow> ('w, string option) res" where
  "fd_get_path W fd s =
     (let (h, s) = syscall (w_get_osfhandle W fd) s in
      if h = INVALID_HANDLE_VALUE then Some (None, set_last_error ERROR_INVALID_HANDLE s)
      else
        (let (ok, s) = syscall (w_malloc W PATH_MAX) s in
         if \<not> ok then Some (None, s)
         else
           (let ((n, buf), s) = syscall (w_GetFinalPathNameByHandle W h PATH_MAX) s in
            if n = 0 then Some (None, s)
            else do { buf \<leftarrow> strip_prefix buf; path \<leftarrow> c_string buf; Some (Some path, s) })))"

section \<open>Opening directories and links\<close>

definition open_handle_fd ::
  "'w win32 \<Rightarrow> string \<Rightarrow> dword \<Rightarrow> dword \<Rightarrow> c_int \<Rightarrow> dword \<Rightarrow> 'w proc \<Rightarrow> c_int \<times> 'w proc" where
  "open_handle_fd W path acc share_mode flags attrs s =
     (let (h, s) = syscall (w_CreateFile W path acc share_mode OPEN_EXISTING attrs) s in
      if h = INVALID_HANDLE_VALUE then (- 1, s)
      else
        (let (fd, s) = syscall (w_open_osfhandle W h flags) s in
         if fd <s 0 then
           (let s = set_last_error ERROR_INVALID_PARAMETER s;
                (_, s) = syscall (w_CloseHandle W h) s
            in (- 1, s))
         else (fd, s)))"

definition open_dir_fd ::
  "'w win32 \<Rightarrow> string \<Rightarrow> dword \<Rightarrow> dword \<Rightarrow> c_int \<Rightarrow> 'w proc \<Rightarrow> c_int \<times> 'w proc" where
  "open_dir_fd W path acc share_mode flags s =
     open_handle_fd W path acc share_mode flags FILE_FLAG_BACKUP_SEMANTICS s"

definition open_symlink_fd ::
  "'w win32 \<Rightarrow> string \<Rightarrow> dword \<Rightarrow> dword \<Rightarrow> c_int \<Rightarrow> 'w proc \<Rightarrow> c_int \<times> 'w proc" where
  "open_symlink_fd W path acc share_mode flags s =
     open_handle_fd W path acc share_mode flags
       (FILE_FLAG_OPEN_REPARSE_POINT OR FILE_FLAG_BACKUP_SEMANTICS) s"

section \<open>Stripping in place\<close>

text \<open>The path that a user would write for the path Windows reports.\<close>

definition display_path :: "string \<Rightarrow> string" where
  "display_path p =
     (if take 8 p = unc_prefix then [BACKSLASH, BACKSLASH] @ drop 8 p
      else if take 4 p = ext_prefix then drop 4 p else p)"

lemma c_string_append: "NUL \<notin> set p \<Longrightarrow> c_string (p @ NUL # r) = Some p"
  by (simp add: c_string_def)

lemma length_prefixes [simp]: "length ext_prefix = 4" "length unc_prefix = 8"
  by (simp_all add: ext_prefix_def unc_prefix_def)

lemma take_prefix_conv:
  "length q = n \<Longrightarrow> take n xs = q \<longleftrightarrow> (\<exists>ys. xs = q @ ys)"
  by (metis append_eq_conv_conj append_take_drop_id)

lemma NUL_notin_prefixes [simp]: "NUL \<notin> set ext_prefix" "NUL \<notin> set unc_prefix"
  by (simp_all add: ext_prefix_def unc_prefix_def)

lemma prefix_before_nul:
  assumes "NUL \<notin> set q" and "NUL \<notin> set p"
  shows "take (length q) (p @ NUL # r) = q \<longleftrightarrow> take (length q) p = q"
proof
  assume l: "take (length q) (p @ NUL # r) = q"
  have "length q \<le> length p"
  proof (rule ccontr)
    assume "\<not> length q \<le> length p"
    then obtain k where "length q = Suc (length p + k)" by (metis less_imp_Suc_add not_le)
    then have "NUL \<in> set (take (length q) (p @ NUL # r))" by simp
    with l assms(1) show False by simp
  qed
  with l show "take (length q) p = q" by simp
next
  assume "take (length q) p = q"
  moreover from this have "length q \<le> length p" by (metis length_take min.absorb_iff2 min.commute)
  ultimately show "take (length q) (p @ NUL # r) = q" by simp
qed

lemma memmove_down:
  "dst \<le> src \<Longrightarrow> src \<le> length p \<Longrightarrow> memmove (p @ r) dst src (length p - src) =
     Some (take dst p @ drop src p @ drop (dst + (length p - src)) (p @ r))"
  by (simp add: memmove_def)

lemma put_nul_after: "put_nul (q @ x # r) (length q) = Some (q @ NUL # r)"
  by (simp add: put_nul_def)

text \<open>Moving the tail of a terminated string down and terminating it anew.\<close>

lemma move_tail:
  assumes "dst \<le> src" and "src \<le> length p"
  shows "\<exists>r'. (memmove (p @ NUL # r) dst src (length p - src) \<bind>
    (\<lambda>buf. put_nul buf (length p - src + dst))) = Some (take dst p @ drop src p @ NUL # r')"
proof -
  let ?k = "dst + (length p - src)"
  have "?k < length (p @ NUL # r)" using assms by simp
  then obtain x r' where r': "drop ?k (p @ NUL # r) = x # r'"
    by (metis Cons_nth_drop_Suc)
  have "length (take dst p @ drop src p) = length p - src + dst" using assms by simp
  then have "put_nul ((take dst p @ drop src p) @ x # r') (length p - src + dst) =
      Some ((take dst p @ drop src p) @ NUL # r')"
    using put_nul_after by metis
  moreover have "memmove (p @ NUL # r) dst src (length p - src) =
      Some ((take dst p @ drop src p) @ x # r')"
    using memmove_down [OF assms, of "NUL # r"] unfolding r' by (simp only: append_assoc)
  ultimately show ?thesis by simp
qed

lemma strip_prefix_correct:
  assumes p: "NUL \<notin> set p"
  shows "\<exists>buf. strip_prefix (p @ NUL # r) = Some buf \<and> c_string buf = Some (display_path p)"
proof -
  have len: "take 8 p = unc_prefix \<Longrightarrow> 8 \<le> length p" "take 4 p = ext_prefix \<Longrightarrow> 4 \<le> length p"
    by (metis length_prefixes length_take min.absorb_iff2 min.commute)+
  define B where "B = p @ NUL # r"
  have str: "c_string B = Some p" unfolding B_def by (rule c_string_append [OF p])
  have unc: "take 8 B = unc_prefix \<longleftrightarrow> take 8 p = unc_prefix"
    and ext: "take 4 B = ext_prefix \<longleftrightarrow> take 4 p = ext_prefix"
    using prefix_before_nul [OF _ p, of unc_prefix] prefix_before_nul [OF _ p, of ext_prefix]
    unfolding B_def by simp_all
  have nul: "c_string ((take n p @ drop m p) @ NUL # r') = Some (take n p @ drop m p)" for n m r'
    using p by (intro c_string_append) (auto dest: in_set_takeD in_set_dropD)
  consider "take 8 p = unc_prefix" | "take 8 p \<noteq> unc_prefix" "take 4 p = ext_prefix"
    | "take 8 p \<noteq> unc_prefix" "take 4 p \<noteq> ext_prefix" by blast
  then show ?thesis
    unfolding B_def [symmetric]
  proof cases
    case 1
    have "take 2 p = take 2 (take 8 p)" by simp
    also have "\<dots> = [BACKSLASH, BACKSLASH]" by (simp only: 1) (simp add: unc_prefix_def ext_prefix_def)
    finally have "take 2 p = [BACKSLASH, BACKSLASH]" .
    moreover obtain r' where "(memmove B 2 8 (length p - 8) \<bind> (\<lambda>buf. put_nul buf (length p - 8 + 2))) =
        Some (take 2 p @ drop 8 p @ NUL # r')"
      using move_tail [of 2 8 p r] len(1) [OF 1] unfolding B_def by auto
    then have "strip_prefix B = Some (take 2 p @ drop 8 p @ NUL # r')"
      using 1 by (simp add: strip_prefix_def str unc Let_def)
    ultimately show "\<exists>buf. strip_prefix B = Some buf \<and> c_string buf = Some (display_path p)"
      using nul [of 2 8 r'] 1 by (simp add: display_path_def)
  next
    case 2
    obtain r' where "(memmove B 0 4 (length p - 4) \<bind> (\<lambda>buf. put_nul buf (length p - 4 + 0))) =
        Some (take 0 p @ drop 4 p @ NUL # r')"
      using move_tail [of 0 4 p r] len(2) [OF 2(2)] unfolding B_def by auto
    then have "strip_prefix B = Some (take 0 p @ drop 4 p @ NUL # r')"
      using 2 by (simp add: strip_prefix_def str unc ext Let_def)
    then show "\<exists>buf. strip_prefix B = Some buf \<and> c_string buf = Some (display_path p)"
      using nul [of 0 4 r'] 2 by (simp add: display_path_def)
  next
    case 3
    then have "strip_prefix B = Some B" by (simp add: strip_prefix_def str unc ext Let_def)
    with 3 str show "\<exists>buf. strip_prefix B = Some buf \<and> c_string buf = Some (display_path p)"
      by (simp add: display_path_def)
  qed
qed

lemma fd_get_path_steps:
  assumes "syscall (w_get_osfhandle W fd) s = (h, s1)" and "h \<noteq> INVALID_HANDLE_VALUE"
    and "syscall (w_malloc W PATH_MAX) s1 = (True, s2)"
    and "syscall (w_GetFinalPathNameByHandle W h PATH_MAX) s2 = ((n, p @ NUL # r), s3)"
    and "n \<noteq> 0" and "NUL \<notin> set p"
  shows "fd_get_path W fd s = Some (Some (display_path p), s3)"
  using assms strip_prefix_correct [OF assms(6), of r] by (auto simp: fd_get_path_def)

section \<open>Properties\<close>

text \<open>
  Property C9. \<open>__fd_get_path\<close> on an open descriptor: when Windows stores the terminated
  path \<open>p\<close> in the buffer, the result is \<open>p\<close> as a user writes it: for a path on a share,
  \<open>UNC\<close> prefix included, the two backslashes and the rest, for another extended path what
  follows the prefix, and otherwise \<open>p\<close> itself. The moves stay within the buffer and the
  result is terminated, whatever else the buffer holds.
\<close>

theorem fd_get_path_correct:
  assumes "syscall (w_get_osfhandle W fd) s = (h, s1)" and "h \<noteq> INVALID_HANDLE_VALUE"
    and "syscall (w_malloc W PATH_MAX) s1 = (True, s2)"
    and "syscall (w_GetFinalPathNameByHandle W h PATH_MAX) s2 = ((n, p @ NUL # r), s3)"
    and "n \<noteq> 0" and "NUL \<notin> set p"
  shows "fd_get_path W fd s = Some (Some (display_path p), s3)"
  by (rule fd_get_path_steps [OF assms])

section \<open>Bounds of paths\<close>

lemma c_string_length: "c_string buf = Some p \<Longrightarrow> length p < length buf \<and> NUL \<notin> set p"
proof -
  assume "c_string buf = Some p"
  then have p: "p = takeWhile (\<lambda>c. c \<noteq> NUL) buf" and nul: "NUL \<in> set buf"
    by (auto simp: c_string_def split: if_splits)
  have "NUL \<notin> set p" unfolding p by (auto dest: set_takeWhileD)
  moreover have "length p \<noteq> length buf"
    using nul calculation unfolding p by (metis takeWhile_eq_all_conv length_takeWhile_le
        takeWhile_eq_take take_all_iff order_refl)
  ultimately show ?thesis unfolding p using length_takeWhile_le by (metis le_neq_implies_less)
qed

lemma strip_prefix_length: "strip_prefix buf = Some buf' \<Longrightarrow> length buf' = length buf"
  by (auto simp: strip_prefix_def memmove_def put_nul_def Let_def split: if_splits)

text \<open>The buffer that \<open>GetFinalPathNameByHandle\<close> has filled is the one it was given.\<close>

definition final_path_law :: "'w win32 \<Rightarrow> bool" where
  "final_path_law W \<longleftrightarrow> (\<forall>h y. length (snd (fst (w_GetFinalPathNameByHandle W h PATH_MAX y))) = PATH_MAX)"

lemma final_path_lawD:
  "final_path_law W \<Longrightarrow> syscall (w_GetFinalPathNameByHandle W h PATH_MAX) s = ((k, buf), s') \<Longrightarrow> length buf = PATH_MAX"
  unfolding final_path_law_def syscall_def by (auto split: prod.splits) (metis fst_conv snd_conv)

lemma fd_get_path_length:
  assumes "final_path_law W" and "fd_get_path W fd s = Some (Some p, s')"
  shows "length p < PATH_MAX \<and> NUL \<notin> set p"
proof -
  obtain h k buf buf' s1 s2 where "syscall (w_GetFinalPathNameByHandle W h PATH_MAX) s1 = ((k, buf), s2)"
      "strip_prefix buf = Some buf'" "c_string buf' = Some p"
    using assms(2) by (auto simp: fd_get_path_def Let_def call_eq split: if_splits)
  then show ?thesis
    using final_path_lawD [OF assms(1)] strip_prefix_length c_string_length by metis
qed

section \<open>Witnesses\<close>

definition demo_unc :: string where
  "demo_unc = unc_prefix @ ''host'' @ [BACKSLASH] @ ''share''"

definition demo_path_win :: "unit win32" where
  "demo_path_win = null_win\<lparr>
     w_get_osfhandle := (\<lambda>fd y. (77, y)),
     w_malloc := (\<lambda>n y. (True, y)),
     w_GetFinalPathNameByHandle := (\<lambda>h n y. ((18, demo_unc @ NUL # replicate 241 (CHR ''z'')), y))\<rparr>"

theorem fd_get_path_correct_witness:
  "fd_get_path demo_path_win 3 (demo_proc ()) =
     Some (Some ([BACKSLASH, BACKSLASH] @ ''host'' @ [BACKSLASH] @ ''share''), demo_proc ())"
proof -
  have "display_path demo_unc = [BACKSLASH, BACKSLASH] @ ''host'' @ [BACKSLASH] @ ''share''"
    by (simp add: display_path_def demo_unc_def)
  moreover have "fd_get_path demo_path_win 3 (demo_proc ()) = Some (Some (display_path demo_unc), demo_proc ())"
    by (rule fd_get_path_correct [where h = 77 and n = 18 and ?s1.0 = "demo_proc ()"
          and ?s2.0 = "demo_proc ()" and r = "replicate 241 (CHR ''z'')"])
      (simp_all add: demo_path_win_def syscall_def demo_unc_def unc_prefix_def ext_prefix_def)
  ultimately show ?thesis by simp
qed

end
