(* ===== verification/Link.thy ===== *)
theory Link
  imports FdPath
begin

text \<open>
  \<open>libc-compat/winsup/link.c\<close>: \<open>readlink\<close>, \<open>link\<close> and \<open>symlink\<close>.

  The reparse data is a \<^typ>\<open>reparse_data\<close>: offsets and lengths count bytes, as in Windows, and
  \<open>rd_path\<close> is everything from the path buffer to the end of the allocated block. Reading past
  that end has no result.
\<close>

section \<open>readlink\<close>

text \<open>Lines 81 to 96: the name the link shows, or else the one Windows follows.\<close>

definition link_name :: "reparse_data \<Rightarrow> (nat \<times> nat) option" where
  "link_name rd =
     (if rd_print_len rd \<noteq> 0 then Some (rd_print_off rd, rd_print_len rd)
      else if rd_subst_len rd \<noteq> 0 then Some (rd_subst_off rd, rd_subst_len rd)
      else None)"

definition wide_range :: "wchar list \<Rightarrow> nat \<Rightarrow> nat \<Rightarrow> wchar list option" where
  "wide_range ws off n = (if off + n \<le> length ws then Some (take n (drop off ws)) else None)"

text \<open>
  The result is that of the call and what it has stored in \<open>buf\<close>. \<open>CloseHandle\<close> at the end
  closes the handle only, the descriptor stays open in the C runtime.
\<close>

definition readlink :: "bool \<Rightarrow> 'w win32 \<Rightarrow> string \<Rightarrow> size_t \<Rightarrow> 'w proc \<Rightarrow> ('w, ssize_t \<times> string) res" where
  "readlink nd W path len s =
     (if \<not> len > 0 then Some ((- 1, []), set_errno EINVAL s)
      else
        (let (fd, s) = open_symlink_fd W path GENERIC_READ FILE_SHARE_VALID_FLAGS 0 s in
         if fd <s 0 then Some ((- 1, []), set_errno_via_winerr (get_last_error s) s)
         else
           (let (h, s) = syscall (w_get_osfhandle W fd) s in
            if h = INVALID_HANDLE_VALUE then
              (let (_, s) = syscall (w_close W fd) s in Some ((- 1, []), s))
            else
              (let (ok, s) = syscall (w_malloc W MAXIMUM_REPARSE_DATA_BUFFER_SIZE) s in
               if \<not> ok then (let (_, s) = syscall (w_CloseHandle W h) s in Some ((- 1, []), s))
               else
                 (case syscall (w_DeviceIoControl W h) s of
                    (None, s) \<Rightarrow>
                      (let s = set_errno_via_winerr (get_last_error s) s;
                           (_, s) = syscall (w_CloseHandle W h) s
                       in Some ((- 1, []), s))
                  | (Some rd, s) \<Rightarrow>
                      if rd_tag rd \<noteq> IO_REPARSE_TAG_SYMLINK then
                        (let s = set_errno EINVAL s;
                             (_, s) = syscall (w_CloseHandle W h) s
                         in Some ((- 1, []), s))
                      else
                        (case link_name rd of
                           None \<Rightarrow> c_assert nd False \<bind> (\<lambda>_. Some ((- 1, []), s))
                         | Some (ws_off, ws_len) \<Rightarrow> do {
                             ws \<leftarrow> wide_range (rd_path rd) (ws_off div 2) (ws_len + 1);
                             let ((chars, out), s) = syscall (w_WideCharToMultiByte W ws (ucast len)) s;
                             if chars = 0 then None
                             else
                               (let (_, s) = syscall (w_CloseHandle W h) s
                                in Some ((scast (chars - 1), out), s))
                           }))))))"

section \<open>link and symlink\<close>

definition link :: "'w win32 \<Rightarrow> string \<Rightarrow> string \<Rightarrow> 'w proc \<Rightarrow> c_int \<times> 'w proc" where
  "link W path1 path2 s =
     (let ((r, buf), s) = syscall (w_stat W path1) s in
      if r <s 0 then (- 1, s)
      else if S_ISDIR (st_mode buf) then (- 1, set_errno EPERM s)
      else
        (let (ok, s) = syscall (w_CreateHardLink W path2 path1) s in
         if \<not> ok then (- 1, set_errno_via_winerr (get_last_error s) s) else (0, s)))"

definition symlink :: "'w win32 \<Rightarrow> string \<Rightarrow> string \<Rightarrow> 'w proc \<Rightarrow> c_int \<times> 'w proc" where
  "symlink W name1 name2 s =
     (let flags = SYMBOLIC_LINK_FLAG_ALLOW_UNPRIVILEGED_CREATE;
          ((r, buf), s) = syscall (w_stat W name1) s;
          flags = (if \<not> r <s 0 \<and> S_ISDIR (st_mode buf)
            then flags OR SYMBOLIC_LINK_FLAG_DIRECTORY else flags);
          (ok, s) = syscall (w_CreateSymbolicLink W name2 name1 flags) s
      in if \<not> ok then (- 1, set_errno_via_winerr (get_last_error s) s) else (0, s))"

section \<open>A link that is there\<close>

text \<open>
  The calls of \<open>readlink\<close> up to the reparse data have succeeded: \<open>fd\<close> and \<open>h\<close> are the
  descriptor and the handle of the link, \<open>s1\<close> is the state after \<open>DeviceIoControl\<close> with
  result \<open>r\<close>.
\<close>

definition opened_link ::
  "'w win32 \<Rightarrow> string \<Rightarrow> handle \<Rightarrow> reparse_data option \<Rightarrow> 'w proc \<Rightarrow> 'w proc \<Rightarrow> bool" where
  "opened_link W path h r s s' \<longleftrightarrow>
     (\<exists>fd s1 s2 s3. open_symlink_fd W path GENERIC_READ FILE_SHARE_VALID_FLAGS 0 s = (fd, s1) \<and>
        \<not> fd <s 0 \<and> syscall (w_get_osfhandle W fd) s1 = (h, s2) \<and> h \<noteq> INVALID_HANDLE_VALUE \<and>
        syscall (w_malloc W MAXIMUM_REPARSE_DATA_BUFFER_SIZE) s2 = (True, s3) \<and>
        syscall (w_DeviceIoControl W h) s3 = (r, s'))"

lemma readlink_no_data:
  assumes "opened_link W path h None s s'" and "len > 0"
  shows "readlink nd W path len s = Some ((- 1, []),
    snd (syscall (w_CloseHandle W h) (set_errno_via_winerr (get_last_error s') s')))"
  using assms unfolding opened_link_def readlink_def
  by (auto simp: word_greater_zero_iff split: prod.splits)

lemma readlink_data:
  assumes "opened_link W path h (Some rd) s s'" and "len > 0"
    and "rd_tag rd = IO_REPARSE_TAG_SYMLINK" and "link_name rd = Some (off, n)"
    and "off div 2 + (n + 1) \<le> length (rd_path rd)"
    and "syscall (w_WideCharToMultiByte W (take (n + 1) (drop (off div 2) (rd_path rd))) (ucast len)) s' =
      ((chars, out), s2)"
  shows "readlink nd W path len s = (if chars = 0 then None
    else Some ((scast (chars - 1), out), snd (syscall (w_CloseHandle W h) s2)))"
  using assms unfolding opened_link_def readlink_def
  by (auto simp: word_greater_zero_iff wide_range_def split: prod.splits)

section \<open>Conversion of names\<close>

text \<open>
  What \<open>WideCharToMultiByte\<close> documents for characters that take one byte in every code page and
  an output buffer that is there (for a size of 0 the call only computes the size it needs): it writes
  one byte for each, or returns 0 if the buffer is too small for all of them, and then says nothing of
  the contents of the buffer.
\<close>

definition narrow :: "wchar list \<Rightarrow> string" where
  "narrow ws = map (\<lambda>w. char_of (unat w)) ws"

definition ascii_law :: "'w win32 \<Rightarrow> bool" where
  "ascii_law W \<longleftrightarrow> (\<forall>ws cap y chars out y'. ws \<noteq> [] \<longrightarrow> (\<forall>w \<in> set ws. unat w < 128) \<longrightarrow> 0 <s cap \<longrightarrow>
     w_WideCharToMultiByte W ws cap y = ((chars, out), y') \<longrightarrow>
     (if int (length ws) \<le> sint cap then chars = of_nat (length ws) \<and> out = narrow ws else chars = 0))"

lemma ascii_lawD:
  assumes "ascii_law W" and "ws \<noteq> []" and "\<forall>w \<in> set ws. unat w < 128" and "0 <s cap"
    and "syscall (w_WideCharToMultiByte W ws cap) s = ((chars, out), s')"
  shows "if int (length ws) \<le> sint cap then chars = of_nat (length ws) \<and> out = narrow ws else chars = 0"
proof -
  obtain y' where "w_WideCharToMultiByte W ws cap (sys s) = ((chars, out), y')"
    using assms(5) by (auto simp: syscall_def split: prod.splits)
  then show ?thesis using assms(1-4) unfolding ascii_law_def by blast
qed

lemma sint_ucast_small:
  assumes "len < 2 ^ 31"
  shows "sint (ucast (len :: size_t) :: c_int) = int (unat len)"
proof -
  have "unat len < 2 ^ 31" using assms by (simp add: word_less_nat_alt)
  moreover from this have "unat (ucast len :: c_int) = unat len"
    by (simp add: unsigned_ucast_eq take_bit_nat_eq_self)
  ultimately show ?thesis using sint_small [of "ucast len"] by simp
qed

lemma scast_pred_small:
  assumes "k < 2 ^ 31"
  shows "scast ((of_nat (Suc k) :: c_int) - 1) = (of_nat k :: ssize_t)"
proof -
  have "unat (of_nat k :: c_int) = k" using assms by (simp add: unat_of_nat)
  then have "sint (of_nat k :: c_int) = int k" using sint_small [of "of_nat k"] assms by simp
  then show ?thesis by (simp add: signed_ucast_eq scast_eq)
qed

section \<open>Properties\<close>

text \<open>
  \<open>readlink\<close> on a file that is not a link: \<open>DeviceIoControl\<close> fails with
  \<open>ERROR_NOT_A_REPARSE_POINT\<close> (4390), which the error table does not map, so the call returns
  -1 with the undefined \<open>errno\<close> -1; \<open>EINVAL\<close>, which POSIX asks for and which the code sets for
  a reparse point of another kind, never appears.
\<close>

theorem readlink_not_a_link:
  assumes "opened_link W path h None s s'" and "len > 0" and "get_last_error s' = 4390"
    and "\<forall>y. errno (snd (w_CloseHandle W h y)) = errno y"
  shows "\<exists>s2. readlink nd W path len s = Some ((- 1, []), s2) \<and> get_errno s2 = EUNMAPPED"
proof -
  have "winerr_to_errno 4390 = EUNMAPPED" by (simp add: winerr_to_errno_def winerr_spec_def)
  moreover have "get_errno (snd (syscall (w_CloseHandle W h) t)) = get_errno t" for t
    using spec [OF assms(4), of "sys t"]
    by (cases "w_CloseHandle W h (sys t)") (simp add: syscall_def get_errno_def)
  ultimately show ?thesis
    using readlink_no_data [OF assms(1,2), of nd] assms(3) by (simp add: set_errno_via_winerr_spec)
qed

text \<open>
  Property C35. \<open>readlink\<close> on a link whose name has \<open>n\<close> one-byte characters: the length of
  the name is a number of bytes of UTF-16, but \<open>WideCharToMultiByte\<close> is given it as a number of
  characters, so the call converts \<open>2 * n + 1\<close> of them, \<open>n + 1\<close> behind the name, and returns
  \<open>2 * n\<close>; and if the caller's buffer has room for fewer than \<open>2 * n + 1\<close> bytes the
  process is aborted, in either build, where POSIX truncates.
\<close>

theorem readlink_reads_double:
  assumes "opened_link W path h (Some rd) s s'" and "rd_tag rd = IO_REPARSE_TAG_SYMLINK"
    and "ascii_law W" and "rd_print_len rd = 2 * n" and "n > 0"
    and "rd_print_off rd div 2 + (2 * n + 1) \<le> length (rd_path rd)"
    and "\<forall>w \<in> set (rd_path rd). unat w < 128" and "len > 0" and "len < 2 ^ 31"
  shows "\<exists>s2. readlink nd W path len s = (if 2 * n + 1 \<le> unat len
    then Some ((of_nat (2 * n), narrow (take (2 * n + 1) (drop (rd_print_off rd div 2) (rd_path rd)))), s2)
    else None)"
proof -
  let ?ws = "take (2 * n + 1) (drop (rd_print_off rd div 2) (rd_path rd))"
  have len: "length ?ws = 2 * n + 1" using assms(6) by simp
  have ascii: "\<forall>w \<in> set ?ws. unat w < 128" using assms(7) by (meson in_set_takeD in_set_dropD)
  obtain chars out s2 where conv: "syscall (w_WideCharToMultiByte W ?ws (ucast len)) s' = ((chars, out), s2)"
    by (metis surj_pair)
  have cap: "0 <s (ucast len :: c_int)"
    using assms(8) unfolding word_sless_alt sint_ucast_small [OF assms(9)] word_less_nat_alt
    by (simp only: unsigned_0 of_nat_0_less_iff signed_0)
  have fits: "int (2 * n + 1) \<le> sint (ucast len :: c_int) \<longleftrightarrow> 2 * n + 1 \<le> unat len"
    by (simp only: sint_ucast_small [OF assms(9)] of_nat_le_iff)
  have "?ws \<noteq> []" using len by (metis add_is_0 list.size(3) one_neq_zero)
  from ascii_lawD [OF assms(3) this ascii cap conv]
  have law: "if 2 * n + 1 \<le> unat len then chars = of_nat (2 * n + 1) \<and> out = narrow ?ws else chars = 0"
    unfolding len fits .
  have name: "link_name rd = Some (rd_print_off rd, 2 * n)" using assms(4,5) by (simp add: link_name_def)
  show ?thesis
  proof (cases "2 * n + 1 \<le> unat len")
    case True
    then have small: "2 * n + 1 < 2 ^ 31" using assms(9) by (simp add: word_less_nat_alt)
    then have "unat (of_nat (2 * n + 1) :: c_int) = 2 * n + 1" by (rule unat_of_nat_c_int)
    then have "(of_nat (2 * n + 1) :: c_int) \<noteq> 0" by (metis Suc_eq_plus1 Zero_not_Suc unat_0)
    then show ?thesis
      using readlink_data [OF assms(1,8,2) name assms(6) conv, of nd] law True
        scast_pred_small [of "2 * n"] small
      by auto
  next
    case False
    then show ?thesis
      using readlink_data [OF assms(1,8,2) name assms(6) conv, of nd] law by simp
  qed
qed

definition demo_link_win :: "reparse_data option \<Rightarrow> unit win32" where
  "demo_link_win r = null_win\<lparr>
     w_CreateFile := (\<lambda>p a m d f y. (77, y)),
     w_open_osfhandle := (\<lambda>h f y. (3, y)),
     w_get_osfhandle := (\<lambda>fd y. (77, y)),
     w_malloc := (\<lambda>n y. (True, y)),
     w_DeviceIoControl := (\<lambda>h y. (r, if r = None then y\<lparr>last_error := 4390\<rparr> else y)),
     w_WideCharToMultiByte := (\<lambda>ws cap y.
       (if int (length ws) \<le> sint cap then (of_nat (length ws), narrow ws) else (0, []), y))\<rparr>"

lemma demo_link_opened: "opened_link (demo_link_win r) path 77 r (demo_proc ())
    (if r = None then set_last_error 4390 (demo_proc ()) else demo_proc ())"
  unfolding opened_link_def
  by (intro exI [of _ 3] exI [of _ "demo_proc ()"])
    (simp add: demo_link_win_def open_symlink_fd_def open_handle_fd_def syscall_def set_last_error_def
      word_sless_alt)

theorem readlink_not_a_link_witness:
  "\<exists>s2. readlink True (demo_link_win None) ''file'' 100 (demo_proc ()) = Some ((- 1, []), s2) \<and>
     get_errno s2 = EUNMAPPED"
  by (rule readlink_not_a_link [OF demo_link_opened])
    (simp_all add: demo_link_win_def null_win_def word_greater_zero_iff)

text \<open>The link to \<open>ab\<close>, followed by zeros.\<close>

definition demo_reparse :: reparse_data where
  "demo_reparse = \<lparr>rd_tag = IO_REPARSE_TAG_SYMLINK, rd_print_off = 0, rd_print_len = 4,
     rd_subst_off = 0, rd_subst_len = 4, rd_path = [97, 98, 0, 0, 0, 0]\<rparr>"

theorem readlink_reads_double_witness:
  "\<exists>s2. readlink True (demo_link_win (Some demo_reparse)) ''l'' 100 (demo_proc ()) =
     Some ((4, narrow [97, 98, 0, 0, 0]), s2)"
proof -
  have "ascii_law (demo_link_win r)" for r by (simp add: ascii_law_def demo_link_win_def)
  from readlink_reads_double [OF demo_link_opened _ this, of demo_reparse 2 100 True "''l''"]
  show ?thesis
    by (simp add: demo_reparse_def word_greater_zero_iff word_less_nat_alt take_Cons')
qed

end
