(* ===== verification/Stat.thy ===== *)
theory Stat
  imports Link
begin

text \<open>
  \<open>libc-compat/winsup/stat.c\<close>: \<open>fstat\<close> on Windows handles, and \<open>lstat\<close>. The linker redirects
  every call of \<open>fstat\<close> to \<open>__wrap_fstat\<close>, which calls \<open>__wrap__fstat64\<close>.

  A call returns its result together with the contents of the caller's buffer. A \<open>char\<close> is
  signed, \<open>tolower\<close> is that of the C locale.
\<close>

section \<open>The suffix of a program\<close>

definition char_int :: "char \<Rightarrow> c_int" where
  "char_int c = scast (of_char c :: 8 word)"

definition tolower :: "c_int \<Rightarrow> c_int" where
  "tolower c = (if 65 \<le>s c \<and> c \<le>s 90 then c + 32 else c)"

definition suffix_hash :: "c_int \<Rightarrow> c_int \<Rightarrow> c_int \<Rightarrow> c_int" where
  "suffix_hash a b c = push_bit 2 a OR push_bit 1 b OR c"

abbreviation suffix_const :: "char \<Rightarrow> char \<Rightarrow> char \<Rightarrow> c_int" where
  "suffix_const a b c \<equiv> suffix_hash (char_int a) (char_int b) (char_int c)"

definition exec_suffix :: "string \<Rightarrow> bool" where
  "exec_suffix path =
     (let n = length path; lower = (\<lambda>i. tolower (char_int (path ! i))) in
      n \<ge> 4 \<and> path ! (n - 4) = CHR ''.'' \<and>
      suffix_hash (lower (n - 3)) (lower (n - 2)) (lower (n - 1)) \<in>
        {suffix_const CHR ''e'' CHR ''x'' CHR ''e'', suffix_const CHR ''b'' CHR ''a'' CHR ''t'',
         suffix_const CHR ''c'' CHR ''m'' CHR ''d'', suffix_const CHR ''c'' CHR ''o'' CHR ''m''})"

section \<open>fstat\<close>

text \<open>Lines 80 to 114: type, device, links and permissions.\<close>

definition stat_of_type :: "dword \<Rightarrow> c_int \<Rightarrow> file_info \<Rightarrow> string option \<Rightarrow> stat" where
  "stat_of_type type fd hfi path =
     (let buf =
        (if type = FILE_TYPE_CHAR then
           stat_zero\<lparr>st_mode := S_IFCHR, st_dev := fd, st_rdev := fd, st_nlink := 1\<rparr>
         else if type = FILE_TYPE_PIPE then
           stat_zero\<lparr>st_mode := S_IFIFO, st_dev := fd, st_rdev := fd, st_nlink := 1\<rparr>
         else
           stat_zero\<lparr>st_mode := S_IR_ALL OR
             (if fi_attributes hfi AND FILE_ATTRIBUTE_REPARSE_POINT \<noteq> 0 then S_IFLNK
              else if fi_attributes hfi AND FILE_ATTRIBUTE_DIRECTORY \<noteq> 0 then S_IFDIR OR S_IX_ALL
              else S_IFREG OR
                (case path of Some p \<Rightarrow> if exec_suffix p then S_IX_ALL else 0 | None \<Rightarrow> 0)),
             st_nlink := ucast (fi_links hfi)\<rparr>)
      in if fi_attributes hfi AND FILE_ATTRIBUTE_READONLY = 0
         then buf\<lparr>st_mode := st_mode buf OR S_IW_ALL\<rparr> else buf)"

definition rtl_seconds :: "'w win32 \<Rightarrow> 64 word \<Rightarrow> 64 word" where
  "rtl_seconds W t = (case w_RtlTimeToSecondsSince1970 W t of Some d \<Rightarrow> ucast d | None \<Rightarrow> 0)"

text \<open>Lines 116 to 125.\<close>

definition stat_size ::
  "bool \<Rightarrow> 'w win32 \<Rightarrow> file_info \<Rightarrow> string option \<Rightarrow> 'w proc \<Rightarrow> ('w, 64 word) res" where
  "stat_size nd W hfi path s =
     (if fi_attributes hfi AND FILE_ATTRIBUTE_REPARSE_POINT \<noteq> 0 then
        (case path of
           Some p \<Rightarrow> do {
             ((len, _), s) \<leftarrow> readlink nd W p (of_nat PATH_MAX) s;
             Some (if 0 <s len then len else 0, s)
           }
         | None \<Rightarrow> Some (0, s))
      else Some (push_bit 32 (ucast (fi_size_high hfi)) + ucast (fi_size_low hfi), s))"

definition fstat64 :: "bool \<Rightarrow> 'w win32 \<Rightarrow> c_int \<Rightarrow> stat \<Rightarrow> 'w proc \<Rightarrow> ('w, c_int \<times> stat) res" where
  "fstat64 nd W fd buf s =
     (let (h, s) = syscall (w_get_osfhandle W fd) s in
      if h = INVALID_HANDLE_VALUE then Some ((- 1, buf), s)
      else
        (case syscall (w_GetFileInformationByHandle W h) s of
           (None, s) \<Rightarrow> Some ((- 1, buf), set_errno_via_winerr (get_last_error s) s)
         | (Some hfi, s) \<Rightarrow> do {
             (path, s) \<leftarrow> fd_get_path W fd s;
             let (type, s) = syscall (w_GetFileType W h) s;
             if type = FILE_TYPE_UNKNOWN then
               (let winerr = get_last_error s in
                Some ((- 1, stat_zero),
                  if winerr = 0 then set_errno ENOENT s else set_errno_via_winerr winerr s))
             else do {
               (size, s) \<leftarrow> stat_size nd W hfi path s;
               Some ((0, (stat_of_type type fd hfi path)\<lparr>st_size := size,
                  st_atime := rtl_seconds W (fi_atime hfi),
                  st_mtime := rtl_seconds W (fi_mtime hfi),
                  st_ctime := rtl_seconds W (fi_mtime hfi)\<rparr>), s)
             }
           }))"

definition fstat :: "bool \<Rightarrow> 'w win32 \<Rightarrow> c_int \<Rightarrow> stat \<Rightarrow> 'w proc \<Rightarrow> ('w, c_int \<times> stat) res" where
  "fstat nd W fd buf s = fstat64 nd W fd buf s"

definition lstat :: "bool \<Rightarrow> 'w win32 \<Rightarrow> string \<Rightarrow> stat \<Rightarrow> 'w proc \<Rightarrow> ('w, c_int \<times> stat) res" where
  "lstat nd W path buf s =
     (let (fd, s) = open_symlink_fd W path GENERIC_READ FILE_SHARE_VALID_FLAGS 0 s in
      if fd <s 0 then Some ((- 1, buf), set_errno_via_winerr (get_last_error s) s)
      else do {
        ((ret, buf), s) \<leftarrow> fstat nd W fd buf s;
        let (_, s) = syscall (w_close W fd) s;
        Some ((ret, buf), s)
      })"

section \<open>Properties\<close>

text \<open>The file type that the handle has.\<close>

definition file_kind :: "dword \<Rightarrow> file_info \<Rightarrow> mode_t" where
  "file_kind type hfi =
     (if type = FILE_TYPE_CHAR then S_IFCHR else if type = FILE_TYPE_PIPE then S_IFIFO
      else if fi_attributes hfi AND FILE_ATTRIBUTE_REPARSE_POINT \<noteq> 0 then S_IFLNK
      else if fi_attributes hfi AND FILE_ATTRIBUTE_DIRECTORY \<noteq> 0 then S_IFDIR else S_IFREG)"

lemma stat_of_type_mode:
  "st_mode (stat_of_type type fd hfi path) AND S_IFMT = file_kind type hfi \<and>
   st_mode (stat_of_type type fd hfi path) AND S_IW_ALL =
     (if fi_attributes hfi AND FILE_ATTRIBUTE_READONLY = 0 then S_IW_ALL else 0) \<and>
   st_mode (stat_of_type type fd hfi path) AND S_IX_ALL =
     (if file_kind type hfi = S_IFDIR \<or>
        file_kind type hfi = S_IFREG \<and> (\<exists>p. path = Some p \<and> exec_suffix p) then S_IX_ALL else 0)"
  by (auto simp: stat_of_type_def file_kind_def Let_def stat_zero_def split: option.splits)

text \<open>
  Property C19. What \<open>fstat\<close> stores for a handle that Windows can describe: the call succeeds,
  the file type is exactly one of character device, pipe, link, directory and regular file,
  decided by the kind of the handle and then by the attributes, the reparse point first; the
  write bits are those of the read-only attribute; the execute bits are set for directories
  and for regular files with a program's suffix; and a file that is no link has its 64-bit size.
\<close>

theorem fstat_describes:
  assumes "syscall (w_get_osfhandle W fd) s = (h, s1)" and "h \<noteq> INVALID_HANDLE_VALUE"
    and "syscall (w_GetFileInformationByHandle W h) s1 = (Some hfi, s2)"
    and "fd_get_path W fd s2 = Some (path, s3)"
    and "syscall (w_GetFileType W h) s3 = (type, s4)" and "type \<noteq> FILE_TYPE_UNKNOWN"
    and "fstat nd W fd buf0 s = Some ((ret, buf), s')"
  shows "ret = 0 \<and> st_mode buf AND S_IFMT = file_kind type hfi \<and>
    (st_mode buf AND S_IW_ALL = (if fi_attributes hfi AND FILE_ATTRIBUTE_READONLY = 0 then S_IW_ALL else 0)) \<and>
    (st_mode buf AND S_IX_ALL = (if file_kind type hfi = S_IFDIR \<or>
       file_kind type hfi = S_IFREG \<and> (\<exists>p. path = Some p \<and> exec_suffix p) then S_IX_ALL else 0)) \<and>
    (fi_attributes hfi AND FILE_ATTRIBUTE_REPARSE_POINT = 0 \<longrightarrow>
       st_size buf = push_bit 32 (ucast (fi_size_high hfi)) + ucast (fi_size_low hfi))"
proof -
  obtain size where "ret = 0" and buf: "buf = (stat_of_type type fd hfi path)\<lparr>st_size := size,
      st_atime := rtl_seconds W (fi_atime hfi), st_mtime := rtl_seconds W (fi_mtime hfi),
      st_ctime := rtl_seconds W (fi_mtime hfi)\<rparr>" and "stat_size nd W hfi path s4 = Some (size, s')"
    using assms by (auto simp: fstat_def fstat64_def)
  then show ?thesis
    using stat_of_type_mode [of type fd hfi path] by (auto simp: stat_size_def)
qed

section \<open>Types of files\<close>

text \<open>The modes a file can have: two for devices and pipes, two for links and directories, four for files.\<close>

definition known_modes :: "mode_t set" where
  "known_modes =
     {S_IFCHR, S_IFCHR OR S_IW_ALL, S_IFIFO, S_IFIFO OR S_IW_ALL,
      S_IFLNK OR S_IR_ALL, S_IFLNK OR S_IR_ALL OR S_IW_ALL,
      S_IFDIR OR S_IR_ALL OR S_IX_ALL, S_IFDIR OR S_IR_ALL OR S_IX_ALL OR S_IW_ALL,
      S_IFREG OR S_IR_ALL, S_IFREG OR S_IR_ALL OR S_IW_ALL,
      S_IFREG OR S_IR_ALL OR S_IX_ALL, S_IFREG OR S_IR_ALL OR S_IX_ALL OR S_IW_ALL}"

lemma stat_of_type_known: "st_mode (stat_of_type type fd hfi path) \<in> known_modes"
  by (auto simp: stat_of_type_def known_modes_def stat_zero_def Let_def split: option.splits)

lemma fstat_result:
  assumes "fstat nd W fd buf s = Some ((r, st), s')"
  shows "r = - 1 \<or> r = 0 \<and> st_mode st \<in> known_modes"
  using assms unfolding fstat_def fstat64_def
  by (auto simp: call_eq Let_def stat_of_type_known split: if_splits option.splits)

lemma lstat_result:
  assumes "lstat nd W path buf s = Some ((r, st), s')"
  shows "r = - 1 \<or> r = 0 \<and> st_mode st \<in> known_modes"
  using assms fstat_result unfolding lstat_def
  by (auto simp: call_eq Let_def split: if_splits) blast+

text \<open>
  Property C25. The type of the mode: on any platform, \<open>fstat\<close> and \<open>lstat\<close> return -1, or they
  return 0 and the mode they store is one of twelve: exactly one file type, no bit outside type
  and permissions, the three read bits, the three write bits and the three execute bits each
  all set or all clear, and execute bits only on directories and regular files.
\<close>

theorem stat_mode_known:
  assumes "fstat nd W fd buf s = Some ((r, st), s') \<or> lstat nd W path buf s = Some ((r, st), s')"
  shows "r = - 1 \<or> r = 0 \<and> st_mode st \<in> known_modes \<and>
    st_mode st AND S_IFMT \<in> {S_IFCHR, S_IFIFO, S_IFLNK, S_IFDIR, S_IFREG} \<and>
    st_mode st AND NOT (S_IFMT OR S_IR_ALL OR S_IW_ALL OR S_IX_ALL) = 0"
proof -
  have "r = - 1 \<or> r = 0 \<and> st_mode st \<in> known_modes"
    using assms fstat_result lstat_result by blast
  moreover have "m AND S_IFMT \<in> {S_IFCHR, S_IFIFO, S_IFLNK, S_IFDIR, S_IFREG} \<and>
      m AND NOT (S_IFMT OR S_IR_ALL OR S_IW_ALL OR S_IX_ALL) = 0" if "m \<in> known_modes" for m
    using that by (auto simp: known_modes_def)
  ultimately show ?thesis by blast
qed


text \<open>
  The suffix test accepts every program suffix after a dot, in upper or lower
  case, but it compares a hash of three shifted characters that are or-ed together, so it takes many
  other suffixes for programs: a boot image \<open>.img\<close>, and \<open>.bin\<close>, \<open>.png\<close> and
  \<open>.log\<close>, but not \<open>.txt\<close>.
\<close>

theorem exec_suffix_cases:
  "exec_suffix (p @ ''.exe'') \<and> exec_suffix (p @ ''.BAT'') \<and> exec_suffix (p @ ''.cmd'') \<and>
   exec_suffix (p @ ''.Com'') \<and> \<not> exec_suffix (p @ ''.txt'') \<and> exec_suffix (p @ ''.img'') \<and>
   exec_suffix (p @ ''.bin'') \<and> exec_suffix (p @ ''.png'') \<and> exec_suffix (p @ ''.log'')"
  by (simp add: exec_suffix_def nth_append suffix_hash_def tolower_def char_int_def
      word_sle_eq)

definition demo_info :: "dword \<Rightarrow> file_info" where
  "demo_info attrs = \<lparr>fi_attributes = attrs, fi_links = 1, fi_size_high = 1, fi_size_low = 5,
     fi_atime = 0, fi_mtime = 0\<rparr>"

definition demo_stat_win :: "unit win32" where
  "demo_stat_win = demo_path_win\<lparr>
     w_GetFileInformationByHandle := (\<lambda>h y. (Some (demo_info FILE_ATTRIBUTE_READONLY), y)),
     w_GetFileType := (\<lambda>h y. (FILE_TYPE_DISK, y))\<rparr>"

lemma demo_stat_path: "fd_get_path demo_stat_win 3 (demo_proc ()) =
    Some (Some (display_path demo_unc), demo_proc ())"
  by (rule fd_get_path_steps [where h = 77 and n = 18 and ?s1.0 = "demo_proc ()"
        and ?s2.0 = "demo_proc ()" and r = "replicate 241 (CHR ''z'')"])
    (simp_all add: demo_stat_win_def demo_path_win_def syscall_def demo_unc_def unc_prefix_def
      ext_prefix_def)

theorem fstat_describes_witness:
  "\<exists>buf s'. fstat True demo_stat_win 3 stat_zero (demo_proc ()) = Some ((0, buf), s') \<and>
     st_mode buf AND S_IFMT = S_IFREG \<and> st_mode buf AND S_IW_ALL = 0 \<and> st_size buf = 0x100000005"
proof -
  have calls: "syscall (w_get_osfhandle demo_stat_win 3) (demo_proc ()) = (77, demo_proc ())"
    "syscall (w_GetFileInformationByHandle demo_stat_win 77) (demo_proc ()) =
      (Some (demo_info FILE_ATTRIBUTE_READONLY), demo_proc ())"
    "syscall (w_GetFileType demo_stat_win 77) (demo_proc ()) = (FILE_TYPE_DISK, demo_proc ())"
    by (simp_all add: demo_stat_win_def demo_path_win_def syscall_def)
  then obtain ret buf s' where r: "fstat True demo_stat_win 3 stat_zero (demo_proc ()) = Some ((ret, buf), s')"
    by (simp add: fstat_def fstat64_def demo_stat_path stat_size_def demo_info_def)
  from fstat_describes [OF calls(1) _ calls(2) demo_stat_path calls(3) _ r] r show ?thesis
    by (simp add: file_kind_def demo_info_def)
qed

lemma demo_fstat: "\<exists>ret buf s'. fstat True demo_stat_win 3 stat_zero (demo_proc ()) = Some ((ret, buf), s') \<and> ret = 0"
proof -
  have calls: "syscall (w_get_osfhandle demo_stat_win 3) (demo_proc ()) = (77, demo_proc ())"
    "syscall (w_GetFileInformationByHandle demo_stat_win 77) (demo_proc ()) =
      (Some (demo_info FILE_ATTRIBUTE_READONLY), demo_proc ())"
    "syscall (w_GetFileType demo_stat_win 77) (demo_proc ()) = (FILE_TYPE_DISK, demo_proc ())"
    by (simp_all add: demo_stat_win_def demo_path_win_def syscall_def)
  then show ?thesis
    by (simp add: fstat_def fstat64_def demo_stat_path stat_size_def demo_info_def)
qed

theorem stat_mode_known_witness:
  "\<exists>st s'. fstat True demo_stat_win 3 stat_zero (demo_proc ()) = Some ((0, st), s') \<and> st_mode st \<in> known_modes"
proof -
  obtain st s' where r: "fstat True demo_stat_win 3 stat_zero (demo_proc ()) = Some ((0, st), s')"
    using demo_fstat by blast
  from stat_mode_known [OF disjI1 [OF r]] r show ?thesis by simp
qed

end
