(* ===== verification/PathAt.thy ===== *)
theory PathAt
  imports Stat
begin

text \<open>
  Paths relative to a directory descriptor, in \<open>libc-compat/winsup/internal/fd.c\<close>:
  \<open>__is_dirfd\<close> and \<open>__get_path_at\<close>, which all functions of \<open>at.c\<close> use.
\<close>

section \<open>Operations\<close>

definition is_dirfd :: "bool \<Rightarrow> 'w win32 \<Rightarrow> c_int \<Rightarrow> 'w proc \<Rightarrow> ('w, bool) res" where
  "is_dirfd nd W fd s = do {
     ((r, buf), s) \<leftarrow> fstat nd W fd (w_stack_stat W) s;
     if \<not> r <s 0 \<and> S_ISDIR (st_mode buf) then Some (True, s)
     else Some (False, set_errno ENOTDIR s)
   }"

text \<open>
  \<open>snprintf (buf, sz, ...)\<close> on a block of \<open>cap\<close> bytes stores at most \<open>sz - 1\<close> characters and
  a terminator; a store behind the block has no result.
\<close>

definition snprintf_join :: "nat \<Rightarrow> nat \<Rightarrow> string \<Rightarrow> string \<Rightarrow> string option" where
  "snprintf_join cap sz parent name =
     (let str = take (sz - 1) (parent @ ''/'' @ name)
      in if length str < cap then Some str else None)"

definition get_path_at ::
  "bool \<Rightarrow> 'w win32 \<Rightarrow> c_int \<Rightarrow> string \<Rightarrow> 'w proc \<Rightarrow> ('w, string option) res" where
  "get_path_at nd W dirfd name s = do {
     (dir, s) \<leftarrow> is_dirfd nd W dirfd s;
     if \<not> dir then Some (None, s)
     else do {
       (parent, s) \<leftarrow> fd_get_path W dirfd s;
       case parent of
         None \<Rightarrow> Some (None, set_errno_via_winerr (get_last_error s) s)
       | Some parent \<Rightarrow>
           if length parent + 1 + length name > PATH_MAX then Some (None, set_errno ENAMETOOLONG s)
           else
             (let cap = PATH_MAX + 1;
                  (ok, s) = syscall (w_malloc W cap) s
              in if \<not> ok then Some (None, s)
                 else do {
                   buff \<leftarrow> snprintf_join cap (PATH_MAX + 1) parent name;
                   Some (Some buff, s)
                 })
     }
   }"

section \<open>What the join promises\<close>

text \<open>
  The path that a descriptor and a name stand for, and the state after it was made: \<open>dir\<close> says
  whether the descriptor is one of a directory, \<open>parent\<close> is the path of the descriptor if it has
  one, and \<open>s1\<close> and \<open>s2\<close> are the states after these questions.
\<close>

definition joined_path ::
  "'w win32 \<Rightarrow> bool \<Rightarrow> 'w proc \<Rightarrow> string option \<Rightarrow> 'w proc \<Rightarrow> string \<Rightarrow> string option \<times> 'w proc" where
  "joined_path W dir s1 parent s2 name =
     (if \<not> dir then (None, set_errno ENOTDIR s1)
      else case parent of
        None \<Rightarrow> (None, set_errno (winerr_to_errno (get_last_error s2)) s2)
      | Some q \<Rightarrow>
          if length (q @ ''/'' @ name) > PATH_MAX then (None, set_errno ENAMETOOLONG s2)
          else case syscall (w_malloc W (PATH_MAX + 1)) s2 of
            (ok, s3) \<Rightarrow> (if ok then Some (q @ ''/'' @ name) else None, s3))"

lemma snprintf_join_fits:
  "length (q @ ''/'' @ name) \<le> PATH_MAX \<Longrightarrow>
   snprintf_join (PATH_MAX + 1) (PATH_MAX + 1) q name = Some (q @ ''/'' @ name)"
  by (simp add: snprintf_join_def)

lemma is_dirfd_fstat:
  assumes "fstat nd W fd (w_stack_stat W) s = Some ((r0, buf), s1)"
  shows "is_dirfd nd W fd s =
    (if \<not> r0 <s 0 \<and> S_ISDIR (st_mode buf) then Some (True, s1) else Some (False, set_errno ENOTDIR s1))"
  using assms by (simp add: is_dirfd_def)

lemma get_path_at_joined:
  assumes "fstat nd W fd (w_stack_stat W) s = Some ((r0, buf), s1)"
    and "dir \<longleftrightarrow> \<not> r0 <s 0 \<and> S_ISDIR (st_mode buf)"
    and "dir \<longrightarrow> fd_get_path W fd s1 = Some (parent, s2)"
  shows "get_path_at nd W fd name s = Some (joined_path W dir s1 parent s2 name)"
proof (cases dir)
  case True
  with assms show ?thesis
    using snprintf_join_fits
    by (auto simp: get_path_at_def is_dirfd_fstat joined_path_def set_errno_via_winerr_spec Let_def
        split: option.splits prod.splits)
next
  case False
  with assms show ?thesis by (auto simp: get_path_at_def is_dirfd_fstat joined_path_def)
qed

lemma get_path_at_cases:
  assumes "get_path_at nd W fd name s = Some (r, s')"
  obtains r0 buf s1 dir parent s2 where
    "fstat nd W fd (w_stack_stat W) s = Some ((r0, buf), s1)"
    "dir \<longleftrightarrow> \<not> r0 <s 0 \<and> S_ISDIR (st_mode buf)"
    "dir \<longrightarrow> fd_get_path W fd s1 = Some (parent, s2)"
    "joined_path W dir s1 parent s2 name = (r, s')"
proof -
  obtain r0 buf s1 where f: "fstat nd W fd (w_stack_stat W) s = Some ((r0, buf), s1)"
    using assms by (auto simp: get_path_at_def is_dirfd_def)
  define dir where "dir \<longleftrightarrow> \<not> r0 <s 0 \<and> S_ISDIR (st_mode buf)"
  have "\<exists>parent s2. dir \<longrightarrow> fd_get_path W fd s1 = Some (parent, s2)"
    using assms f by (auto simp: get_path_at_def is_dirfd_fstat dir_def)
  then obtain parent s2 where p: "dir \<longrightarrow> fd_get_path W fd s1 = Some (parent, s2)" by blast
  from get_path_at_joined [OF f dir_def p] assms that [OF f dir_def p] show thesis by simp
qed

lemma get_path_at_returns:
  assumes "is_dirfd nd W fd s = Some (True, s1)" and "fd_get_path W fd s1 = Some (Some p, s2)"
  shows "\<exists>r s'. get_path_at nd W fd name s = Some (r, s') \<and> (r = None \<or> r = Some (p @ ''/'' @ name))"
proof -
  obtain r0 buf where "fstat nd W fd (w_stack_stat W) s = Some ((r0, buf), s1)"
      "\<not> r0 <s 0 \<and> S_ISDIR (st_mode buf)"
    using assms(1) by (auto simp: is_dirfd_def split: if_splits)
  from get_path_at_joined [OF this(1), of True "Some p" s2 name] this(2) assms(2) show ?thesis
    by (auto simp: joined_path_def split: prod.splits)
qed

lemma get_path_at_fits:
  assumes "final_path_law W" and "NUL \<notin> set name" and "get_path_at nd W fd name s = Some (Some q, s')"
  shows "length q < PATH_MAX + 1 \<and> NUL \<notin> set q \<and> (\<exists>p. length p < PATH_MAX \<and> q = p @ ''/'' @ name)"
proof -
  from assms(3) obtain s1 p s2 where "fd_get_path W fd s1 = Some (Some p, s2)"
      "length (p @ ''/'' @ name) \<le> PATH_MAX" "q = p @ ''/'' @ name"
    by (rule get_path_at_cases) (auto simp: joined_path_def split: if_splits option.splits prod.splits)
  with fd_get_path_length [OF assms(1)] assms(2) show ?thesis by auto
qed

section \<open>Properties\<close>

text \<open>
  Property C5. \<open>__get_path_at\<close> on every branch: the call returns; for a descriptor that \<open>fstat\<close>
  fails on or does not call a directory the path is refused with \<open>ENOTDIR\<close>; if the directory's path
  cannot be found, with the \<open>errno\<close> of the last Windows error; if the joined path has more than
  \<open>PATH_MAX\<close> characters, with \<open>ENAMETOOLONG\<close>; and otherwise the result is the whole of the
  directory's path, a slash and the name, never cut, unless there is no memory for it.
\<close>

theorem get_path_at_correct:
  assumes "fstat nd W fd (w_stack_stat W) s = Some ((r0, buf), s1)"
    and "\<not> r0 <s 0 \<and> S_ISDIR (st_mode buf) \<longrightarrow> fd_get_path W fd s1 = Some (parent, s2)"
  shows "get_path_at nd W fd name s = Some
    (if r0 <s 0 \<or> \<not> S_ISDIR (st_mode buf) then (None, set_errno ENOTDIR s1)
     else case parent of
       None \<Rightarrow> (None, set_errno (winerr_to_errno (get_last_error s2)) s2)
     | Some q \<Rightarrow>
         if length (q @ ''/'' @ name) > PATH_MAX then (None, set_errno ENAMETOOLONG s2)
         else case syscall (w_malloc W (PATH_MAX + 1)) s2 of
           (ok, s3) \<Rightarrow> (if ok then Some (q @ ''/'' @ name) else None, s3))"
  using get_path_at_joined [OF assms(1) refl assms(2)] by (auto simp: joined_path_def)


definition demo_dir_win :: "unit win32" where
  "demo_dir_win = demo_stat_win\<lparr>
     w_GetFileInformationByHandle := (\<lambda>h y. (Some (demo_info FILE_ATTRIBUTE_DIRECTORY), y)),
     w_PathIsRelative := (\<lambda>p. p = [] \<or> hd p \<noteq> CHR ''/'')\<rparr>"

definition demo_dir :: string where "demo_dir = display_path demo_unc"

lemma demo_dir_path: "fd_get_path demo_dir_win 3 (demo_proc ()) = Some (Some demo_dir, demo_proc ())"
  unfolding demo_dir_def
  by (rule fd_get_path_steps [where h = 77 and n = 18 and ?s1.0 = "demo_proc ()"
        and ?s2.0 = "demo_proc ()" and r = "replicate 241 (CHR ''z'')"])
    (simp_all add: demo_dir_win_def demo_stat_win_def demo_path_win_def syscall_def demo_unc_def
      unc_prefix_def ext_prefix_def)

lemma demo_dir_fstat: "\<exists>buf. fstat nd demo_dir_win 3 (w_stack_stat demo_dir_win) (demo_proc ()) =
    Some ((0, buf), demo_proc ()) \<and> S_ISDIR (st_mode buf)"
proof -
  have calls: "syscall (w_get_osfhandle demo_dir_win 3) (demo_proc ()) = (77, demo_proc ())"
    "syscall (w_GetFileInformationByHandle demo_dir_win 77) (demo_proc ()) =
      (Some (demo_info FILE_ATTRIBUTE_DIRECTORY), demo_proc ())"
    "syscall (w_GetFileType demo_dir_win 77) (demo_proc ()) = (FILE_TYPE_DISK, demo_proc ())"
    by (simp_all add: demo_dir_win_def demo_stat_win_def demo_path_win_def syscall_def)
  then show ?thesis
    by (simp add: fstat_def fstat64_def demo_dir_path stat_size_def demo_info_def
        stat_of_type_def stat_zero_def S_ISDIR_def)
qed

lemma demo_is_dirfd: "is_dirfd nd demo_dir_win 3 (demo_proc ()) = Some (True, demo_proc ())"
  using demo_dir_fstat [of nd] by (auto simp: is_dirfd_fstat)

lemma demo_dir_malloc: "syscall (w_malloc demo_dir_win n) (demo_proc ()) = (True, demo_proc ())"
  by (simp add: demo_dir_win_def demo_stat_win_def demo_path_win_def syscall_def)

lemma demo_get_path_at:
  "length demo_dir + 1 + length name \<le> PATH_MAX \<Longrightarrow>
   get_path_at nd demo_dir_win 3 name (demo_proc ()) =
     Some (Some (demo_dir @ ''/'' @ name), demo_proc ())"
  by (simp add: get_path_at_def demo_is_dirfd demo_dir_path demo_dir_malloc snprintf_join_def)

lemma length_demo_dir: "length demo_dir = 12"
  by (simp add: demo_dir_def display_path_def demo_unc_def)

theorem get_path_at_correct_witness:
  "get_path_at True demo_dir_win 3 ''f'' (demo_proc ()) = Some (Some (demo_dir @ ''/f''), demo_proc ())"
proof -
  obtain buf where f: "fstat True demo_dir_win 3 (w_stack_stat demo_dir_win) (demo_proc ()) =
      Some ((0, buf), demo_proc ())" and d: "S_ISDIR (st_mode buf)"
    using demo_dir_fstat by blast
  have "\<not> 0 <s (0 :: c_int) \<and> S_ISDIR (st_mode buf) \<longrightarrow>
      fd_get_path demo_dir_win 3 (demo_proc ()) = Some (Some demo_dir, demo_proc ())"
    by (simp add: demo_dir_path)
  from get_path_at_correct [OF f this, of "''f''"] d show ?thesis
    by (simp add: demo_dir_malloc length_demo_dir)
qed


end
