(* ===== verification/OpenCompat.thy ===== *)
theory OpenCompat
  imports PathAt
begin

text \<open>
  \<open>libc-compat/winsup/open.c\<close>: the linker redirects every call of \<open>open\<close> and \<open>_open\<close> to
  \<open>__wrap_open\<close> and \<open>__wrap__open\<close>, and those of \<open>CreateFileW\<close> to \<open>__wrap_CreateFileW\<close>.

  The third argument of a call of \<open>open\<close> is an option: reading it with \<open>va_arg\<close> when the caller
  passed none has no result.
\<close>

section \<open>open\<close>

definition open_impl :: "'w win32 \<Rightarrow> string \<Rightarrow> c_int \<Rightarrow> mode_t option \<Rightarrow> 'w proc \<Rightarrow> ('w, c_int) res" where
  "open_impl W path oflag ap s =
     (let oflag = oflag OR O_BINARY in
      if oflag AND O_CREAT \<noteq> 0 then
        (case ap of None \<Rightarrow> None
         | Some mode \<Rightarrow> Some (syscall (w_real_open W path oflag (Some mode)) s))
      else
        (let ((r, buf), s) = syscall (w_stat W path) s in
         if \<not> r <s 0 \<and> S_ISDIR (st_mode buf) then
           (if oflag AND O_ACCMODE = O_RDONLY then
              (let (fd, s) = open_dir_fd W path GENERIC_READ FILE_SHARE_VALID_FLAGS oflag s in
               if fd <s 0 then Some (- 1, set_errno_via_winerr (get_last_error s) s)
               else Some (fd, s))
            else if oflag AND O_ACCMODE = O_WRONLY \<or> oflag AND O_ACCMODE = O_RDWR
            then Some (- 1, set_errno EISDIR s)
            else Some (- 1, set_errno EINVAL s))
         else Some (syscall (w_real_open W path oflag None) s)))"

definition wrap_open ::
  "bool \<Rightarrow> 'w win32 \<Rightarrow> string \<Rightarrow> c_int \<Rightarrow> mode_t option \<Rightarrow> 'w proc \<Rightarrow> ('w, c_int) res" where
  "wrap_open nd W path oflag ap s = do {
     (fd, s) \<leftarrow> open_impl W path oflag ap s;
     if \<not> fd <s 0 then do { s \<leftarrow> fd_cache_oflag nd fd oflag s; Some (fd, s) }
     else Some (fd, s)
   }"

definition wrap__open ::
  "bool \<Rightarrow> 'w win32 \<Rightarrow> string \<Rightarrow> c_int \<Rightarrow> mode_t option \<Rightarrow> 'w proc \<Rightarrow> ('w, c_int) res" where
  "wrap__open nd W path oflag ap s =
     (if oflag AND O_CREAT \<noteq> 0 then
        (case ap of None \<Rightarrow> None | Some mode \<Rightarrow> wrap_open nd W path oflag (Some mode) s)
      else wrap_open nd W path oflag None s)"

section \<open>CreateFileW\<close>

text \<open>
  The path is checked by converting it, with its terminator, to the code page of the process into
  a buffer of \<open>PATH_MAX + 1\<close> bytes that is not used afterwards. \<open>None\<close> for the file name is a
  null pointer.
\<close>

definition wrap_CreateFileW ::
  "'w win32 \<Rightarrow> wchar list option \<Rightarrow> dword \<Rightarrow> dword \<Rightarrow> ptr \<Rightarrow> dword \<Rightarrow> dword \<Rightarrow> handle \<Rightarrow>
   'w proc \<Rightarrow> ('w, handle) res" where
  "wrap_CreateFileW W name acc share sec disp attrs template s =
     (if name = None \<or> name = Some [] \<or> disp = OPEN_EXISTING \<or> disp = TRUNCATE_EXISTING
      then Some (syscall (w_real_CreateFileW W name acc share sec disp attrs template) s)
      else
        (let ((r, _), s) = syscall (w_WideCharToMultiByte W (the name @ [0]) (of_nat (PATH_MAX + 1))) s in
         if r = 0 then None
         else Some (syscall (w_real_CreateFileW W name acc share sec disp attrs template) s)))"

section \<open>Properties\<close>

text \<open>What the C runtime guarantees of the descriptors it hands out.\<close>

definition fd_range_law :: "'w win32 \<Rightarrow> bool" where
  "fd_range_law W \<longleftrightarrow>
     (\<forall>path fl m y. \<not> fst (w_real_open W path fl m y) <s 0 \<longrightarrow>
        unat (fst (w_real_open W path fl m y)) < open_max) \<and>
     (\<forall>h fl y. \<not> fst (w_open_osfhandle W h fl y) <s 0 \<longrightarrow>
        unat (fst (w_open_osfhandle W h fl y)) < open_max)"

lemma real_open_range:
  "fd_range_law W \<Longrightarrow> syscall (w_real_open W path fl m) s = (fd, s') \<Longrightarrow> \<not> fd <s 0 \<Longrightarrow> unat fd < open_max"
  unfolding fd_range_law_def syscall_def by (metis (no_types, lifting) case_prod_unfold fst_conv)

lemma open_osfhandle_range:
  "fd_range_law W \<Longrightarrow> syscall (w_open_osfhandle W h fl) s = (fd, s') \<Longrightarrow> \<not> fd <s 0 \<Longrightarrow> unat fd < open_max"
  unfolding fd_range_law_def syscall_def by (metis (no_types, lifting) case_prod_unfold fst_conv)

lemma open_handle_fd_range:
  "fd_range_law W \<Longrightarrow> open_handle_fd W path acc share fl attrs s = (fd, s') \<Longrightarrow> \<not> fd <s 0 \<Longrightarrow>
   unat fd < open_max"
  unfolding open_handle_fd_def
  by (auto simp: Let_def dest: open_osfhandle_range split: prod.splits if_splits)

lemma open_impl_range:
  "fd_range_law W \<Longrightarrow> open_impl W path oflag ap s = Some (fd, s') \<Longrightarrow> \<not> fd <s 0 \<Longrightarrow>
   unat fd < open_max"
  unfolding open_impl_def open_dir_fd_def
  by (auto simp: Let_def dest: open_handle_fd_range real_open_range
      split: prod.splits if_splits option.splits)

lemma open_handle_fd_frame [frame]:
  "open_handle_fd W path acc share fl attrs s = (fd, s') \<Longrightarrow>
   fd_cache s' = fd_cache s \<and> fd_cache_max_size s' = fd_cache_max_size s"
  unfolding open_handle_fd_def
  by (auto simp: Let_def split: prod.splits if_splits dest!: syscall_frameD)

lemma open_impl_frame [frame]:
  "open_impl W path oflag ap s = Some (fd, s') \<Longrightarrow>
   fd_cache s' = fd_cache s \<and> fd_cache_max_size s' = fd_cache_max_size s"
  unfolding open_impl_def open_dir_fd_def
  by (auto simp: Let_def split: prod.splits if_splits option.splits
      dest!: syscall_frameD open_handle_fd_frame)

lemma wrap_open_records:
  assumes "cache_inv s" and "fd_range_law W" and "open_impl W path oflag ap s = Some (fd, s1)"
  shows "\<exists>s'. wrap_open nd W path oflag ap s = Some (fd, s') \<and> cache_inv s' \<and>
    (if fd <s 0 then fd_cache s' = fd_cache s else has_flag s' fd (oflag AND O_APPEND))"
proof -
  have inv: "cache_inv s1" using open_impl_frame [OF assms(3)] assms(1) by (simp add: cache_inv_def)
  show ?thesis
  proof (cases "fd <s 0")
    case True
    then show ?thesis using assms(3) inv open_impl_frame [OF assms(3)] by (simp add: wrap_open_def)
  next
    case False
    then obtain s' where s': "fd_cache_oflag nd fd oflag s1 = Some s'"
        "fd_cache s' ! unat fd = oflag AND O_APPEND" "unat fd < fd_cache_max_size s'"
      using fd_cache_oflag_returns [OF inv open_impl_range [OF assms(2,3)]] by blast
    with False assms(3) fd_cache_oflag_inv [OF inv s'(1)] show ?thesis
      by (simp add: wrap_open_def has_flag_def append_flag_not_negative)
  qed
qed

text \<open>
  Property C20. Every descriptor that \<open>open\<close> returns is recorded: in either build, if the C
  runtime keeps its descriptors below \<open>OPEN_MAX\<close>, a successful call leaves the append bit of
  the flags it was called with in the cache, the invariant of the cache holds, and the assertions
  of the cache do not fire; a failed call leaves the cache as it was.
\<close>

theorem open_records_append:
  assumes "cache_inv s" and "fd_range_law W" and "open_impl W path oflag ap s = Some (fd, s1)"
  shows "\<exists>s'. wrap_open nd W path oflag ap s = Some (fd, s') \<and> cache_inv s' \<and>
    (if fd <s 0 then fd_cache s' = fd_cache s else has_flag s' fd (oflag AND O_APPEND))"
  by (rule wrap_open_records [OF assms])

text \<open>
  Property C21. Opening a directory without \<open>O_CREAT\<close>: the C runtime's \<open>open\<close>, which would refuse
  it, is not called at all. A writing access mode fails with \<open>EISDIR\<close> and the invalid mode 3 with
  \<open>EINVAL\<close>, both before anything is opened. A read-only open asks Windows for a handle of the existing
  directory, for reading, shared with everyone and with backup semantics, without which Windows opens no
  directory, and returns the binary descriptor that the C runtime makes of the handle; if Windows refuses
  the handle, the call fails with the \<open>errno\<close> of Windows' error, and if the C runtime has no descriptor,
  the handle is closed again.
\<close>

theorem open_directory:
  assumes "oflag AND O_CREAT = 0" and "syscall (w_stat W path) s = ((r, buf), s1)"
    and "\<not> r <s 0" and "S_ISDIR (st_mode buf)"
  shows "open_impl W path oflag ap s =
    (if oflag AND O_ACCMODE = O_RDONLY then
       (case syscall (w_CreateFile W path GENERIC_READ FILE_SHARE_VALID_FLAGS OPEN_EXISTING
               FILE_FLAG_BACKUP_SEMANTICS) s1 of
          (h, s2) \<Rightarrow>
            if h = INVALID_HANDLE_VALUE
            then Some (- 1, set_errno (winerr_to_errno (get_last_error s2)) s2)
            else
              (case syscall (w_open_osfhandle W h (oflag OR O_BINARY)) s2 of
                 (fd, s3) \<Rightarrow>
                   if \<not> fd <s 0 then Some (fd, s3)
                   else
                     (case syscall (w_CloseHandle W h) (set_last_error ERROR_INVALID_PARAMETER s3) of
                        (_, s4) \<Rightarrow> Some (- 1, set_errno (winerr_to_errno (get_last_error s4)) s4))))
     else Some (- 1, set_errno (if oflag AND O_ACCMODE = 3 then EINVAL else EISDIR) s1))"
proof -
  have "(oflag OR O_BINARY) AND O_CREAT = 0" "(oflag OR O_BINARY) AND O_ACCMODE = oflag AND O_ACCMODE"
    using assms(1) by (simp_all add: bit.conj_disj_distrib2)
  moreover note word_and_3_cases [of oflag]
  ultimately show ?thesis
    using assms
    by (auto simp: open_impl_def open_dir_fd_def open_handle_fd_def Let_def set_errno_via_winerr_spec
        word_sless_alt split: prod.splits)
qed

text \<open>
  Property C40. The cache is not told when a descriptor is closed, only found to have no handle by a
  lookup. A program opens a file for appending and gets descriptor \<open>fd\<close>; it closes the descriptor; and
  the C runtime gives the free number to the handle \<open>h\<close> of another file, which did not go through
  \<open>open\<close>. A lookup by \<open>h\<close> then answers \<open>O_APPEND\<close> from the old entry, and does not ask Windows for the
  access that \<open>h\<close> was opened with.
\<close>

theorem oflag_cache_stale:
  assumes "cache_inv s" and "fd_range_law W" and "handle_law W H" and "oflag AND O_APPEND \<noteq> 0"
    and "wrap_open nd W path oflag ap s = Some (fd, s1)" and "\<not> fd <s 0"
    and "syscall (w_close W fd) s1 = (0, s2)"
    and "syscall (w_open_osfhandle W h fl) s2 = (fd, s3)" and "sole_owner H s3 fd h"
  shows "\<exists>s4. get_osfhandle_oflag W h s3 = Some (O_APPEND, s4)"
proof -
  obtain fd0 s0 where impl: "open_impl W path oflag ap s = Some (fd0, s0)"
    using assms(5) by (auto simp: wrap_open_def)
  have "cache_inv s1 \<and> has_flag s1 fd (oflag AND O_APPEND)"
    using wrap_open_records [OF assms(1,2) impl, of nd] assms(5,6) by auto
  moreover have "fd_cache s3 = fd_cache s1 \<and> fd_cache_max_size s3 = fd_cache_max_size s1"
    using syscall_frameD [OF assms(7)] syscall_frameD [OF assms(8)] by simp
  ultimately have "cache_inv s3" "has_flag s3 fd O_APPEND"
    using and_append_cases [of oflag] assms(4) by (auto simp: cache_inv_def has_flag_def)
  from get_osfhandle_oflag_finds [OF assms(3) this(1) assms(9) this(2)] show ?thesis by blast
qed

text \<open>
  Creating a file with \<open>CreateFileW\<close>: the wrapper converts the name into a buffer
  of \<open>PATH_MAX + 1\<close> bytes whose contents it never uses, and aborts the process if that fails.
  So a call that may create a file is passed on unchanged for a name of up to \<open>PATH_MAX\<close> ASCII
  characters, and for a longer one, which Windows supports, the process dies; a call that opens
  an existing file is passed on for every name.
\<close>

theorem create_file_aborts_on_long_name:
  assumes "ascii_law W" and "\<forall>w \<in> set name. unat w < 128" and "name \<noteq> []"
  shows "\<exists>s1. wrap_CreateFileW W (Some name) acc share sec disp attrs template s =
    (if disp = OPEN_EXISTING \<or> disp = TRUNCATE_EXISTING
     then Some (syscall (w_real_CreateFileW W (Some name) acc share sec disp attrs template) s)
     else if length name \<le> PATH_MAX
     then Some (syscall (w_real_CreateFileW W (Some name) acc share sec disp attrs template) s1)
     else None)"
proof -
  have ascii: "\<forall>w \<in> set (name @ [0]). unat w < 128" using assms(2) by auto
  obtain chars out s1 where conv:
      "syscall (w_WideCharToMultiByte W (name @ [0]) (of_nat (PATH_MAX + 1))) s = ((chars, out), s1)"
    by (metis surj_pair)
  have fits: "int (length (name @ [0])) \<le> sint (of_nat (PATH_MAX + 1) :: c_int) \<longleftrightarrow> length name \<le> PATH_MAX"
    by auto
  have "0 <s (of_nat (PATH_MAX + 1) :: c_int)" by (simp add: word_sless_alt)
  from ascii_lawD [OF assms(1) _ ascii this conv]
  have law: "if length name \<le> PATH_MAX then chars = of_nat (length (name @ [0])) else chars = 0"
    unfolding fits by auto
  have "(of_nat (length (name @ [0])) :: c_int) \<noteq> 0" if "length name \<le> PATH_MAX"
    using unat_of_nat_c_int [of "length (name @ [0])"] that by auto
  with law have "chars = 0 \<longleftrightarrow> \<not> length name \<le> PATH_MAX" by auto
  then show ?thesis
    using conv assms(3) unfolding wrap_CreateFileW_def by (intro exI [of _ s1]) auto
qed

section \<open>Witnesses\<close>

definition demo_open_win :: "unit win32" where
  "demo_open_win = null_win\<lparr>
     w_real_open := (\<lambda>p fl m y. (5, y)),
     w_stat := (\<lambda>p y. ((0, stat_zero\<lparr>st_mode := S_IFDIR\<rparr>), y)),
     w_WideCharToMultiByte := (\<lambda>ws cap y.
       (if int (length ws) \<le> sint cap then (of_nat (length ws), narrow ws) else (0, []), y))\<rparr>"

theorem open_records_append_witness:
  "\<exists>s'. wrap_open True demo_open_win ''f'' (O_CREAT OR O_APPEND) (Some 0x1B6) (demo_proc ()) =
     Some (5, s') \<and> has_flag s' 5 O_APPEND"
proof -
  have law: "fd_range_law demo_open_win"
    by (simp add: fd_range_law_def demo_open_win_def null_win_def open_max_def)
  have "open_impl demo_open_win ''f'' (O_CREAT OR O_APPEND) (Some 0x1B6) (demo_proc ()) =
      Some (5, demo_proc ())"
    by (simp add: open_impl_def demo_open_win_def syscall_def)
  from open_records_append [OF demo_cache_inv law this, of True] show ?thesis
    by (auto simp: word_sless_alt)
qed

text \<open>A platform with one directory: handle 77, descriptor 3.\<close>

definition demo_open_dir_win :: "unit win32" where
  "demo_open_dir_win = demo_open_win\<lparr>
     w_CreateFile := (\<lambda>p a m d f y. (if f = FILE_FLAG_BACKUP_SEMANTICS then 77 else INVALID_HANDLE_VALUE, y)),
     w_open_osfhandle := (\<lambda>h f y. (3, y))\<rparr>"

theorem open_directory_witness:
  "open_impl demo_open_dir_win ''d'' O_RDONLY None (demo_proc ()) = Some (3, demo_proc ()) \<and>
   open_impl demo_open_dir_win ''d'' O_WRONLY None (demo_proc ()) =
     Some (- 1, set_errno EISDIR (demo_proc ()))"
proof -
  have "syscall (w_stat demo_open_dir_win ''d'') (demo_proc ()) =
      ((0, stat_zero\<lparr>st_mode := S_IFDIR\<rparr>), demo_proc ())"
    by (simp add: demo_open_dir_win_def demo_open_win_def syscall_def)
  from open_directory [OF _ this, of O_RDONLY None] open_directory [OF _ this, of O_WRONLY None]
  show ?thesis
    by (simp add: S_ISDIR_def demo_open_dir_win_def syscall_def word_sless_alt)
qed

text \<open>
  A platform with the handles of its descriptors as environment: \<open>open\<close> gives handle 66 and
  \<open>_open_osfhandle\<close> the given handle to descriptor 5, \<open>close\<close> takes it away, and no handle has the
  right to append.
\<close>

definition demo_reuse_win :: "(c_int \<Rightarrow> handle) win32" where
  "demo_reuse_win = demo_win\<lparr>
     w_real_open := (\<lambda>p fl m y. (5, y\<lparr>env := (env y)(5 := 66)\<rparr>)),
     w_close := (\<lambda>fd y. (0, y\<lparr>env := (env y)(fd := INVALID_HANDLE_VALUE)\<rparr>)),
     w_open_osfhandle := (\<lambda>h fl y. (5, y\<lparr>env := (env y)(5 := h)\<rparr>)),
     w_NtQueryObject := (\<lambda>h y. (Some FILE_WRITE_DATA, y))\<rparr>"

definition demo_none :: "c_int \<Rightarrow> handle" where "demo_none = (\<lambda>_. INVALID_HANDLE_VALUE)"

theorem oflag_cache_stale_witness:
  "\<exists>s1 s2 s3 s4. wrap_open True demo_reuse_win ''log'' (O_CREAT OR O_APPEND) (Some 0x1B6) (demo_proc demo_none) =
       Some (5, s1) \<and>
     syscall (w_close demo_reuse_win 5) s1 = (0, s2) \<and>
     syscall (w_open_osfhandle demo_reuse_win 77 O_RDWR) s2 = (5, s3) \<and>
     get_osfhandle_oflag demo_reuse_win 77 s3 = Some (O_APPEND, s4) \<and>
     fst (get_osfhandle_oflag_fallback demo_reuse_win 77 s3) = 0"
proof -
  have range: "fd_range_law demo_reuse_win"
    by (simp add: fd_range_law_def demo_reuse_win_def open_max_def)
  have law: "handle_law demo_reuse_win id"
    by (simp add: handle_law_def demo_reuse_win_def demo_win_def)
  let ?p = "demo_proc demo_none"
  define s0 where "s0 = snd (syscall (w_real_open demo_reuse_win ''log'' 0x8108 (Some 0x1B6)) ?p)"
  have impl: "open_impl demo_reuse_win ''log'' (O_CREAT OR O_APPEND) (Some 0x1B6) ?p = Some (5, s0)"
    by (simp add: open_impl_def s0_def demo_reuse_win_def syscall_def)
  have n5: "\<not> (5 :: c_int) <s 0" by (simp add: word_sless_alt)
  obtain s1 where s1: "wrap_open True demo_reuse_win ''log'' (O_CREAT OR O_APPEND) (Some 0x1B6) ?p = Some (5, s1)"
    using wrap_open_records [OF demo_cache_inv range impl, of True] by blast
  have "sys s1 = sys s0"
    using s1 impl n5 by (auto simp: wrap_open_def fd_cache_oflag_def c_assert_def split: if_splits)
  then have e1: "get_env s1 = demo_none(5 := 66)"
    by (simp add: get_env_def s0_def demo_reuse_win_def syscall_def demo_proc_def init_oflag_cache_def)
  define s2 where "s2 = s1\<lparr>sys := (sys s1)\<lparr>env := (env (sys s1))(5 := INVALID_HANDLE_VALUE)\<rparr>\<rparr>"
  define s3 where "s3 = s2\<lparr>sys := (sys s2)\<lparr>env := (env (sys s2))(5 := 77)\<rparr>\<rparr>"
  have s2: "syscall (w_close demo_reuse_win 5) s1 = (0, s2)"
    by (simp add: demo_reuse_win_def syscall_def s2_def)
  have s3: "syscall (w_open_osfhandle demo_reuse_win 77 O_RDWR) s2 = (5, s3)"
    by (simp add: demo_reuse_win_def syscall_def s3_def)
  have "get_env s3 = demo_handles"
    using e1 by (auto simp: get_env_def s3_def s2_def demo_handles_def demo_none_def)
  then have owner: "sole_owner id s3 5 77"
    using demo_sole_owner by (simp add: sole_owner_def)
  have "(O_CREAT OR O_APPEND) AND O_APPEND \<noteq> (0 :: c_int)" by simp
  from oflag_cache_stale [OF demo_cache_inv range law this s1 n5 s2 s3 owner] s1 s2 s3
  show ?thesis
    by (auto simp: get_osfhandle_oflag_fallback_def demo_reuse_win_def syscall_def)
qed

theorem create_file_aborts_on_long_name_witness:
  "wrap_CreateFileW demo_open_win (Some (replicate 261 97)) 0 0 0 CREATE_NEW 0 0 (demo_proc ()) = None"
proof -
  have "ascii_law demo_open_win" by (simp add: ascii_law_def demo_open_win_def)
  from create_file_aborts_on_long_name [OF this, of "replicate 261 97" 0 0 0 CREATE_NEW 0 0 "demo_proc ()"]
  show ?thesis by simp
qed

end
