(* ===== verification/FileCompat.thy ===== *)
theory FileCompat
  imports OpenCompat
begin

text \<open>
  \<open>libc-compat/winsup/file.c\<close>: \<open>fopen\<close>, \<open>fdopen\<close> and \<open>creat\<close> in terms of \<open>open\<close>, with the
  mode strings of POSIX. The mode string is a \<^typ>\<open>string\<close>; \<open>strchr\<close> also finds the terminator,
  so \<open>strchr (\"rwa\", *mode)\<close> succeeds for the empty mode.
\<close>

section \<open>Modes\<close>

text \<open>\<open>*mode\<close>: the first character, or the terminator.\<close>

definition mode_head :: "string \<Rightarrow> char" where
  "mode_head mode = (case mode of [] \<Rightarrow> NUL | c # _ \<Rightarrow> c)"

definition strchr :: "string \<Rightarrow> char \<Rightarrow> bool" where
  "strchr str c \<longleftrightarrow> c \<in> set str \<or> c = NUL"

definition fmodeflags :: "string \<Rightarrow> c_int" where
  "fmodeflags mode =
     (if \<not> strchr ''rwa'' (mode_head mode) then - 1
      else
        (let flags =
           (if strchr mode CHR ''+'' then O_RDWR
            else if mode_head mode = CHR ''r'' then O_RDONLY else O_WRONLY);
             flags = (if strchr mode CHR ''x'' then flags OR O_EXCL else flags);
             flags = (if strchr mode CHR ''e'' \<or> strchr mode CHR ''N'' then flags OR O_CLOEXEC else flags);
             flags = (if mode_head mode \<noteq> CHR ''r'' then flags OR O_CREAT else flags);
             flags = (if mode_head mode = CHR ''w'' then flags OR O_TRUNC else flags);
             flags = (if mode_head mode = CHR ''a'' then flags OR O_APPEND else flags)
         in flags OR O_BINARY))"

text \<open>
  The result is the string stored in the caller's buffer, or nothing for the result -1; it has at
  most three characters, the buffer has room for 16.
\<close>

definition fixup_fmode :: "string \<Rightarrow> string option" where
  "fixup_fmode old_mode =
     (let flags = fmodeflags old_mode in
      if flags <s 0 then None
      else do {
        (has_plus, c) \<leftarrow>
          (if flags AND O_RDWR \<noteq> 0 then
             (if flags AND O_APPEND \<noteq> 0 then Some (True, CHR ''a'')
              else if flags AND O_TRUNC \<noteq> 0 then Some (True, CHR ''w'')
              else if flags AND O_CREAT = 0 then Some (True, CHR ''r'')
              else None)
           else if flags AND O_WRONLY \<noteq> 0 then
             (if flags AND O_TRUNC \<noteq> 0 then Some (False, CHR ''w'')
              else if flags AND O_APPEND \<noteq> 0 then Some (False, CHR ''a'')
              else None)
           else Some (False, CHR ''r''));
        if c \<noteq> CHR ''r'' \<and> flags AND O_CREAT = 0 then None
        else Some ([c] @ (if has_plus then ''+'' else '''') @ ''b'')
      })"

section \<open>Streams\<close>

abbreviation NULL :: ptr where "NULL \<equiv> 0"

definition wrap_fdopen :: "'w win32 \<Rightarrow> c_int \<Rightarrow> string \<Rightarrow> 'w proc \<Rightarrow> ptr \<times> 'w proc" where
  "wrap_fdopen W fd mode s =
     (case fixup_fmode mode of
        None \<Rightarrow> (NULL, set_errno EINVAL s)
      | Some new_mode \<Rightarrow> syscall (w_real_fdopen W fd new_mode) s)"

definition wrap_fopen :: "bool \<Rightarrow> 'w win32 \<Rightarrow> string \<Rightarrow> string \<Rightarrow> 'w proc \<Rightarrow> ('w, ptr) res" where
  "wrap_fopen nd W pathname mode s =
     (let flags = fmodeflags mode in
      if flags <s 0 then Some (NULL, set_errno EINVAL s)
      else do {
        (fd, s) \<leftarrow>
          (if flags AND O_CREAT \<noteq> 0 then wrap_open nd W pathname flags (Some 0x1B6) s
           else wrap_open nd W pathname flags None s);
        if fd <s 0 then Some (NULL, s) else Some (wrap_fdopen W fd mode s)
      })"

definition creat_oflags :: c_int where "creat_oflags = O_CREAT OR O_TRUNC OR O_RDWR"

definition wrap_creat :: "bool \<Rightarrow> 'w win32 \<Rightarrow> string \<Rightarrow> c_int \<Rightarrow> 'w proc \<Rightarrow> ('w, c_int) res" where
  "wrap_creat nd W path mode s =
     (let fixed_mode = 0;
          fixed_mode = (if mode AND 0x124 \<noteq> 0 then fixed_mode OR 0x100 else fixed_mode);
          fixed_mode = (if mode AND 0x92 \<noteq> 0 then fixed_mode OR 0x80 else fixed_mode)
      in wrap_open nd W path creat_oflags (Some fixed_mode) s)"

definition wrap__fdopen :: "'w win32 \<Rightarrow> c_int \<Rightarrow> string \<Rightarrow> 'w proc \<Rightarrow> ptr \<times> 'w proc" where
  "wrap__fdopen W fd mode s = wrap_fdopen W fd mode s"

definition wrap__creat :: "bool \<Rightarrow> 'w win32 \<Rightarrow> string \<Rightarrow> c_int \<Rightarrow> 'w proc \<Rightarrow> ('w, c_int) res" where
  "wrap__creat nd W path mode s = wrap_creat nd W path mode s"

section \<open>Flags and modes\<close>

text \<open>The flags as a function of the four facts about the mode string that they depend on.\<close>

definition flags_of :: "char \<Rightarrow> bool \<Rightarrow> bool \<Rightarrow> bool \<Rightarrow> c_int" where
  "flags_of c has_plus excl cloexec =
     (if has_plus then O_RDWR else if c = CHR ''r'' then O_RDONLY else O_WRONLY) OR
     (if excl then O_EXCL else 0) OR (if cloexec then O_CLOEXEC else 0) OR
     (if c = CHR ''w'' then O_CREAT OR O_TRUNC else if c = CHR ''a'' then O_CREAT OR O_APPEND else 0) OR
     O_BINARY"

lemma fmodeflags_rwa:
  assumes "c \<in> set ''rwa''"
  shows "fmodeflags (c # rest) = flags_of c (CHR ''+'' \<in> set rest) (CHR ''x'' \<in> set rest)
    (CHR ''e'' \<in> set rest \<or> CHR ''N'' \<in> set rest)"
proof -
  have "c = CHR ''r'' \<or> c = CHR ''w'' \<or> c = CHR ''a''" using assms by simp
  then show ?thesis
    by (elim disjE) (simp_all add: fmodeflags_def flags_of_def mode_head_def strchr_def Let_def)
qed

lemma fmodeflags_other: "c \<notin> set ''rwa'' \<Longrightarrow> c \<noteq> NUL \<Longrightarrow> fmodeflags (c # rest) = - 1"
  by (simp add: fmodeflags_def mode_head_def strchr_def)

lemma fmodeflags_empty: "fmodeflags [] = O_WRONLY OR O_CREAT OR O_BINARY"
  by (simp add: fmodeflags_def mode_head_def strchr_def)

lemma fixup_fmode_rwa:
  assumes "c \<in> set ''rwa''"
  shows "fixup_fmode (c # rest) = Some ([c] @ (if CHR ''+'' \<in> set rest then ''+'' else []) @ ''b'')"
proof -
  have c: "c = CHR ''r'' \<or> c = CHR ''w'' \<or> c = CHR ''a''" using assms by simp
  show ?thesis
    unfolding fixup_fmode_def fmodeflags_rwa [OF assms]
    using c
    by (elim disjE; cases "CHR ''+'' \<in> set rest"; cases "CHR ''x'' \<in> set rest";
      cases "CHR ''e'' \<in> set rest \<or> CHR ''N'' \<in> set rest";
      simp add: flags_of_def word_sless_alt Let_def)
qed

lemma flags_of_normal:
  assumes "c \<in> set ''rwa''"
  shows "flags_of c has_plus False False = flags_of c has_plus excl cloexec AND NOT (O_EXCL OR O_CLOEXEC)"
proof -
  have "c = CHR ''r'' \<or> c = CHR ''w'' \<or> c = CHR ''a''" using assms by simp
  then show ?thesis
    by (elim disjE; cases has_plus; cases excl; cases cloexec; simp add: flags_of_def)
qed

section \<open>Properties\<close>

text \<open>
  Property C8. The mode string that \<open>fdopen\<close> passes on: for a mode that begins with \<open>r\<close>,
  \<open>w\<close> or \<open>a\<close>, whatever follows, it is that letter, a plus sign if the mode has one, and \<open>b\<close>;
  this string has the same open flags as the given one, apart from \<open>O_EXCL\<close> and \<open>O_CLOEXEC\<close>,
  and is a fixed point; any other mode is refused, the empty one too.
\<close>

theorem fixup_fmode_correct:
  "(c \<in> set ''rwa'' \<longrightarrow>
     (\<exists>m. fixup_fmode (c # rest) = Some m \<and>
       m = [c] @ (if CHR ''+'' \<in> set rest then ''+'' else []) @ ''b'' \<and>
       fmodeflags m = fmodeflags (c # rest) AND NOT (O_EXCL OR O_CLOEXEC) \<and>
       fixup_fmode m = Some m)) \<and>
   (c \<notin> set ''rwa'' \<and> c \<noteq> NUL \<longrightarrow> fixup_fmode (c # rest) = None) \<and> fixup_fmode [] = None"
proof (intro conjI impI)
  assume c: "c \<in> set ''rwa''"
  let ?tail = "(if CHR ''+'' \<in> set rest then ''+'' else []) @ ''b''"
  have "fmodeflags (c # ?tail) = fmodeflags (c # rest) AND NOT (O_EXCL OR O_CLOEXEC)"
    unfolding fmodeflags_rwa [OF c] flags_of_normal [OF c, symmetric] by simp
  moreover have "fixup_fmode (c # ?tail) = Some (c # ?tail)"
    using fixup_fmode_rwa [OF c, of ?tail] by simp
  ultimately show "\<exists>m. fixup_fmode (c # rest) = Some m \<and> m = [c] @ ?tail \<and>
      fmodeflags m = fmodeflags (c # rest) AND NOT (O_EXCL OR O_CLOEXEC) \<and> fixup_fmode m = Some m"
    using fixup_fmode_rwa [OF c, of rest] by simp
next
  assume "c \<notin> set ''rwa'' \<and> c \<noteq> NUL"
  then show "fixup_fmode (c # rest) = None"
    unfolding fixup_fmode_def using fmodeflags_other [of c rest] by (simp add: word_sless_alt)
next
  show "fixup_fmode [] = None"
    by (simp add: fixup_fmode_def fmodeflags_empty word_sless_alt)
qed

theorem fixup_fmode_correct_witness:
  "fixup_fmode ''w+xe'' = Some ''w+b'' \<and> fmodeflags ''w+b'' = fmodeflags ''w+xe'' AND NOT (O_EXCL OR O_CLOEXEC)"
  using fixup_fmode_correct [of "CHR ''w''" "''+xe''"] by auto

text \<open>
  \<open>fopen\<close> with an empty mode, which POSIX lets fail at once: \<open>open\<close> is called to
  create the file and open it for writing, then \<open>fdopen\<close> refuses the mode and the call fails
  with \<open>EINVAL\<close>; the state that remains is the one after a successful \<open>open\<close>, so the file
  exists and the descriptor stays open with nobody to close it.
\<close>

theorem fopen_empty_mode_leaks:
  assumes "wrap_open nd W path (O_WRONLY OR O_CREAT OR O_BINARY) (Some 0x1B6) s = Some (fd, s1)"
    and "\<not> fd <s 0"
  shows "wrap_fopen nd W path [] s = Some (NULL, set_errno EINVAL s1)"
proof -
  have "fixup_fmode [] = None" by (simp add: fixup_fmode_def fmodeflags_empty word_sless_alt)
  then show ?thesis
    using assms by (simp add: wrap_fopen_def fmodeflags_empty wrap_fdopen_def word_sless_alt)
qed

theorem fopen_empty_mode_leaks_witness:
  "\<exists>s1. wrap_open True demo_open_win ''f'' (O_WRONLY OR O_CREAT OR O_BINARY) (Some 0x1B6) (demo_proc ()) =
     Some (5, s1) \<and> wrap_fopen True demo_open_win ''f'' [] (demo_proc ()) = Some (NULL, set_errno EINVAL s1)"
proof -
  have "open_impl demo_open_win ''f'' (O_WRONLY OR O_CREAT OR O_BINARY) (Some 0x1B6) (demo_proc ()) =
      Some (5, demo_proc ())"
    by (simp add: open_impl_def demo_open_win_def syscall_def)
  moreover obtain s1 where "fd_cache_oflag True 5 (O_WRONLY OR O_CREAT OR O_BINARY) (demo_proc ()) = Some s1"
    using fd_cache_oflag_returns [OF demo_cache_inv, of 5 True _ "()"] by (auto simp: open_max_def)
  ultimately have "wrap_open True demo_open_win ''f'' (O_WRONLY OR O_CREAT OR O_BINARY) (Some 0x1B6) (demo_proc ()) =
      Some (5, s1)"
    by (simp add: wrap_open_def word_sless_alt)
  with fopen_empty_mode_leaks [OF this] show ?thesis by (simp add: word_sless_alt)
qed

end
