(* ===== verification/Mkdir.thy ===== *)
theory Mkdir
  imports WinErrno
begin

text \<open>
  \<open>libc-compat/winsup/mkdir.c\<close> and \<open>mknod_stub.c\<close>: \<open>mkdir\<close> with a mode and the stub of
  \<open>mknod\<close>. The \<open>rmdir\<close> that undoes a failed \<open>mkdir\<close> stands inside an assertion, so a release
  build does not call it.
\<close>

definition mkdir_stub :: "bool \<Rightarrow> 'w win32 \<Rightarrow> string \<Rightarrow> mode_t \<Rightarrow> 'w proc \<Rightarrow> ('w, c_int) res" where
  "mkdir_stub nd W path mode s =
     (let (r, s) = syscall (w_mkdir W path) s in
      if r <s 0 then Some (- 1, s)
      else
        (let (r, s) = syscall (w_chmod W path mode) s in
         if r <s 0 then
           (let old_errno = get_errno s in
            (if nd then Some s
             else (let (r, s) = syscall (w_rmdir W path) s in if r = 0 then Some s else None)) \<bind>
            (\<lambda>s. Some (- 1, set_errno old_errno s)))
         else Some (0, s)))"

definition mknod :: "'w win32 \<Rightarrow> string \<Rightarrow> mode_t \<Rightarrow> c_uint \<Rightarrow> 'w proc \<Rightarrow> c_int \<times> 'w proc" where
  "mknod W path mode dev s =
     (let (r, s) = syscall (w_access W path 4) s in
      if r = 0 then (- 1, set_errno EEXIST s) else (- 1, set_errno ENOTSUP s))"

section \<open>Properties\<close>

text \<open>
  What the three calls do to the set \<open>D\<close> of existing directories: a successful \<open>mkdir\<close> adds the
  path, a successful \<open>rmdir\<close> removes it, \<open>chmod\<close> and failed calls leave the set alone. Each of them
  may fail.
\<close>

definition dir_laws :: "'w win32 \<Rightarrow> ('w \<Rightarrow> string set) \<Rightarrow> bool" where
  "dir_laws W D \<longleftrightarrow>
     (\<forall>p y r y'. w_mkdir W p y = (r, y') \<longrightarrow> (if r <s 0 then D (env y') = D (env y)
        else p \<notin> D (env y) \<and> D (env y') = insert p (D (env y)))) \<and>
     (\<forall>p m y r y'. w_chmod W p m y = (r, y') \<longrightarrow> D (env y') = D (env y)) \<and>
     (\<forall>p y r y'. w_rmdir W p y = (r, y') \<longrightarrow> D (env y') = (if r = 0 then D (env y) - {p} else D (env y)))"

lemma syscall_law:
  assumes "syscall f s = (r, s')" and "\<And>y'. f (sys s) = (r, y') \<Longrightarrow> Q (env (sys s)) (env y')"
  shows "Q (get_env s) (get_env s')"
  using assms by (auto simp: syscall_def get_env_def split: prod.splits)

lemma dir_lawsD:
  assumes "dir_laws W D"
  shows "w_mkdir W p y = (r, y') \<Longrightarrow> (if r <s 0 then D (env y') = D (env y)
      else p \<notin> D (env y) \<and> D (env y') = insert p (D (env y)))"
    and "w_chmod W p m y = (r, y') \<Longrightarrow> D (env y') = D (env y)"
    and "w_rmdir W p y = (r, y') \<Longrightarrow> D (env y') = (if r = 0 then D (env y) - {p} else D (env y))"
  using assms unfolding dir_laws_def by simp_all


definition demo_mkdir_win :: "string set win32" where
  "demo_mkdir_win = null_win\<lparr>
     w_mkdir := (\<lambda>p y. if p \<in> env y then (- 1, y) else (0, y\<lparr>env := insert p (env y)\<rparr>)),
     w_rmdir := (\<lambda>p y. (0, y\<lparr>env := env y - {p}\<rparr>))\<rparr>"

lemma demo_dir_laws: "dir_laws demo_mkdir_win id"
  by (simp add: dir_laws_def demo_mkdir_win_def null_win_def split: if_splits)


end
