(* ===== verification/AtCompat.thy ===== *)
theory AtCompat
  imports OpenCompat Mkdir
begin

text \<open>
  \<open>libc-compat/winsup/at.c\<close>: the functions that take a directory descriptor and a path, in terms
  of their plain counterparts and \<open>__get_path_at\<close>.
\<close>

section \<open>One path\<close>

abbreviation (input) AT_REMOVEDIR :: c_int where "AT_REMOVEDIR \<equiv> 1"
abbreviation (input) AT_SYMLINK_NOFOLLOW :: c_int where "AT_SYMLINK_NOFOLLOW \<equiv> 2"

definition readlinkat ::
  "bool \<Rightarrow> 'w win32 \<Rightarrow> c_int \<Rightarrow> string \<Rightarrow> size_t \<Rightarrow> 'w proc \<Rightarrow> ('w, ssize_t \<times> string) res" where
  "readlinkat nd W dirfd path len s =
     (if \<not> w_PathIsRelative W path then readlink nd W path len s
      else do {
        (real_path, s) \<leftarrow> get_path_at nd W dirfd path s;
        case real_path of None \<Rightarrow> Some ((- 1, []), s) | Some p \<Rightarrow> readlink nd W p len s
      })"

definition symlinkat ::
  "bool \<Rightarrow> 'w win32 \<Rightarrow> string \<Rightarrow> c_int \<Rightarrow> string \<Rightarrow> 'w proc \<Rightarrow> ('w, c_int) res" where
  "symlinkat nd W oldpath newdirfd newpath s =
     (if \<not> w_PathIsRelative W newpath then Some (symlink W oldpath newpath s)
      else do {
        (real_newpath, s) \<leftarrow> get_path_at nd W newdirfd newpath s;
        case real_newpath of None \<Rightarrow> Some (- 1, s) | Some p \<Rightarrow> Some (symlink W oldpath p s)
      })"

text \<open>The function pointer of \<open>unlinkat\<close> and of \<open>fstatat\<close>; nothing for an unknown flag.\<close>

definition unlinkat_funcptr :: "'w win32 \<Rightarrow> c_int \<Rightarrow> (string \<Rightarrow> ('w, c_int) ext) option" where
  "unlinkat_funcptr W flags =
     (if flags = AT_REMOVEDIR then Some (w_rmdir W) else if flags = 0 then Some (w_unlink W) else None)"

definition unlinkat :: "bool \<Rightarrow> 'w win32 \<Rightarrow> c_int \<Rightarrow> string \<Rightarrow> c_int \<Rightarrow> 'w proc \<Rightarrow> ('w, c_int) res" where
  "unlinkat nd W dirfd pathname flags s =
     (case unlinkat_funcptr W flags of
        None \<Rightarrow> Some (- 1, set_errno EINVAL s)
      | Some f \<Rightarrow>
          if \<not> w_PathIsRelative W pathname then Some (syscall (f pathname) s)
          else do {
            (real_pathname, s) \<leftarrow> get_path_at nd W dirfd pathname s;
            case real_pathname of None \<Rightarrow> Some (- 1, s) | Some p \<Rightarrow> Some (syscall (f p) s)
          })"

definition fstatat_funcptr ::
  "bool \<Rightarrow> 'w win32 \<Rightarrow> c_int \<Rightarrow> (string \<Rightarrow> stat \<Rightarrow> 'w proc \<Rightarrow> ('w, c_int \<times> stat) res) option" where
  "fstatat_funcptr nd W flags =
     (if flags = AT_SYMLINK_NOFOLLOW then Some (lstat nd W)
      else if flags = 0 then Some (\<lambda>path buf s. Some (syscall (w_stat W path) s)) else None)"

definition fstatat ::
  "bool \<Rightarrow> 'w win32 \<Rightarrow> c_int \<Rightarrow> string \<Rightarrow> stat \<Rightarrow> c_int \<Rightarrow> 'w proc \<Rightarrow> ('w, c_int \<times> stat) res" where
  "fstatat nd W dirfd pathname buf flags s =
     (case fstatat_funcptr nd W flags of
        None \<Rightarrow> Some ((- 1, buf), set_errno EINVAL s)
      | Some f \<Rightarrow>
          if \<not> w_PathIsRelative W pathname then f pathname buf s
          else do {
            (real_pathname, s) \<leftarrow> get_path_at nd W dirfd pathname s;
            case real_pathname of None \<Rightarrow> Some ((- 1, buf), s) | Some p \<Rightarrow> f p buf s
          })"

definition faccessat ::
  "bool \<Rightarrow> 'w win32 \<Rightarrow> c_int \<Rightarrow> string \<Rightarrow> c_int \<Rightarrow> c_int \<Rightarrow> 'w proc \<Rightarrow> ('w, c_int) res" where
  "faccessat nd W dirfd path mode flags s =
     (if flags = AT_SYMLINK_NOFOLLOW then do {
        ((r, buf), s) \<leftarrow> fstatat nd W dirfd path (w_stack_stat W) AT_SYMLINK_NOFOLLOW s;
        if r <s 0 then Some (- 1, s)
        else
          (let mode = mode AND 7 in
           if mode = 0 then Some (0, s)
           else if mode AND 4 \<noteq> 0 \<and> st_mode buf AND S_IR_ALL = 0 then Some (- 1, s)
           else if mode AND 2 \<noteq> 0 \<and> st_mode buf AND S_IW_ALL = 0 then Some (- 1, s)
           else if mode AND 1 \<noteq> 0 \<and> st_mode buf AND S_IX_ALL = 0 then Some (- 1, s)
           else Some (0, s))
      }
      else if flags \<noteq> 0 then Some (- 1, set_errno EINVAL s)
      else if \<not> w_PathIsRelative W path then Some (syscall (w_access W path mode) s)
      else do {
        (real_path, s) \<leftarrow> get_path_at nd W dirfd path s;
        case real_path of None \<Rightarrow> Some (- 1, s) | Some p \<Rightarrow> Some (syscall (w_access W p mode) s)
      })"

definition mkdirat :: "bool \<Rightarrow> 'w win32 \<Rightarrow> c_int \<Rightarrow> string \<Rightarrow> mode_t \<Rightarrow> 'w proc \<Rightarrow> ('w, c_int) res" where
  "mkdirat nd W dirfd pathname mode s =
     (if \<not> w_PathIsRelative W pathname then mkdir_stub nd W pathname mode s
      else do {
        (real_pathname, s) \<leftarrow> get_path_at nd W dirfd pathname s;
        case real_pathname of None \<Rightarrow> Some (- 1, s) | Some p \<Rightarrow> mkdir_stub nd W p mode s
      })"

text \<open>
  \<open>openat\<close>: the resolved path is computed and freed, and the call is made with the path it was
  given (lines 165 and 167).
\<close>

definition openat ::
  "bool \<Rightarrow> 'w win32 \<Rightarrow> c_int \<Rightarrow> string \<Rightarrow> c_int \<Rightarrow> mode_t option \<Rightarrow> 'w proc \<Rightarrow> ('w, c_int) res" where
  "openat nd W dirfd pathname flags ap s = do {
     (ok, s) \<leftarrow>
       (if \<not> w_PathIsRelative W pathname then
          (let (ok, s) = syscall (w_strdup W pathname) s in
           if ok then Some (True, s) else c_assert nd False \<bind> (\<lambda>_. Some (True, s)))
        else do {
          (real_pathname, s) \<leftarrow> get_path_at nd W dirfd pathname s;
          Some (real_pathname \<noteq> None, s)
        });
     if \<not> ok then Some (- 1, s)
     else if flags AND O_CREAT \<noteq> 0 then
       (case ap of None \<Rightarrow> None | Some mode \<Rightarrow> wrap_open nd W pathname flags (Some mode) s)
     else wrap_open nd W pathname flags None s
   }"

section \<open>Two paths\<close>

text \<open>
  \<open>linkat\<close> and \<open>renameat\<close> copy absolute paths with \<open>strdup\<close>. When the first copy fails, a
  debug build stops at the assertion and a release build goes on with a null pointer; when the
  second copy fails, the jump to \<open>strdup_failed\<close> leads a release build back to the same
  \<open>strdup\<close>.
\<close>

partial_function (option) strdup_again :: "bool \<Rightarrow> 'w win32 \<Rightarrow> string \<Rightarrow> 'w proc \<Rightarrow> 'w proc option" where
  "strdup_again nd W path s =
     (case syscall (w_strdup W path) s of
        (ok, s) \<Rightarrow> if ok then Some s else c_assert nd False \<bind> (\<lambda>_. strdup_again nd W path s))"

definition both_paths ::
  "bool \<Rightarrow> 'w win32 \<Rightarrow> c_int \<Rightarrow> string \<Rightarrow> c_int \<Rightarrow> string \<Rightarrow>
   (string \<Rightarrow> string \<Rightarrow> 'w proc \<Rightarrow> c_int \<times> 'w proc) \<Rightarrow> 'w proc \<Rightarrow> ('w, c_int) res" where
  "both_paths nd W dirfd1 path1 dirfd2 path2 call s = do {
     (go, real_path1, s) \<leftarrow>
       (if \<not> w_PathIsRelative W path1 then
          (let (ok, s) = syscall (w_strdup W path1) s in
           if ok then Some (True, Some path1, s) else c_assert nd False \<bind> (\<lambda>_. Some (True, None, s)))
        else do {
          (p, s) \<leftarrow> get_path_at nd W dirfd1 path1 s;
          Some (p \<noteq> None, p, s)
        });
     if \<not> go then Some (- 1, s)
     else do {
       (real_path2, s) \<leftarrow>
         (if \<not> w_PathIsRelative W path2
          then strdup_again nd W path2 s \<bind> (\<lambda>s. Some (Some path2, s))
          else get_path_at nd W dirfd2 path2 s);
       case real_path2 of
         None \<Rightarrow> Some (- 1, s)
       | Some p2 \<Rightarrow> (case real_path1 of None \<Rightarrow> None | Some p1 \<Rightarrow> Some (call p1 p2 s))
     }
   }"

definition linkat ::
  "bool \<Rightarrow> 'w win32 \<Rightarrow> c_int \<Rightarrow> string \<Rightarrow> c_int \<Rightarrow> string \<Rightarrow> c_int \<Rightarrow> 'w proc \<Rightarrow> ('w, c_int) res" where
  "linkat nd W dirfd1 path1 dirfd2 path2 flags s =
     both_paths nd W dirfd1 path1 dirfd2 path2 (link W) s"

definition renameat ::
  "bool \<Rightarrow> 'w win32 \<Rightarrow> c_int \<Rightarrow> string \<Rightarrow> c_int \<Rightarrow> string \<Rightarrow> 'w proc \<Rightarrow> ('w, c_int) res" where
  "renameat nd W olddirfd oldpath newdirfd newpath s =
     both_paths nd W olddirfd oldpath newdirfd newpath (\<lambda>p q s. syscall (w_rename W p q) s) s"

section \<open>The contract of a function relative to a directory\<close>

text \<open>
  \<open>at\<close> is a function that takes a directory descriptor and a path, \<open>plain\<close> its counterpart
  without the descriptor, \<open>resolve\<close> makes a path of the two, and \<open>fail\<close> is the result for a
  path that cannot be resolved.
\<close>

locale at_wrapper =
  fixes relative :: "string \<Rightarrow> bool"
    and resolve :: "c_int \<Rightarrow> string \<Rightarrow> 's \<Rightarrow> (string option \<times> 's) option"
    and at :: "c_int \<Rightarrow> string \<Rightarrow> 's \<Rightarrow> ('r \<times> 's) option"
    and plain :: "string \<Rightarrow> 's \<Rightarrow> ('r \<times> 's) option"
    and fail :: 'r
  assumes absolute: "\<not> relative p \<Longrightarrow> at d p s = plain p s"
    and resolved: "relative p \<Longrightarrow> resolve d p s = Some (Some q, s1) \<Longrightarrow> at d p s = plain q s1"
    and unresolved: "relative p \<Longrightarrow> resolve d p s = Some (None, s1) \<Longrightarrow> at d p s = Some (fail, s1)"
    and stuck: "relative p \<Longrightarrow> resolve d p s = None \<Longrightarrow> at d p s = None"
begin

lemma dirfd_of_absolute: "\<not> relative p \<Longrightarrow> at d p s = at d' p s"
  by (simp add: absolute)

lemma at_cases:
  assumes "at d p s = Some (r, s')"
  obtains "\<not> relative p" "plain p s = Some (r, s')"
  | q s1 where "relative p" "resolve d p s = Some (Some q, s1)" "plain q s1 = Some (r, s')"
  | "relative p" "resolve d p s = Some (None, s')" "r = fail"
proof (cases "relative p")
  case False
  with assms that(1) show thesis by (simp add: absolute)
next
  case True
  show thesis
  proof (cases "resolve d p s")
    case None
    with True assms show thesis by (simp add: stuck)
  next
    case (Some x)
    obtain q s1 where x: "x = (q, s1)" by (cases x)
    show thesis
    proof (cases q)
      case None
      with True Some x assms that(3) show thesis by (simp add: unresolved)
    next
      case (Some q')
      with True \<open>resolve d p s = Some x\<close> x assms that(2) show thesis by (simp add: resolved)
    qed
  qed
qed

text \<open>What the plain function and the resolution keep, the wrapper keeps.\<close>

lemma at_keeps:
  assumes "at d p s = Some (r, s')" and "I s"
    and "\<And>q s r s'. plain q s = Some (r, s') \<Longrightarrow> I s \<Longrightarrow> I s'"
    and "\<And>q s r s'. resolve d q s = Some (r, s') \<Longrightarrow> I s \<Longrightarrow> I s'"
  shows "I s'"
  using assms(1) by (rule at_cases) (use assms(2-4) in blast)+

end

interpretation rl: at_wrapper "w_PathIsRelative W" "get_path_at nd W" "\<lambda>d p. readlinkat nd W d p len"
    "\<lambda>p. readlink nd W p len" "(- 1, [])" for nd W len
  by unfold_locales (simp_all add: readlinkat_def)

interpretation sl: at_wrapper "w_PathIsRelative W" "get_path_at nd W" "\<lambda>d p. symlinkat nd W old d p"
    "\<lambda>p s. Some (symlink W old p s)" "- 1" for nd W old
  by unfold_locales (simp_all add: symlinkat_def)

interpretation ul: at_wrapper "w_PathIsRelative W" "get_path_at nd W" "\<lambda>d p. unlinkat nd W d p 0"
    "\<lambda>p s. Some (syscall (w_unlink W p) s)" "- 1" for nd W
  by unfold_locales (simp_all add: unlinkat_def unlinkat_funcptr_def)

interpretation rd: at_wrapper "w_PathIsRelative W" "get_path_at nd W" "\<lambda>d p. unlinkat nd W d p AT_REMOVEDIR"
    "\<lambda>p s. Some (syscall (w_rmdir W p) s)" "- 1" for nd W
  by unfold_locales (simp_all add: unlinkat_def unlinkat_funcptr_def)

interpretation fs: at_wrapper "w_PathIsRelative W" "get_path_at nd W" "\<lambda>d p. fstatat nd W d p buf 0"
    "\<lambda>p s. Some (syscall (w_stat W p) s)" "(- 1, buf)" for nd W buf
  by unfold_locales (simp_all add: fstatat_def fstatat_funcptr_def)

interpretation ls: at_wrapper "w_PathIsRelative W" "get_path_at nd W"
    "\<lambda>d p. fstatat nd W d p buf AT_SYMLINK_NOFOLLOW" "\<lambda>p. lstat nd W p buf" "(- 1, buf)" for nd W buf
  by unfold_locales (simp_all add: fstatat_def fstatat_funcptr_def)

interpretation ac: at_wrapper "w_PathIsRelative W" "get_path_at nd W" "\<lambda>d p. faccessat nd W d p mode 0"
    "\<lambda>p s. Some (syscall (w_access W p mode) s)" "- 1" for nd W mode
  by unfold_locales (simp_all add: faccessat_def)

interpretation md: at_wrapper "w_PathIsRelative W" "get_path_at nd W" "\<lambda>d p. mkdirat nd W d p mode"
    "\<lambda>p. mkdir_stub nd W p mode" "- 1" for nd W mode
  by unfold_locales (simp_all add: mkdirat_def)

section \<open>The path that a descriptor and a path stand for\<close>

text \<open>
  An absolute path stands for itself, whatever the descriptor. A relative one stands for the path
  that \<open>joined_path\<close> makes of the descriptor's path, if the descriptor is one of a directory, or
  for none.
\<close>

definition stands_for ::
  "bool \<Rightarrow> 'w win32 \<Rightarrow> c_int \<Rightarrow> string \<Rightarrow> 'w proc \<Rightarrow> string option \<Rightarrow> 'w proc \<Rightarrow> bool" where
  "stands_for nd W d p s q s' \<longleftrightarrow>
     (if \<not> w_PathIsRelative W p then q = Some p \<and> s' = s
      else \<exists>r0 buf s1 dir parent s2.
        fstat nd W d (w_stack_stat W) s = Some ((r0, buf), s1) \<and>
        (dir \<longleftrightarrow> \<not> r0 <s 0 \<and> S_ISDIR (st_mode buf)) \<and>
        (dir \<longrightarrow> fd_get_path W d s1 = Some (parent, s2)) \<and>
        joined_path W dir s1 parent s2 p = (q, s'))"

lemma stands_for_relative:
  assumes "w_PathIsRelative W p"
  shows "stands_for nd W d p s q s' \<longleftrightarrow> get_path_at nd W d p s = Some (q, s')"
proof
  assume "stands_for nd W d p s q s'"
  then have "\<exists>r0 buf s1 dir parent s2. fstat nd W d (w_stack_stat W) s = Some ((r0, buf), s1) \<and>
      (dir \<longleftrightarrow> \<not> r0 <s 0 \<and> S_ISDIR (st_mode buf)) \<and>
      (dir \<longrightarrow> fd_get_path W d s1 = Some (parent, s2)) \<and> joined_path W dir s1 parent s2 p = (q, s')"
    by (simp only: stands_for_def assms not_True_eq_False if_False)
  then obtain r0 buf s1 dir parent s2 where
      "fstat nd W d (w_stack_stat W) s = Some ((r0, buf), s1)"
      "dir \<longleftrightarrow> \<not> r0 <s 0 \<and> S_ISDIR (st_mode buf)"
      "dir \<longrightarrow> fd_get_path W d s1 = Some (parent, s2)" and j: "joined_path W dir s1 parent s2 p = (q, s')"
    by blast
  from get_path_at_joined [OF this(1-3)] j show "get_path_at nd W d p s = Some (q, s')" by simp
next
  assume "get_path_at nd W d p s = Some (q, s')"
  then show "stands_for nd W d p s q s'"
    unfolding stands_for_def
    by (rule get_path_at_cases) (simp only: assms not_True_eq_False if_False, blast)
qed

lemma stands_for_absolute:
  "\<not> w_PathIsRelative W p \<Longrightarrow> stands_for nd W d p s q s' \<longleftrightarrow> q = Some p \<and> s' = s"
  by (simp add: stands_for_def)

context at_wrapper
begin

text \<open>A wrapper calls its plain function on the path, and fails without calling it if there is none.\<close>

lemma at_stands_for:
  assumes "if relative p then resolve d p s = Some (q, s1) else q = Some p \<and> s1 = s"
  shows "at d p s = (case q of None \<Rightarrow> Some (fail, s1) | Some q \<Rightarrow> plain q s1)"
  using assms by (auto simp: absolute resolved unresolved split: if_splits option.splits)

end

text \<open>The permission bits that \<open>faccessat\<close> asks for, in the mode of a file.\<close>

definition permits :: "c_int \<Rightarrow> mode_t \<Rightarrow> bool" where
  "permits mode m \<longleftrightarrow> (mode AND 4 \<noteq> 0 \<longrightarrow> m AND S_IR_ALL \<noteq> 0) \<and>
     (mode AND 2 \<noteq> 0 \<longrightarrow> m AND S_IW_ALL \<noteq> 0) \<and> (mode AND 1 \<noteq> 0 \<longrightarrow> m AND S_IX_ALL \<noteq> 0)"

lemma and_seven: "(mode AND 7) AND 4 = mode AND 4" "(mode AND 7) AND 2 = mode AND 2"
    "(mode AND 7) AND 1 = mode AND (1 :: c_int)"
  by (simp_all add: and.assoc)

lemma permits_nothing: "mode AND 7 = 0 \<Longrightarrow> permits mode m"
  using and_seven [of mode] by (simp add: permits_def)

lemma faccessat_result:
  "faccessat nd W d p mode AT_SYMLINK_NOFOLLOW s = do {
     ((r, buf), s) \<leftarrow> fstatat nd W d p (w_stack_stat W) AT_SYMLINK_NOFOLLOW s;
     Some (if r <s 0 \<or> \<not> permits mode (st_mode buf) then - 1 else 0, s)
   }"
  using permits_nothing [of mode]
  by (cases "fstatat nd W d p (w_stack_stat W) AT_SYMLINK_NOFOLLOW s"; cases "mode AND 7 = 0")
    (auto simp: faccessat_def Let_def permits_def and_seven)

section \<open>Properties\<close>

text \<open>
  Property C7. The six functions of \<open>at.c\<close> with one path, other than \<open>openat\<close>, with every flag:
  \<open>q\<close> is the path that descriptor and path stand for, or none. Each function does what its plain
  counterpart does on \<open>q\<close>; if there is no path it fails with the \<open>errno\<close> of the resolution and
  the plain function is not called; unknown flags are refused with \<open>EINVAL\<close> before anything else is
  done; and \<open>faccessat\<close> that does not follow links grants exactly what the mode of the file grants.
\<close>

theorem at_functions_resolve:
  assumes "stands_for nd W d p s q s1"
  shows "readlinkat nd W d p len s =
      (case q of None \<Rightarrow> Some ((- 1, []), s1) | Some f \<Rightarrow> readlink nd W f len s1) \<and>
    symlinkat nd W old d p s =
      (case q of None \<Rightarrow> Some (- 1, s1) | Some f \<Rightarrow> Some (symlink W old f s1)) \<and>
    unlinkat nd W d p flags s =
      (if flags \<noteq> 0 \<and> flags \<noteq> AT_REMOVEDIR then Some (- 1, set_errno EINVAL s)
       else case q of None \<Rightarrow> Some (- 1, s1)
         | Some f \<Rightarrow> Some (syscall (if flags = 0 then w_unlink W f else w_rmdir W f) s1)) \<and>
    fstatat nd W d p buf flags s =
      (if flags \<noteq> 0 \<and> flags \<noteq> AT_SYMLINK_NOFOLLOW then Some ((- 1, buf), set_errno EINVAL s)
       else case q of None \<Rightarrow> Some ((- 1, buf), s1)
         | Some f \<Rightarrow> (if flags = 0 then Some (syscall (w_stat W f) s1) else lstat nd W f buf s1)) \<and>
    faccessat nd W d p mode flags s =
      (if flags \<noteq> 0 \<and> flags \<noteq> AT_SYMLINK_NOFOLLOW then Some (- 1, set_errno EINVAL s)
       else case q of None \<Rightarrow> Some (- 1, s1)
         | Some f \<Rightarrow>
             if flags = 0 then Some (syscall (w_access W f mode) s1)
             else do {
               ((r, b), s2) \<leftarrow> lstat nd W f (w_stack_stat W) s1;
               Some (if r <s 0 \<or> \<not> permits mode (st_mode b) then - 1 else 0, s2)
             }) \<and>
    mkdirat nd W d p m s =
      (case q of None \<Rightarrow> Some (- 1, s1) | Some f \<Rightarrow> mkdir_stub nd W f m s1)"
proof -
  have q: "if w_PathIsRelative W p then get_path_at nd W d p s = Some (q, s1) else q = Some p \<and> s1 = s"
    using assms stands_for_relative stands_for_absolute by metis
  have stat: "fstatat nd W d p b flags s =
      (if flags \<noteq> 0 \<and> flags \<noteq> AT_SYMLINK_NOFOLLOW then Some ((- 1, b), set_errno EINVAL s)
       else case q of None \<Rightarrow> Some ((- 1, b), s1)
         | Some f \<Rightarrow> (if flags = 0 then Some (syscall (w_stat W f) s1) else lstat nd W f b s1))"
    for b flags
    using fs.at_stands_for [OF q] ls.at_stands_for [OF q]
    by (simp add: fstatat_def fstatat_funcptr_def split: option.splits)
  have link: "unlinkat nd W d p flags s =
      (if flags \<noteq> 0 \<and> flags \<noteq> AT_REMOVEDIR then Some (- 1, set_errno EINVAL s)
       else case q of None \<Rightarrow> Some (- 1, s1)
         | Some f \<Rightarrow> Some (syscall (if flags = 0 then w_unlink W f else w_rmdir W f) s1))"
    using ul.at_stands_for [OF q] rd.at_stands_for [OF q]
    by (simp add: unlinkat_def unlinkat_funcptr_def split: option.splits)
  have acc: "faccessat nd W d p mode flags s =
      (if flags \<noteq> 0 \<and> flags \<noteq> AT_SYMLINK_NOFOLLOW then Some (- 1, set_errno EINVAL s)
       else case q of None \<Rightarrow> Some (- 1, s1)
         | Some f \<Rightarrow>
             if flags = 0 then Some (syscall (w_access W f mode) s1)
             else do {
               ((r, b), s2) \<leftarrow> lstat nd W f (w_stack_stat W) s1;
               Some (if r <s 0 \<or> \<not> permits mode (st_mode b) then - 1 else 0, s2)
             })"
  proof (cases "flags = AT_SYMLINK_NOFOLLOW")
    case True
    then show ?thesis
      using stat [of "w_stack_stat W" AT_SYMLINK_NOFOLLOW]
      by (auto simp: faccessat_result split: option.splits)
  next
    case False
    then show ?thesis using ac.at_stands_for [OF q] by (simp add: faccessat_def split: option.splits)
  qed
  show ?thesis
    using rl.at_stands_for [OF q] sl.at_stands_for [OF q] md.at_stands_for [OF q] stat link acc
    by blast
qed

text \<open>
  Property C38. \<open>openat\<close> ignores its directory: for a relative path that the descriptor
  resolves, the call opens the path as it was given, relative to the current directory of the
  process, and the resolved path \<open>q\<close> is not used.
\<close>

theorem openat_ignores_directory:
  assumes "w_PathIsRelative W p" and "get_path_at nd W d p s = Some (Some q, s1)"
    and "flags AND O_CREAT = 0 \<and> ap = None \<or> flags AND O_CREAT \<noteq> 0 \<and> ap = Some mode"
  shows "openat nd W d p flags ap s = wrap_open nd W p flags ap s1"
  using assms by (auto simp: openat_def)

text \<open>
  Property C39. \<open>faccessat\<close> that does not follow links and finds a permission missing: the call
  returns -1 without setting \<open>errno\<close>, so the caller sees the value that was there before, even 0.
\<close>

theorem faccessat_denied_without_errno:
  assumes "fstatat nd W d p (w_stack_stat W) AT_SYMLINK_NOFOLLOW s = Some ((r, buf), s1)" and "\<not> r <s 0"
    and "mode AND 2 \<noteq> 0" and "st_mode buf AND S_IW_ALL = 0"
  shows "faccessat nd W d p mode AT_SYMLINK_NOFOLLOW s = Some (- 1, s1)"
proof -
  have seven: "(mode AND 7) AND 2 = mode AND 2" by (simp add: and.assoc)
  moreover have "mode AND 7 \<noteq> 0"
  proof
    assume "mode AND 7 = 0"
    then show False using seven assms(3) by (metis bit.conj_zero_left)
  qed
  ultimately show ?thesis using assms by (simp add: faccessat_def Let_def)
qed

section \<open>Witnesses\<close>

lemma demo_resolve: "get_path_at nd demo_dir_win 3 ''f'' (demo_proc ()) =
    Some (Some (demo_dir @ ''/f''), demo_proc ())"
  using demo_get_path_at [of "''f''" nd] by (simp add: length_demo_dir)

lemma demo_relative: "w_PathIsRelative demo_dir_win ''f''"
  by (simp add: demo_dir_win_def)

theorem at_functions_resolve_witness:
  "unlinkat True demo_dir_win 3 ''f'' 0 (demo_proc ()) =
     Some (syscall (w_unlink demo_dir_win (demo_dir @ ''/f'')) (demo_proc ()))"
proof -
  have "stands_for True demo_dir_win 3 ''f'' (demo_proc ()) (Some (demo_dir @ ''/f'')) (demo_proc ())"
    by (simp add: stands_for_relative demo_relative demo_resolve)
  from at_functions_resolve [OF this, where flags = 0] show ?thesis by simp
qed

theorem openat_ignores_directory_witness:
  "openat True demo_dir_win 3 ''f'' O_RDONLY None (demo_proc ()) =
     wrap_open True demo_dir_win ''f'' O_RDONLY None (demo_proc ())"
  by (rule openat_ignores_directory [OF demo_relative demo_resolve]) simp

text \<open>A read-only regular file, found by an absolute path.\<close>

definition demo_denied_win :: "unit win32" where
  "demo_denied_win = demo_stat_win\<lparr>
     w_PathIsRelative := (\<lambda>_. False),
     w_CreateFile := (\<lambda>p a m d f y. (77, y)),
     w_open_osfhandle := (\<lambda>h f y. (3, y))\<rparr>"

lemma demo_denied_path: "fd_get_path demo_denied_win 3 (demo_proc ()) =
    Some (Some demo_dir, demo_proc ())"
  unfolding demo_dir_def
  by (rule fd_get_path_steps [where h = 77 and n = 18 and ?s1.0 = "demo_proc ()"
        and ?s2.0 = "demo_proc ()" and r = "replicate 241 (CHR ''z'')"])
    (simp_all add: demo_denied_win_def demo_stat_win_def demo_path_win_def syscall_def demo_unc_def
      unc_prefix_def ext_prefix_def)

lemma demo_denied_fstatat: "\<exists>buf. fstatat True demo_denied_win 3 ''/f'' (w_stack_stat demo_denied_win)
    AT_SYMLINK_NOFOLLOW (demo_proc ()) = Some ((0, buf), demo_proc ()) \<and> st_mode buf AND S_IW_ALL = 0"
proof -
  have calls: "syscall (w_get_osfhandle demo_denied_win 3) (demo_proc ()) = (77, demo_proc ())"
    "syscall (w_GetFileInformationByHandle demo_denied_win 77) (demo_proc ()) =
      (Some (demo_info FILE_ATTRIBUTE_READONLY), demo_proc ())"
    "syscall (w_GetFileType demo_denied_win 77) (demo_proc ()) = (FILE_TYPE_DISK, demo_proc ())"
    "syscall (w_close demo_denied_win 3) (demo_proc ()) = (- 1, demo_proc ())"
    "open_symlink_fd demo_denied_win ''/f'' GENERIC_READ FILE_SHARE_VALID_FLAGS 0 (demo_proc ()) =
      (3, demo_proc ())"
    "w_PathIsRelative demo_denied_win ''/f'' = False"
    by (simp_all add: demo_denied_win_def demo_stat_win_def demo_path_win_def null_win_def syscall_def
        open_symlink_fd_def open_handle_fd_def word_sless_alt)
  then show ?thesis
    by (simp add: fstatat_def fstatat_funcptr_def lstat_def fstat_def fstat64_def demo_denied_path
        stat_size_def demo_info_def stat_of_type_def stat_zero_def word_sless_alt Let_def
        split: option.splits)
qed

theorem faccessat_denied_without_errno_witness:
  "faccessat True demo_denied_win 3 ''/f'' 2 AT_SYMLINK_NOFOLLOW (demo_proc ()) = Some (- 1, demo_proc ()) \<and>
   get_errno (demo_proc ()) = EOK"
proof -
  obtain buf where "fstatat True demo_denied_win 3 ''/f'' (w_stack_stat demo_denied_win)
      AT_SYMLINK_NOFOLLOW (demo_proc ()) = Some ((0, buf), demo_proc ())" "st_mode buf AND S_IW_ALL = 0"
    using demo_denied_fstatat by blast
  from faccessat_denied_without_errno [OF this(1) _ _ this(2), of 2] show ?thesis
    by (simp add: word_sless_alt get_errno_def demo_proc_def init_oflag_cache_def)
qed

end
