(* ===== verification/Dirent.thy ===== *)
theory Dirent
  imports AtCompat StrCompat
begin

text \<open>
  \<open>libc-compat/winsup/dirent.c\<close>: a directory stream that remembers a descriptor of its
  directory, and entries with a type.

  A \<open>_DIR_stub *\<close> is an option, \<^const>\<open>None\<close> for a null pointer. The static entry of
  \<open>_readdir_stub\<close> is passed in and returned. With \<open>NDEBUG\<close> the calls of \<open>fstatat\<close> and
  \<open>lseek\<close>, which stand inside assertions, are not made, and the \<open>struct stat\<close> on the stack keeps
  what it held before, the field \<open>w_stack_stat\<close> of the platform.
\<close>

section \<open>Streams\<close>

record dir_stub =
  ds_dirp :: ptr
  ds_fd :: c_int

record dirent_stub =
  d_ino :: c_int
  d_type :: byte
  d_reclen :: "16 word"
  d_namlen :: "16 word"
  d_name :: "byte list"

definition opendir_stub :: "bool \<Rightarrow> 'w win32 \<Rightarrow> string \<Rightarrow> 'w proc \<Rightarrow> ('w, dir_stub option) res" where
  "opendir_stub nd W path s = do {
     (fd, s) \<leftarrow> wrap_open nd W path 0 None s;
     if fd <s 0 then Some (None, s)
     else
       (let (ok, s) = syscall (w_malloc W 16) s in
        if \<not> ok then (let (_, s) = syscall (w_close W fd) s in Some (None, s))
        else
          (let (real_dirp, s) = syscall (w_opendir W path) s in
           if real_dirp = 0 then (let (_, s) = syscall (w_close W fd) s in Some (None, s))
           else Some (Some \<lparr>ds_dirp = real_dirp, ds_fd = fd\<rparr>, s)))
   }"

definition fdopendir :: "bool \<Rightarrow> 'w win32 \<Rightarrow> c_int \<Rightarrow> 'w proc \<Rightarrow> ('w, dir_stub option) res" where
  "fdopendir nd W fd s = do {
     (dir, s) \<leftarrow> is_dirfd nd W fd s;
     if \<not> dir then Some (None, s)
     else do {
       (path, s) \<leftarrow> fd_get_path W fd s;
       case path of
         None \<Rightarrow> Some (None, set_errno_via_winerr (get_last_error s) s)
       | Some path \<Rightarrow>
           (let (ok, s) = syscall (w_malloc W 16) s in
            if \<not> ok then Some (None, s)
            else
              (let (real_dirp, s) = syscall (w_opendir W path) s in
               if real_dirp = 0 then Some (None, s)
               else Some (Some \<lparr>ds_dirp = real_dirp, ds_fd = fd\<rparr>, s)))
     }
   }"

text \<open>Lines 126 to 139.\<close>

definition dirent_type :: "mode_t \<Rightarrow> byte" where
  "dirent_type m =
     (let f = m AND S_IFMT in
      if f = S_IFREG then 1 else if f = S_IFLNK then 2 else if f = S_IFDIR then 3
      else if f = S_IFIFO then 4 else if f = S_IFSOCK then 5 else if f = S_IFBLK then 6
      else if f = S_IFCHR then 7 else 0)"

definition name_string :: "byte list \<Rightarrow> string" where
  "name_string bs = map (\<lambda>b. char_of (unat b)) (takeWhile (\<lambda>b. b \<noteq> 0) bs)"

text \<open>
  \<open>assert (!lseek (fd, loc, whence))\<close>: the descriptor is only moved by a debug build, and the call
  returns only if the new offset is 0.
\<close>

definition assert_lseek :: "bool \<Rightarrow> 'w win32 \<Rightarrow> c_int \<Rightarrow> c_int \<Rightarrow> c_int \<Rightarrow> 'w proc \<Rightarrow> 'w proc option" where
  "assert_lseek nd W fd loc whence s =
     (if nd then Some s
      else (let (off, s) = syscall (w_lseek W fd loc whence) s in if off = 0 then Some s else None))"

definition readdir_stub ::
  "bool \<Rightarrow> 'w win32 \<Rightarrow> dir_stub option \<Rightarrow> dirent_stub \<Rightarrow> 'w proc \<Rightarrow> ('w, bool \<times> dirent_stub) res" where
  "readdir_stub nd W dirp res s =
     (case dirp of
        None \<Rightarrow> Some ((False, res), set_errno EBADF s)
      | Some dirp \<Rightarrow>
          if ds_dirp dirp = 0 \<or> ds_fd dirp <s 0 then Some ((False, res), set_errno EBADF s)
          else
            (case syscall (w_readdir W (ds_dirp dirp)) s of
               (None, s) \<Rightarrow> Some ((False, res), s)
             | (Some d, s) \<Rightarrow> do {
                 (buf, s) \<leftarrow>
                   (if nd then Some (w_stack_stat W, s)
                    else do {
                      ((r, buf), s) \<leftarrow> fstatat nd W (ds_fd dirp) (name_string (de_name d))
                        (w_stack_stat W) AT_SYMLINK_NOFOLLOW s;
                      if r <s 0 then None else Some (buf, s)
                    });
                 let typ = dirent_type (st_mode buf);
                 (len, name) \<leftarrow> strlcpy (d_name res) (de_name d)
                   (min (length (d_name res)) (unat (de_namlen d)));
                 let res = \<lparr>d_ino = de_ino d, d_type = typ, d_reclen = de_reclen d,
                   d_namlen = of_nat len, d_name = name\<rparr>;
                 s \<leftarrow> assert_lseek nd W (ds_fd dirp) 1 1 s;
                 Some ((True, res), s)
               }))"

definition closedir_stub :: "'w win32 \<Rightarrow> dir_stub option \<Rightarrow> 'w proc \<Rightarrow> c_int \<times> 'w proc" where
  "closedir_stub W dirp s =
     (case dirp of
        None \<Rightarrow> (- 1, set_errno EBADF s)
      | Some dirp \<Rightarrow>
          (let s = (if ds_dirp dirp \<noteq> 0 then snd (syscall (w_closedir W (ds_dirp dirp)) s) else s);
               s = (if \<not> ds_fd dirp <s 0 then snd (syscall (w_close W (ds_fd dirp)) s) else s)
           in (0, s)))"

definition rewinddir_stub :: "bool \<Rightarrow> 'w win32 \<Rightarrow> dir_stub option \<Rightarrow> 'w proc \<Rightarrow> 'w proc option" where
  "rewinddir_stub nd W dirp s =
     (case dirp of
        None \<Rightarrow> Some s
      | Some dirp \<Rightarrow>
          (let s = (if ds_dirp dirp \<noteq> 0 then snd (syscall (w_rewinddir W (ds_dirp dirp)) s) else s) in
           if \<not> ds_fd dirp <s 0 then assert_lseek nd W (ds_fd dirp) 0 0 s else Some s))"

definition telldir_stub :: "'w win32 \<Rightarrow> dir_stub option \<Rightarrow> 'w proc \<Rightarrow> c_int \<times> 'w proc" where
  "telldir_stub W dirp s =
     (case dirp of
        None \<Rightarrow> (- 1, set_errno EBADF s)
      | Some dirp \<Rightarrow>
          if ds_dirp dirp = 0 then (- 1, set_errno EBADF s)
          else syscall (w_telldir W (ds_dirp dirp)) s)"

definition seekdir_stub :: "bool \<Rightarrow> 'w win32 \<Rightarrow> dir_stub option \<Rightarrow> c_int \<Rightarrow> 'w proc \<Rightarrow> 'w proc option" where
  "seekdir_stub nd W dirp loc s =
     (case dirp of
        None \<Rightarrow> Some s
      | Some dirp \<Rightarrow>
          (let s = (if ds_dirp dirp \<noteq> 0 then snd (syscall (w_seekdir W (ds_dirp dirp) loc) s) else s) in
           if \<not> ds_fd dirp <s 0 then assert_lseek nd W (ds_fd dirp) loc 0 s else Some s))"

definition dirfd :: "dir_stub option \<Rightarrow> 'w proc \<Rightarrow> c_int \<times> 'w proc" where
  "dirfd dirp s = (case dirp of None \<Rightarrow> (- 1, set_errno EINVAL s) | Some dirp \<Rightarrow> (ds_fd dirp, s))"

section \<open>Properties\<close>

lemma name_string_terminated: "0 \<notin> set str \<Longrightarrow> name_string (str @ 0 # r) = map (\<lambda>b. char_of (unat b)) str"
  by (simp add: name_string_def)

text \<open>
  Property C37. \<open>readdir\<close> loses the last character of every name: \<open>strlcpy\<close> is given the length
  of the name as the size of the buffer, so whenever the call returns an entry, in either build,
  the name in it is the real one without its last character, while \<open>d_namlen\<close> has the full
  length; and in a release build the type is whatever the stack held.
\<close>

theorem readdir_drops_last_char:
  assumes "readdir_stub nd W (Some dirp) res s = Some ((True, res'), s')"
    and "syscall (w_readdir W (ds_dirp dirp)) s = (Some d, s1)"
    and "de_name d = str @ 0 # r" and "0 \<notin> set str" and "str \<noteq> []"
    and "unat (de_namlen d) = length str" and "length str < length (d_name res)"
  shows "name_string (d_name res') = butlast (name_string (de_name d)) \<and>
    d_namlen res' = de_namlen d \<and> (nd \<longrightarrow> d_type res' = dirent_type (st_mode (w_stack_stat W)))"
proof -
  let ?n = "length str"
  have n: "min (length (d_name res)) (unat (de_namlen d)) = ?n" "?n \<noteq> 0" using assms(5-7) by auto
  have copy: "strlcpy (d_name res) (de_name d) ?n = Some (?n, strlcpy_result (d_name res) str ?n)"
    using strlcpy_spec_lemma [OF assms(4), of ?n "d_name res" r] assms(3,7) by simp
  have name: "strlcpy_result (d_name res) str ?n = butlast str @ 0 # drop ?n (d_name res)"
    using n(2) by (simp add: strlcpy_result_def Let_def butlast_conv_take)
  have "of_nat ?n = de_namlen d" using assms(6) [symmetric] by simp
  then have "d_name res' = butlast str @ 0 # drop ?n (d_name res) \<and> d_namlen res' = de_namlen d \<and>
      (nd \<longrightarrow> d_type res' = dirent_type (st_mode (w_stack_stat W)))"
    using assms(1,2) copy unfolding name [symmetric]
    by (auto simp: readdir_stub_def n(1) split: if_splits)
  moreover have "0 \<notin> set (butlast str)" using assms(4) by (meson in_set_butlastD)
  ultimately show ?thesis
    using assms(3,4) by (simp add: name_string_terminated map_butlast)
qed

text \<open>
  In a debug build \<open>readdir\<close> never returns an entry: the assertion behind it
  asks for \<open>lseek\<close> by one byte from the current offset to return 0, but \<open>lseek\<close> returns the new
  offset, which is positive, or -1.
\<close>

theorem readdir_debug_never_returns_entry:
  assumes "\<forall>y. fst (w_lseek W (ds_fd dirp) 1 1 y) \<noteq> 0"
  shows "readdir_stub False W (Some dirp) res s \<noteq> Some ((True, res'), s')"
proof -
  have no: "assert_lseek False W (ds_fd dirp) 1 1 t = None" for t
    using assms by (auto simp: assert_lseek_def syscall_def split: prod.splits) (metis fst_conv)
  show ?thesis
    by (auto simp: readdir_stub_def no split: option.splits prod.splits)
qed

text \<open>
  Property C29. \<open>opendir\<close> leaks no descriptor: it returns a stream, whose descriptor is open, or
  a null pointer, and then the set of open descriptors is the one before the call.
\<close>

theorem opendir_all_or_nothing:
  assumes "opendir_stub nd W path s = Some (r, s')"
    and "wrap_open nd W path 0 None s = Some (fd, s1)"
    and "if fd <s 0 then F (get_env s1) = F (get_env s)
      else fd \<notin> F (get_env s) \<and> F (get_env s1) = insert fd (F (get_env s))"
    and "\<forall>n y. F (env (snd (w_malloc W n y))) = F (env y)"
    and "\<forall>p y. F (env (snd (w_opendir W p y))) = F (env y)"
    and "\<forall>fd y. F (env (snd (w_close W fd y))) = F (env y) - {fd}"
  shows "case r of
      None \<Rightarrow> F (get_env s') = F (get_env s)
    | Some dirp \<Rightarrow> ds_fd dirp = fd \<and> F (get_env s') = insert (ds_fd dirp) (F (get_env s))"
proof -
  have m: "F (get_env t') = F (get_env t)" if "syscall (w_malloc W n) t = (b, t')" for n t b t'
    using syscall_env [OF that] assms(4) by (simp add: get_env_def)
  have o: "F (get_env t') = F (get_env t)" if "syscall (w_opendir W p) t = (b, t')" for p t b t'
    using syscall_env [OF that] assms(5) by (simp add: get_env_def)
  have c: "F (get_env t') = F (get_env t) - {x}" if "syscall (w_close W x) t = (b, t')" for x t b t'
    using syscall_env [OF that] assms(6) by (simp add: get_env_def)
  show ?thesis
    using assms(1-3)
    by (auto simp: opendir_stub_def split: if_splits prod.splits dest!: m o c)
qed

section \<open>Witnesses\<close>

definition demo_entry_ab :: dirent where
  "demo_entry_ab = \<lparr>de_ino = 0, de_reclen = 0, de_namlen = 2, de_name = [97, 98] @ 0 # []\<rparr>"

definition demo_readdir_win :: "unit win32" where
  "demo_readdir_win = null_win\<lparr>
     w_readdir := (\<lambda>p y. (Some demo_entry_ab, y)),
     w_stack_stat := stat_zero\<lparr>st_mode := S_IFSOCK\<rparr>\<rparr>"

definition demo_stream :: dir_stub where "demo_stream = \<lparr>ds_dirp = 1, ds_fd = 3\<rparr>"

definition demo_static :: dirent_stub where
  "demo_static = \<lparr>d_ino = 0, d_type = 0, d_reclen = 0, d_namlen = 0, d_name = replicate 260 0\<rparr>"

lemma demo_readdir_call: "syscall (w_readdir demo_readdir_win (ds_dirp demo_stream)) (demo_proc ()) =
    (Some demo_entry_ab, demo_proc ())"
  by (simp add: demo_readdir_win_def syscall_def)

theorem readdir_drops_last_char_witness:
  "\<exists>res'. readdir_stub True demo_readdir_win (Some demo_stream) demo_static (demo_proc ()) =
     Some ((True, res'), demo_proc ()) \<and> name_string (d_name res') = [char_of (97 :: nat)] \<and> d_namlen res' = 2 \<and> d_type res' = 5"
proof -
  have copy: "strlcpy (replicate 260 0) ([97, 98] @ 0 # []) 2 =
      Some (2, strlcpy_result (replicate 260 0) [97, 98] 2)"
    using strlcpy_spec_lemma [of "[97, 98]" 2 "replicate 260 0" "[]"] by simp
  then obtain res' where r: "readdir_stub True demo_readdir_win (Some demo_stream) demo_static (demo_proc ()) =
      Some ((True, res'), demo_proc ())"
    using demo_readdir_call
    by (simp add: readdir_stub_def demo_stream_def demo_static_def demo_entry_ab_def assert_lseek_def
        word_sless_alt)
  have "w_stack_stat demo_readdir_win = stat_zero\<lparr>st_mode := S_IFSOCK\<rparr>"
    by (simp add: demo_readdir_win_def)
  moreover have "de_name demo_entry_ab = [97, 98] @ 0 # []" "unat (de_namlen demo_entry_ab) = length [97, 98 :: byte]"
    by (simp_all add: demo_entry_ab_def)
  ultimately show ?thesis
    using r readdir_drops_last_char [OF r demo_readdir_call, of "[97, 98]" "[]"]
    by (simp add: demo_static_def name_string_def demo_entry_ab_def dirent_type_def)
qed

theorem readdir_debug_never_returns_entry_witness:
  "\<forall>res' s'. readdir_stub False demo_readdir_win (Some demo_stream) demo_static (demo_proc ()) \<noteq>
     Some ((True, res'), s')"
  by (intro allI readdir_debug_never_returns_entry) (simp add: demo_readdir_win_def null_win_def)

definition demo_fds_win :: "c_int set win32" where
  "demo_fds_win = null_win\<lparr>
     w_real_open := (\<lambda>p fl m y. (5, y\<lparr>env := insert 5 (env y)\<rparr>)),
     w_malloc := (\<lambda>n y. (True, y)),
     w_close := (\<lambda>fd y. (0, y\<lparr>env := env y - {fd}\<rparr>))\<rparr>"

theorem opendir_all_or_nothing_witness:
  "\<exists>s'. opendir_stub True demo_fds_win ''d'' (demo_proc {}) = Some (None, s') \<and> get_env s' = {}"
proof -
  define s1 where "s1 = snd (syscall (w_real_open demo_fds_win ''d'' O_BINARY None) (demo_proc {}))"
  have "open_impl demo_fds_win ''d'' 0 None (demo_proc {}) = Some (5, s1)"
    by (simp add: open_impl_def s1_def demo_fds_win_def null_win_def syscall_def word_sless_alt)
  moreover have "cache_inv s1" by (simp add: s1_def demo_cache_inv)
  then obtain s2 where s2: "fd_cache_oflag True 5 0 s1 = Some s2" "sys s2 = sys s1"
    using fd_cache_oflag_returns [of s1 5 True 0] by (auto simp: open_max_def)
  ultimately have o: "wrap_open True demo_fds_win ''d'' 0 None (demo_proc {}) = Some (5, s2)"
    by (simp add: wrap_open_def word_sless_alt)
  have e: "get_env s2 = {5}"
    using s2(2) by (simp add: get_env_def s1_def syscall_def demo_fds_win_def demo_proc_def
        init_oflag_cache_def)
  obtain s' where r: "opendir_stub True demo_fds_win ''d'' (demo_proc {}) = Some (None, s')"
  proof -
    have "syscall (w_malloc demo_fds_win 16) s2 = (True, s2)" "syscall (w_opendir demo_fds_win ''d'') s2 = (0, s2)"
      by (simp_all add: demo_fds_win_def null_win_def syscall_def)
    then show thesis
      using that by (cases "syscall (w_close demo_fds_win 5) s2") (simp add: opendir_stub_def o word_sless_alt)
  qed
  have "case (None :: dir_stub option) of
      None \<Rightarrow> id (get_env s') = id (get_env (demo_proc {}))
    | Some dirp \<Rightarrow> ds_fd dirp = 5 \<and> id (get_env s') = insert (ds_fd dirp) (id (get_env (demo_proc {})))"
    by (rule opendir_all_or_nothing [where F = id, OF r o])
      (simp_all add: e word_sless_alt demo_fds_win_def null_win_def)
  with r show ?thesis by simp
qed

end
