(* ===== verification/Acl.thy ===== *)
theory Acl
  imports PathAt
begin

text \<open>
  \<open>libc-compat/winsup/acl.c\<close>: \<open>fchmod\<close>, which can only set and clear the read-only attribute,
  and the stubs of the \<open>chown\<close> family, which only check that the file is there.
\<close>

definition fchmod_attr :: "mode_t \<Rightarrow> dword \<Rightarrow> dword" where
  "fchmod_attr mode attr =
     (if mode AND S_IW_ALL \<noteq> 0 then attr AND NOT FILE_ATTRIBUTE_READONLY
      else attr OR FILE_ATTRIBUTE_READONLY)"

definition fchmod :: "'w win32 \<Rightarrow> c_int \<Rightarrow> mode_t \<Rightarrow> 'w proc \<Rightarrow> c_int \<times> 'w proc" where
  "fchmod W fd mode s =
     (let (h, s) = syscall (w_get_osfhandle W fd) s in
      if h = INVALID_HANDLE_VALUE then (- 1, s)
      else
        (case syscall (w_GetFileInformationByHandle W h) s of
           (None, s) \<Rightarrow> (- 1, set_errno_via_winerr (get_last_error s) s)
         | (Some hfi, s) \<Rightarrow>
             (let new_attr = fchmod_attr mode (fi_attributes hfi) in
              if new_attr = fi_attributes hfi then (0, s)
              else
                (let (ok, s) = syscall (w_SetFileAttributes W h new_attr) s in
                 if \<not> ok then (- 1, set_errno_via_winerr (get_last_error s) s) else (0, s)))))"

definition chown :: "'w win32 \<Rightarrow> string \<Rightarrow> 'w proc \<Rightarrow> c_int \<times> 'w proc" where
  "chown W path s = (let (r, s) = syscall (w_access W path 0) s in (if r \<noteq> 0 then - 1 else 0, s))"

definition fchown :: "bool \<Rightarrow> 'w win32 \<Rightarrow> c_int \<Rightarrow> 'w proc \<Rightarrow> ('w, c_int) res" where
  "fchown nd W fildes s = do {
     ((r, _), s) \<leftarrow> fstat nd W fildes (w_stack_stat W) s;
     Some (if r <s 0 then - 1 else 0, s)
   }"

definition lchown :: "bool \<Rightarrow> 'w win32 \<Rightarrow> string \<Rightarrow> 'w proc \<Rightarrow> ('w, c_int) res" where
  "lchown nd W path s = do {
     ((r, _), s) \<leftarrow> lstat nd W path (w_stack_stat W) s;
     Some (if r <s 0 then - 1 else 0, s)
   }"

section \<open>The attributes of files\<close>

text \<open>
  \<open>Fl e h\<close> is the file of handle \<open>h\<close> and \<open>At e f\<close> are the attributes of file \<open>f\<close>; several handles
  may have one file. Reading attributes is exact and changes none. Storing them, as documented for
  \<open>SetFileInformationByHandle\<close>, changes at most the file of the handle; the value 0 means that the
  attributes stay as they are; and for a value that differs from the old attributes at most in the
  read-only bit, that bit and all others become what the value says, except \<open>FILE_ATTRIBUTE_NORMAL\<close>,
  which Windows keeps itself.
\<close>

abbreviation (input) FILE_ATTRIBUTE_NORMAL :: dword where "FILE_ATTRIBUTE_NORMAL \<equiv> 0x80"

abbreviation (input) other_bits :: "dword \<Rightarrow> dword" where
  "other_bits a \<equiv> a AND NOT FILE_ATTRIBUTE_READONLY"

abbreviation (input) settable :: "dword \<Rightarrow> dword" where
  "settable a \<equiv> a AND NOT FILE_ATTRIBUTE_NORMAL"

definition attr_set_law :: "'w win32 \<Rightarrow> ('w \<Rightarrow> handle \<Rightarrow> 'f) \<Rightarrow> ('w \<Rightarrow> 'f \<Rightarrow> dword) \<Rightarrow> bool" where
  "attr_set_law W Fl At \<longleftrightarrow>
     (\<forall>h a y ok y'. w_SetFileAttributes W h a y = (ok, y') \<longrightarrow>
        (\<forall>f. f \<noteq> Fl (env y) h \<or> \<not> ok \<or> a = 0 \<longrightarrow> At (env y') f = At (env y) f) \<and>
        (ok \<and> a \<noteq> 0 \<and> other_bits a = other_bits (At (env y) (Fl (env y) h)) \<longrightarrow>
           settable (At (env y') (Fl (env y) h)) = settable a))"

definition attr_get_law :: "'w win32 \<Rightarrow> ('w \<Rightarrow> handle \<Rightarrow> 'f) \<Rightarrow> ('w \<Rightarrow> 'f \<Rightarrow> dword) \<Rightarrow> bool" where
  "attr_get_law W Fl At \<longleftrightarrow>
     (\<forall>h y r y'. w_GetFileInformationByHandle W h y = (r, y') \<longrightarrow>
        Fl (env y') = Fl (env y) \<and> At (env y') = At (env y) \<and>
        (\<forall>hfi. r = Some hfi \<longrightarrow> fi_attributes hfi = At (env y) (Fl (env y) h))) \<and>
     (\<forall>fd y. Fl (env (snd (w_get_osfhandle W fd y))) = Fl (env y) \<and>
        At (env (snd (w_get_osfhandle W fd y))) = At (env y))"

definition attr_laws :: "'w win32 \<Rightarrow> ('w \<Rightarrow> handle \<Rightarrow> 'f) \<Rightarrow> ('w \<Rightarrow> 'f \<Rightarrow> dword) \<Rightarrow> bool" where
  "attr_laws W Fl At \<longleftrightarrow> attr_get_law W Fl At \<and> attr_set_law W Fl At"

lemma attr_get:
  assumes "attr_laws W Fl At" and "syscall (w_GetFileInformationByHandle W h) s = (r, s')"
  shows "Fl (get_env s') = Fl (get_env s)" and "At (get_env s') = At (get_env s)"
    and "r = Some hfi \<Longrightarrow> fi_attributes hfi = At (get_env s) (Fl (get_env s) h)"
proof -
  obtain y' where y: "w_GetFileInformationByHandle W h (sys s) = (r, y')" "get_env s' = env y'"
    using assms(2) by (auto simp: syscall_def get_env_def split: prod.splits)
  then show "Fl (get_env s') = Fl (get_env s)" "At (get_env s') = At (get_env s)"
      "r = Some hfi \<Longrightarrow> fi_attributes hfi = At (get_env s) (Fl (get_env s) h)"
    using assms(1) unfolding attr_laws_def attr_get_law_def get_env_def by metis+
qed

lemma attr_handle:
  assumes "attr_laws W Fl At" and "syscall (w_get_osfhandle W fd) s = (h, s')"
  shows "Fl (get_env s') = Fl (get_env s)" and "At (get_env s') = At (get_env s)"
  using syscall_env [OF assms(2)] assms(1) by (simp_all add: attr_laws_def attr_get_law_def get_env_def)

lemma attr_set:
  assumes "attr_laws W Fl At" and "syscall (w_SetFileAttributes W h a) s = (ok, s')"
  shows "f \<noteq> Fl (get_env s) h \<or> \<not> ok \<or> a = 0 \<Longrightarrow> At (get_env s') f = At (get_env s) f"
    and "ok \<Longrightarrow> a \<noteq> 0 \<Longrightarrow> other_bits a = other_bits (At (get_env s) (Fl (get_env s) h)) \<Longrightarrow>
      settable (At (get_env s') (Fl (get_env s) h)) = settable a"
proof -
  obtain y' where y: "w_SetFileAttributes W h a (sys s) = (ok, y')" "get_env s' = env y'"
    using assms(2) by (auto simp: syscall_def get_env_def split: prod.splits)
  note law = assms(1) [unfolded attr_laws_def attr_set_law_def, THEN conjunct2, rule_format, OF y(1)]
  show "f \<noteq> Fl (get_env s) h \<or> \<not> ok \<or> a = 0 \<Longrightarrow> At (get_env s') f = At (get_env s) f"
    using law y(2) unfolding get_env_def by simp
  show "ok \<Longrightarrow> a \<noteq> 0 \<Longrightarrow> other_bits a = other_bits (At (get_env s) (Fl (get_env s) h)) \<Longrightarrow>
      settable (At (get_env s') (Fl (get_env s) h)) = settable a"
    using law y(2) unfolding get_env_def by simp
qed

text \<open>The bits of the attributes that \<open>fchmod\<close> computes.\<close>

lemma fchmod_attr_bits:
  "other_bits (fchmod_attr mode a) = other_bits a"
  "fchmod_attr mode a AND FILE_ATTRIBUTE_READONLY =
     (if mode AND S_IW_ALL \<noteq> 0 then 0 else FILE_ATTRIBUTE_READONLY)"
  by (auto simp: fchmod_attr_def bit_eq_iff bit_simps)

lemma fchmod_attr_zero:
  "fchmod_attr mode a = 0 \<longleftrightarrow> mode AND S_IW_ALL \<noteq> 0 \<and> (a = 0 \<or> a = FILE_ATTRIBUTE_READONLY)"
proof -
  have "a = other_bits a OR (a AND 1)" by (rule bit_eqI) (auto simp: bit_simps)
  moreover have "a AND 1 = 0 \<or> a AND 1 = 1" using word_and_exp [of a 0] by (auto split: if_splits)
  ultimately have "a = 0 \<or> a = FILE_ATTRIBUTE_READONLY" if "other_bits a = 0"
    using that by (metis or.left_neutral)
  moreover have "mode AND S_IW_ALL \<noteq> 0" if "fchmod_attr mode a = 0"
    using fchmod_attr_bits(2) [of mode a] that by (auto split: if_splits)
  ultimately show ?thesis by (auto simp: fchmod_attr_def split: if_splits)
qed

lemma settable_bits:
  "settable a = settable b \<Longrightarrow> a AND FILE_ATTRIBUTE_READONLY = b AND FILE_ATTRIBUTE_READONLY"
  "settable a = settable b \<Longrightarrow> settable (other_bits a) = settable (other_bits b)"
proof -
  assume eq: "settable a = settable b"
  have one: "x AND FILE_ATTRIBUTE_READONLY = settable x AND FILE_ATTRIBUTE_READONLY" for x :: dword
    by (simp add: and.assoc)
  have two: "settable (other_bits x) = other_bits (settable x)" for x :: dword
    by (simp only: and.assoc and.commute [of "NOT FILE_ATTRIBUTE_READONLY"])
  show "a AND FILE_ATTRIBUTE_READONLY = b AND FILE_ATTRIBUTE_READONLY"
    by (simp only: one [of a] one [of b] eq)
  show "settable (other_bits a) = settable (other_bits b)" by (simp only: two eq)
qed

section \<open>Properties\<close>

text \<open>
  Property C30. \<open>fchmod\<close>: when the call returns -1 no attribute of any file has changed. When it
  returns 0, the other files and the other attributes of the file are as they were, and the file is
  read-only if and only if the mode has no write bit at all - or if read-only was its only attribute:
  then the attributes the call computes are 0, which Windows takes for no change, and the file stays
  read-only although the call succeeds.
\<close>

theorem fchmod_correct:
  assumes "attr_laws W Fl At" and "syscall (w_get_osfhandle W fd) s = (h, s1)"
    and "fchmod W fd mode s = (r, s')" and "f = Fl (get_env s) h"
  shows "(r = 0 \<or> r = - 1) \<and> (r = - 1 \<longrightarrow> At (get_env s') = At (get_env s)) \<and>
    (r = 0 \<longrightarrow>
      (\<forall>g. g \<noteq> f \<longrightarrow> At (get_env s') g = At (get_env s) g) \<and>
      settable (other_bits (At (get_env s') f)) = settable (other_bits (At (get_env s) f)) \<and>
      (At (get_env s') f AND FILE_ATTRIBUTE_READONLY \<noteq> 0 \<longleftrightarrow>
         mode AND S_IW_ALL = 0 \<or> At (get_env s) f = FILE_ATTRIBUTE_READONLY))"
proof -
  note e1 = attr_handle [OF assms(1,2)]
  obtain i s2 where gi: "syscall (w_GetFileInformationByHandle W h) s1 = (i, s2)" by (metis prod.exhaust)
  note e2 = attr_get [OF assms(1) gi, unfolded e1]
  show ?thesis
  proof (cases "h = INVALID_HANDLE_VALUE \<or> i = None")
    case True
    then show ?thesis using assms(2,3) gi e1 e2 by (auto simp: fchmod_def split: if_splits)
  next
    case False
    define old where "old = At (get_env s) f"
    define new where "new = fchmod_attr mode old"
    from False obtain hfi where hfi: "i = Some hfi" "fi_attributes hfi = old"
      using e2(3) assms(4) old_def by blast
    obtain ok s3 where st: "syscall (w_SetFileAttributes W h new) s2 = (ok, s3)" by (metis prod.exhaust)
    note e3 = attr_set [OF assms(1) st, unfolded e2, folded assms(4)]
    have run: "fchmod W fd mode s = (if new = old then (0, s2)
        else if \<not> ok then (- 1, set_errno_via_winerr (get_last_error s3) s3) else (0, s3))"
      using assms(2) gi hfi st False by (simp add: fchmod_def new_def [symmetric] Let_def)
    note bits = fchmod_attr_bits [of mode old, folded new_def]
    consider "new = old" | "new \<noteq> old" "\<not> ok" | "new \<noteq> old" "ok" "new = 0" | "new \<noteq> old" "ok" "new \<noteq> 0"
      by blast
    then show ?thesis
    proof cases
      case 1
      then show ?thesis using run assms(3) e2(2) bits(2) by (auto simp: old_def split: if_splits)
    next
      case 2
      then show ?thesis using run assms(3) e3(1) by auto
    next
      case 3
      then have "old = FILE_ATTRIBUTE_READONLY" "mode AND S_IW_ALL \<noteq> 0"
        using fchmod_attr_zero [of mode old] by (auto simp: new_def)
      with 3 show ?thesis using run assms(3) e3(1) by (auto simp: old_def)
    next
      case 4
      have set: "settable (At (get_env s3) f) = settable new"
        using e3(2) 4(2,3) bits(1) by (simp add: old_def)
      have "old \<noteq> FILE_ATTRIBUTE_READONLY \<or> mode AND S_IW_ALL = 0"
        using 4(3) fchmod_attr_zero [of mode old] by (auto simp: new_def)
      then show ?thesis
        using 4 run assms(3) e3(1) settable_bits [OF set] bits by (auto simp: old_def split: if_splits)
    qed
  qed
qed

text \<open>A platform where every handle has its own file, and one with a file that is only read-only.\<close>

definition demo_attr_win :: "(handle \<Rightarrow> dword) win32" where
  "demo_attr_win = null_win\<lparr>
     w_get_osfhandle := (\<lambda>fd y. (77, y)),
     w_GetFileInformationByHandle := (\<lambda>h y. (Some (demo_info (env y h)), y)),
     w_SetFileAttributes := (\<lambda>h a y. (True, if a = 0 then y else y\<lparr>env := (env y)(h := a)\<rparr>))\<rparr>"

theorem fchmod_correct_witness:
  "\<exists>s'. fchmod demo_attr_win 3 0x1B6 (demo_proc (\<lambda>_. 0x21)) = (0, s') \<and>
     get_env s' 77 AND FILE_ATTRIBUTE_READONLY = 0 \<and>
   (\<exists>s''. fchmod demo_attr_win 3 0x1B6 (demo_proc (\<lambda>_. 1)) = (0, s'') \<and>
     get_env s'' 77 AND FILE_ATTRIBUTE_READONLY \<noteq> 0)"
proof -
  have laws: "attr_laws demo_attr_win (\<lambda>_ h. h) id"
    by (simp add: attr_laws_def attr_get_law_def attr_set_law_def demo_attr_win_def demo_info_def)
  have h: "syscall (w_get_osfhandle demo_attr_win 3) (demo_proc e) = (77, demo_proc e)" for e
    by (simp add: demo_attr_win_def syscall_def)
  have r: "\<exists>s'. fchmod demo_attr_win 3 0x1B6 (demo_proc e) = (0, s')" for e
    by (simp add: fchmod_def fchmod_attr_def demo_attr_win_def syscall_def demo_info_def demo_proc_def
        init_oflag_cache_def Let_def)
  obtain s' s'' where s: "fchmod demo_attr_win 3 0x1B6 (demo_proc (\<lambda>_. 0x21)) = (0, s')"
      "fchmod demo_attr_win 3 0x1B6 (demo_proc (\<lambda>_. 1)) = (0, s'')"
    using r by blast
  from fchmod_correct [OF laws h s(1) refl] fchmod_correct [OF laws h s(2) refl] s show ?thesis
    by auto
qed

end
