(* ===== verification/TwoPaths.thy ===== *)
theory TwoPaths
  imports AtCompat
begin

text \<open>
  \<open>linkat\<close> and \<open>renameat\<close> of \<open>libc-compat/winsup/at.c\<close>, which resolve two paths and copy the
  absolute ones with \<open>strdup\<close>: what they do while memory lasts, and when they return if it does not.
\<close>

section \<open>Two paths\<close>

text \<open>What \<open>linkat\<close> and \<open>renameat\<close> make of one of their paths while memory lasts.\<close>

definition resolve_path ::
  "bool \<Rightarrow> 'w win32 \<Rightarrow> c_int \<Rightarrow> string \<Rightarrow> 'w proc \<Rightarrow> ('w, string option) res" where
  "resolve_path nd W dirfd path s =
     (if w_PathIsRelative W path then get_path_at nd W dirfd path s
      else Some (Some path, snd (syscall (w_strdup W path) s)))"

definition on_both ::
  "bool \<Rightarrow> 'w win32 \<Rightarrow> c_int \<Rightarrow> string \<Rightarrow> c_int \<Rightarrow> string \<Rightarrow>
   (string \<Rightarrow> string \<Rightarrow> 'w proc \<Rightarrow> c_int \<times> 'w proc) \<Rightarrow> 'w proc \<Rightarrow> ('w, c_int) res" where
  "on_both nd W dirfd1 path1 dirfd2 path2 call s = do {
     (p, s) \<leftarrow> resolve_path nd W dirfd1 path1 s;
     case p of None \<Rightarrow> Some (- 1, s)
     | Some p \<Rightarrow> do {
         (q, s) \<leftarrow> resolve_path nd W dirfd2 path2 s;
         case q of None \<Rightarrow> Some (- 1, s) | Some q \<Rightarrow> Some (call p q s)
       }
   }"

lemma strdup_again_first:
  "syscall (w_strdup W path) s = (True, s') \<Longrightarrow> strdup_again nd W path s = Some s'"
  by (subst strdup_again.simps) simp

lemma both_paths_resolve:
  assumes "\<forall>p y. fst (w_strdup W p y)"
  shows "both_paths nd W dirfd1 path1 dirfd2 path2 call s = on_both nd W dirfd1 path1 dirfd2 path2 call s"
proof -
  define copied where "copied p t = snd (syscall (w_strdup W p) t)" for p t
  have ok: "syscall (w_strdup W p) t = (True, copied p t)" for p t
    using assms by (simp add: copied_def prod_eq_iff syscall_def split: prod.splits)
  have again: "strdup_again nd W p t = Some (copied p t)" for p t
    by (rule strdup_again_first) (rule ok)
  show ?thesis
    by (cases "get_path_at nd W dirfd1 path1 s")
      (auto simp: both_paths_def on_both_def resolve_path_def again Let_def ok
        cong: option.case_cong prod.case_cong)
qed

text \<open>The attempts to copy a path: \<open>attempt W path n s\<close> is the state after \<open>n\<close> of them.\<close>

definition attempt :: "'w win32 \<Rightarrow> string \<Rightarrow> nat \<Rightarrow> 'w proc \<Rightarrow> 'w proc" where
  "attempt W path n s = ((\<lambda>t. snd (syscall (w_strdup W path) t)) ^^ n) s"

lemma attempt_0 [simp]: "attempt W path 0 s = s"
  and attempt_Suc: "attempt W path (Suc n) s = attempt W path n (snd (syscall (w_strdup W path) s))"
  by (simp_all add: attempt_def funpow_Suc_right del: funpow.simps(2))

lemma strdup_again_some_attempt:
  assumes "strdup_again nd W path s = Some s'"
  shows "\<exists>n. fst (syscall (w_strdup W path) (attempt W path n s))"
  by (rule strdup_again.raw_induct [OF _ assms,
        where P = "\<lambda>_ W path s _. \<exists>n. fst (syscall (w_strdup W path) (attempt W path n s))"])
    (auto split: prod.splits if_splits, metis attempt_0 fst_conv, metis attempt_Suc snd_conv)

lemma attempt_strdup_again:
  "fst (syscall (w_strdup W path) (attempt W path n s)) \<Longrightarrow> strdup_again True W path s \<noteq> None"
proof (induction n arbitrary: s)
  case 0
  then show ?case by (subst strdup_again.simps) (auto split: prod.splits)
next
  case (Suc n)
  then show ?case by (subst strdup_again.simps) (auto simp: attempt_Suc split: prod.splits)
qed

lemma strdup_again_returns_iff:
  "strdup_again nd W path s \<noteq> None \<longleftrightarrow>
   (\<exists>n. (nd \<or> n = 0) \<and> fst (syscall (w_strdup W path) (attempt W path n s)))"
proof (cases nd)
  case True
  then show ?thesis
    using strdup_again_some_attempt [of nd W path s] attempt_strdup_again [of W path _ s] by auto
next
  case False
  then show ?thesis by (subst strdup_again.simps) (auto split: prod.splits)
qed

text \<open>
  Property C27. \<open>linkat\<close> and \<open>renameat\<close> while \<open>strdup\<close> does not fail: each path stands for
  itself if it is absolute and for the path that \<open>__get_path_at\<close> makes of it otherwise, the first
  one is resolved before the second, the call fails at the first path that has no resolution,
  and otherwise \<open>link\<close> or \<open>rename\<close> is called on the two; the flags of \<open>linkat\<close> are ignored.
\<close>

theorem two_paths_resolve:
  assumes "\<forall>p y. fst (w_strdup W p y)"
  shows "linkat nd W d1 p1 d2 p2 flags s = on_both nd W d1 p1 d2 p2 (link W) s \<and>
    renameat nd W d1 p1 d2 p2 s = on_both nd W d1 p1 d2 p2 (\<lambda>p q s. syscall (w_rename W p q) s) s"
  using both_paths_resolve [OF assms] by (simp add: linkat_def renameat_def)

text \<open>Making a path of the second descriptor and path ends: \<open>s\<close> is the state before.\<close>

definition second_returns :: "bool \<Rightarrow> 'w win32 \<Rightarrow> c_int \<Rightarrow> string \<Rightarrow> 'w proc \<Rightarrow> bool" where
  "second_returns nd W dirfd path s \<longleftrightarrow>
     (if w_PathIsRelative W path then get_path_at nd W dirfd path s \<noteq> None
      else \<exists>n. (nd \<or> n = 0) \<and> fst (syscall (w_strdup W path) (attempt W path n s)))"

text \<open>What follows once the first path is there; \<open>real_path1\<close> is nothing after a failed copy.\<close>

definition with_first ::
  "bool \<Rightarrow> 'w win32 \<Rightarrow> c_int \<Rightarrow> string \<Rightarrow> (string \<Rightarrow> string \<Rightarrow> 'w proc \<Rightarrow> c_int \<times> 'w proc) \<Rightarrow>
   string option \<Rightarrow> 'w proc \<Rightarrow> ('w, c_int) res" where
  "with_first nd W dirfd2 path2 call real_path1 s = do {
     (real_path2, s) \<leftarrow>
       (if \<not> w_PathIsRelative W path2
        then strdup_again nd W path2 s \<bind> (\<lambda>s. Some (Some path2, s))
        else get_path_at nd W dirfd2 path2 s);
     case real_path2 of
       None \<Rightarrow> Some (- 1, s)
     | Some p2 \<Rightarrow> (case real_path1 of None \<Rightarrow> None | Some p1 \<Rightarrow> Some (call p1 p2 s))
   }"

lemma maybe_result:
  fixes x :: "('a option \<times> 'b) option"
  obtains "x = None" | t where "x = Some (None, t)" | y t where "x = Some (Some y, t)"
  by (metis option.exhaust surj_pair)

lemma flagged: obtains t where "x = (True, t)" | t where "x = (False, t)"
  by (cases x) auto

lemma both_paths_first:
  "both_paths nd W d1 p1 d2 p2 call s =
     (if w_PathIsRelative W p1 then
        (case get_path_at nd W d1 p1 s of
           None \<Rightarrow> None
         | Some (None, s1) \<Rightarrow> Some (- 1, s1)
         | Some (Some q, s1) \<Rightarrow> with_first nd W d2 p2 call (Some q) s1)
      else
        (case syscall (w_strdup W p1) s of
           (True, s1) \<Rightarrow> with_first nd W d2 p2 call (Some p1) s1
         | (False, s1) \<Rightarrow> (if nd then with_first nd W d2 p2 call None s1 else None)))"
  unfolding both_paths_def with_first_def
  by (cases "get_path_at nd W d1 p1 s" rule: maybe_result; cases "syscall (w_strdup W p1) s" rule: flagged)
    (simp_all add: c_assert_def)

lemma with_first_returns_iff:
  "with_first nd W d p call (Some q) s = None \<longleftrightarrow> \<not> second_returns nd W d p s"
  "with_first nd W d p call None s = None \<longleftrightarrow>
     \<not> (w_PathIsRelative W p \<and> (\<exists>s2. get_path_at nd W d p s = Some (None, s2)))"
proof -
  note again = strdup_again_returns_iff [of nd W p s]
  show "with_first nd W d p call (Some q) s = None \<longleftrightarrow> \<not> second_returns nd W d p s"
    by (cases "get_path_at nd W d p s" rule: maybe_result; cases "strdup_again nd W p s")
      (use again in \<open>auto simp: with_first_def second_returns_def\<close>)
  show "with_first nd W d p call None s = None \<longleftrightarrow>
     \<not> (w_PathIsRelative W p \<and> (\<exists>s2. get_path_at nd W d p s = Some (None, s2)))"
    by (cases "get_path_at nd W d p s" rule: maybe_result; cases "strdup_again nd W p s")
      (simp_all add: with_first_def)
qed

lemma both_paths_returns_iff:
  "both_paths nd W d1 p1 d2 p2 call s \<noteq> None \<longleftrightarrow>
     (if w_PathIsRelative W p1 then
        (case get_path_at nd W d1 p1 s of
           None \<Rightarrow> False
         | Some (None, s1) \<Rightarrow> True
         | Some (Some q, s1) \<Rightarrow> second_returns nd W d2 p2 s1)
      else
        (case syscall (w_strdup W p1) s of
           (True, s1) \<Rightarrow> second_returns nd W d2 p2 s1
         | (False, s1) \<Rightarrow>
             nd \<and> w_PathIsRelative W p2 \<and> (\<exists>s2. get_path_at nd W d2 p2 s1 = Some (None, s2))))"
  unfolding both_paths_first
  by (cases "get_path_at nd W d1 p1 s" rule: maybe_result; cases "syscall (w_strdup W p1) s" rule: flagged)
    (simp_all add: with_first_returns_iff del: not_None_eq)

text \<open>
  Property C28. When \<open>linkat\<close> and \<open>renameat\<close> return, for every combination of paths. A relative
  path must be made into a path by a call that returns; if that call finds no path for the first one,
  both return at once. An absolute second path is copied: a debug build returns exactly if the first
  attempt succeeds, since the assertion stops the process; a release build tries again from the same
  place, so it returns exactly if some attempt succeeds and loops forever when memory stays short. An
  absolute first path is copied once: if that fails, a debug build stops, and a release build goes on
  with a null pointer, which it does not use only if the second path is relative and has no path.
\<close>

theorem two_paths_return_iff:
  "(linkat nd W d1 p1 d2 p2 flags s \<noteq> None \<longleftrightarrow> renameat nd W d1 p1 d2 p2 s \<noteq> None) \<and>
   (linkat nd W d1 p1 d2 p2 flags s \<noteq> None \<longleftrightarrow>
     (if w_PathIsRelative W p1 then
        (case get_path_at nd W d1 p1 s of
           None \<Rightarrow> False
         | Some (None, s1) \<Rightarrow> True
         | Some (Some q, s1) \<Rightarrow> second_returns nd W d2 p2 s1)
      else
        (case syscall (w_strdup W p1) s of
           (True, s1) \<Rightarrow> second_returns nd W d2 p2 s1
         | (False, s1) \<Rightarrow>
             nd \<and> w_PathIsRelative W p2 \<and> (\<exists>s2. get_path_at nd W d2 p2 s1 = Some (None, s2)))))"
  unfolding linkat_def renameat_def both_paths_returns_iff by simp

section \<open>Witnesses\<close>

definition demo_absolute_win :: "unit win32" where
  "demo_absolute_win = null_win\<lparr>
     w_PathIsRelative := (\<lambda>_. False),
     w_strdup := (\<lambda>p y. (True, y)),
     w_rename := (\<lambda>p q y. (if p = ''/a'' \<and> q = ''/b'' then 0 else - 1, y))\<rparr>"

theorem two_paths_resolve_witness:
  "renameat False demo_absolute_win 3 ''/a'' 4 ''/b'' (demo_proc ()) = Some (0, demo_proc ())"
proof -
  have "\<forall>p y. fst (w_strdup demo_absolute_win p y)" by (simp add: demo_absolute_win_def)
  then show ?thesis
    using two_paths_resolve [of demo_absolute_win False 3 "''/a''" 4 "''/b''" 0 "demo_proc ()"]
    by (simp add: on_both_def resolve_path_def demo_absolute_win_def syscall_def)
qed

text \<open>On \<open>demo_dir_win\<close> no copy of a path ever succeeds, so neither build returns.\<close>

theorem two_paths_return_iff_witness:
  "linkat True demo_dir_win 3 ''f'' 4 ''/g'' 0 (demo_proc ()) = None"
proof -
  have "\<not> fst (syscall (w_strdup demo_dir_win ''/g'') t)" for t
    by (simp add: demo_dir_win_def demo_stat_win_def demo_path_win_def null_win_def syscall_def)
  moreover have "\<not> w_PathIsRelative demo_dir_win ''/g''" by (simp add: demo_dir_win_def)
  ultimately have "\<not> second_returns True demo_dir_win 4 ''/g'' (demo_proc ())"
    by (simp add: second_returns_def)
  then have "\<not> (linkat True demo_dir_win 3 ''f'' 4 ''/g'' 0 (demo_proc ()) \<noteq> None)"
    using two_paths_return_iff [of True demo_dir_win 3 "''f''" 4 "''/g''" 0 "demo_proc ()"]
    by (simp only: demo_relative demo_resolve [of True] if_True option.case prod.case) blast
  then show ?thesis by blast
qed

end
