(* ===== verification/WinApi.thy ===== *)
theory WinApi
  imports FileCompat AtCompat Dirent Acl
begin

text \<open>
  What every function of \<open>libc-compat/winsup\<close> keeps. The functions change the process state only
  by calls of the platform, by storing \<open>errno\<close> and the last error, and through the flag cache. The
  locale \<open>api_invariant\<close> is that interface: a predicate \<open>I\<close> on process states that each of these
  elementary changes keeps. Inside it, one lemma per function says that the function keeps \<open>I\<close>.

  A predicate may protect descriptors and handles: \<open>prot_fd\<close> and \<open>prot_h\<close> say which ones must not
  be closed. The platform must then not hand out a protected descriptor or handle as a new one;
  that the functions close only what they opened themselves is part of the lemmas.
\<close>

section \<open>The interface\<close>

named_theorems keeps \<open>what keeps an invariant of the process\<close>

locale api_invariant =
  fixes W :: "'w win32"
    and I :: "'w proc \<Rightarrow> bool"
    and prot_fd :: "c_int \<Rightarrow> bool"
    and prot_h :: "handle \<Rightarrow> bool"
  assumes errno: "I s \<Longrightarrow> I (set_errno e s)"
    and last_error: "I s \<Longrightarrow> I (set_last_error w s)"
    and get_osfhandle: "syscall (w_get_osfhandle W fd) s = (h, s') \<Longrightarrow> I s \<Longrightarrow>
      I s' \<and> (prot_h h \<longrightarrow> prot_fd fd)"
    and open_osfhandle: "syscall (w_open_osfhandle W h fl) s = (fd, s') \<Longrightarrow> I s \<Longrightarrow>
      \<not> prot_h h \<Longrightarrow> I s' \<and> \<not> prot_fd fd"
    and CreateFile: "syscall (w_CreateFile W p acc sh disp attrs) s = (h, s') \<Longrightarrow> I s \<Longrightarrow>
      I s' \<and> \<not> prot_h h"
    and real_open: "syscall (w_real_open W p fl m) s = (fd, s') \<Longrightarrow> I s \<Longrightarrow> I s' \<and> \<not> prot_fd fd"
    and close: "syscall (w_close W fd) s = (r, s') \<Longrightarrow> I s \<Longrightarrow> \<not> prot_fd fd \<Longrightarrow> I s'"
    and CloseHandle: "syscall (w_CloseHandle W h) s = (ok, s') \<Longrightarrow> I s \<Longrightarrow> \<not> prot_h h \<Longrightarrow> I s'"
    and caching: "fd_cache_oflag nd fd fl s = Some s' \<Longrightarrow> I s \<Longrightarrow> \<not> prot_fd fd \<Longrightarrow> I s'"
    and evict: "syscall (w_get_osfhandle W (of_nat i)) s = (INVALID_HANDLE_VALUE, s') \<Longrightarrow> I s \<Longrightarrow>
      i < fd_cache_max_size s \<Longrightarrow> I (drop_entry i s')"
    and GetFinalPathNameByHandle: "\<And>h n r s s'. syscall (w_GetFinalPathNameByHandle W h n) s = (r, s') \<Longrightarrow> I s \<Longrightarrow> I s'"
    and GetFileInformationByHandle: "\<And>h r s s'. syscall (w_GetFileInformationByHandle W h) s = (r, s') \<Longrightarrow> I s \<Longrightarrow> I s'"
    and SetFileAttributes: "\<And>h attrs r s s'. syscall (w_SetFileAttributes W h attrs) s = (r, s') \<Longrightarrow> I s \<Longrightarrow> I s'"
    and GetFileType: "\<And>h r s s'. syscall (w_GetFileType W h) s = (r, s') \<Longrightarrow> I s \<Longrightarrow> I s'"
    and NtQueryObject: "\<And>h r s s'. syscall (w_NtQueryObject W h) s = (r, s') \<Longrightarrow> I s \<Longrightarrow> I s'"
    and DeviceIoControl: "\<And>h r s s'. syscall (w_DeviceIoControl W h) s = (r, s') \<Longrightarrow> I s \<Longrightarrow> I s'"
    and WideCharToMultiByte: "\<And>ws n r s s'. syscall (w_WideCharToMultiByte W ws n) s = (r, s') \<Longrightarrow> I s \<Longrightarrow> I s'"
    and CreateHardLink: "\<And>p q r s s'. syscall (w_CreateHardLink W p q) s = (r, s') \<Longrightarrow> I s \<Longrightarrow> I s'"
    and CreateSymbolicLink: "\<And>p q fl r s s'. syscall (w_CreateSymbolicLink W p q fl) s = (r, s') \<Longrightarrow> I s \<Longrightarrow> I s'"
    and malloc: "\<And>n r s s'. syscall (w_malloc W n) s = (r, s') \<Longrightarrow> I s \<Longrightarrow> I s'"
    and strdup: "\<And>p r s s'. syscall (w_strdup W p) s = (r, s') \<Longrightarrow> I s \<Longrightarrow> I s'"
    and stat: "\<And>p r s s'. syscall (w_stat W p) s = (r, s') \<Longrightarrow> I s \<Longrightarrow> I s'"
    and access: "\<And>p m r s s'. syscall (w_access W p m) s = (r, s') \<Longrightarrow> I s \<Longrightarrow> I s'"
    and chmod: "\<And>p m r s s'. syscall (w_chmod W p m) s = (r, s') \<Longrightarrow> I s \<Longrightarrow> I s'"
    and mkdir: "\<And>p r s s'. syscall (w_mkdir W p) s = (r, s') \<Longrightarrow> I s \<Longrightarrow> I s'"
    and rmdir: "\<And>p r s s'. syscall (w_rmdir W p) s = (r, s') \<Longrightarrow> I s \<Longrightarrow> I s'"
    and unlink: "\<And>p r s s'. syscall (w_unlink W p) s = (r, s') \<Longrightarrow> I s \<Longrightarrow> I s'"
    and rename: "\<And>p q r s s'. syscall (w_rename W p q) s = (r, s') \<Longrightarrow> I s \<Longrightarrow> I s'"
    and real_fdopen: "\<And>fd p r s s'. syscall (w_real_fdopen W fd p) s = (r, s') \<Longrightarrow> I s \<Longrightarrow> I s'"
    and real_CreateFileW: "\<And>ws acc sh sec disp attrs t r s s'. syscall (w_real_CreateFileW W ws acc sh sec disp attrs t) s = (r, s') \<Longrightarrow> I s \<Longrightarrow> I s'"
    and lseek: "\<And>fd off wh r s s'. syscall (w_lseek W fd off wh) s = (r, s') \<Longrightarrow> I s \<Longrightarrow> I s'"
    and opendir: "\<And>p r s s'. syscall (w_opendir W p) s = (r, s') \<Longrightarrow> I s \<Longrightarrow> I s'"
    and readdir: "\<And>d r s s'. syscall (w_readdir W d) s = (r, s') \<Longrightarrow> I s \<Longrightarrow> I s'"
    and closedir: "\<And>d r s s'. syscall (w_closedir W d) s = (r, s') \<Longrightarrow> I s \<Longrightarrow> I s'"
    and rewinddir: "\<And>d r s s'. syscall (w_rewinddir W d) s = (r, s') \<Longrightarrow> I s \<Longrightarrow> I s'"
    and telldir: "\<And>d r s s'. syscall (w_telldir W d) s = (r, s') \<Longrightarrow> I s \<Longrightarrow> I s'"
    and seekdir: "\<And>d off r s s'. syscall (w_seekdir W d off) s = (r, s') \<Longrightarrow> I s \<Longrightarrow> I s'"
    and fail: "I s \<Longrightarrow> \<not> prot_fd (- 1)"
begin

lemmas [keeps] = get_osfhandle open_osfhandle CreateFile real_open close CloseHandle caching
  GetFinalPathNameByHandle GetFileInformationByHandle SetFileAttributes GetFileType
  NtQueryObject DeviceIoControl WideCharToMultiByte CreateHardLink CreateSymbolicLink malloc
  strdup stat access chmod mkdir rmdir unlink rename real_fdopen real_CreateFileW lseek opendir
  readdir closedir rewinddir telldir seekdir

lemmas stores [simp] = errno last_error

lemma set_errno_via_winerr [simp]: "I s \<Longrightarrow> I (set_errno_via_winerr w s)"
  by (simp add: set_errno_via_winerr_def Let_def)



lemmas call_splits = if_splits option.splits

lemmas ignored_result [simp] =
  closedir [OF prod.collapse [symmetric]] rewinddir [OF prod.collapse [symmetric]]
  seekdir [OF prod.collapse [symmetric]] close [OF prod.collapse [symmetric]]

section \<open>Every function keeps the invariant\<close>

lemma open_handle_fd [keeps]:
  "FdPath.open_handle_fd W path acc share fl attrs s = (fd, s') \<Longrightarrow> I s \<Longrightarrow> I s' \<and> \<not> prot_fd fd"
  unfolding open_handle_fd_def by (auto simp: Let_def call_eq fail split: call_splits dest!: keeps)

lemma open_dir_fd [keeps]:
  "FdPath.open_dir_fd W path acc share fl s = (fd, s') \<Longrightarrow> I s \<Longrightarrow> I s' \<and> \<not> prot_fd fd"
  unfolding open_dir_fd_def by (rule open_handle_fd)

lemma open_symlink_fd [keeps]:
  "FdPath.open_symlink_fd W path acc share fl s = (fd, s') \<Longrightarrow> I s \<Longrightarrow> I s' \<and> \<not> prot_fd fd"
  unfolding open_symlink_fd_def by (rule open_handle_fd)

lemma fd_get_path [keeps]: "FdPath.fd_get_path W fd s = Some (r, s') \<Longrightarrow> I s \<Longrightarrow> I s'"
  unfolding fd_get_path_def by (auto simp: Let_def call_eq split: call_splits dest!: keeps)

lemma readlink [keeps]: "Link.readlink nd W path len s = Some (r, s') \<Longrightarrow> I s \<Longrightarrow> I s'"
  unfolding readlink_def by (auto simp: Let_def call_eq maybe_eq split: if_splits dest!: keeps)

lemma link [keeps]: "Link.link W p q s = (r, s') \<Longrightarrow> I s \<Longrightarrow> I s'"
  unfolding link_def by (auto simp: Let_def call_eq split: call_splits dest!: keeps)

lemma symlink [keeps]: "Link.symlink W p q s = (r, s') \<Longrightarrow> I s \<Longrightarrow> I s'"
  unfolding symlink_def by (auto simp: Let_def call_eq split: call_splits dest!: keeps)

lemma stat_size [keeps]: "Stat.stat_size nd W hfi path s = Some (r, s') \<Longrightarrow> I s \<Longrightarrow> I s'"
  unfolding stat_size_def by (auto simp: call_eq split: call_splits dest!: keeps)

lemma fstat [keeps]: "Stat.fstat nd W fd buf s = Some (r, s') \<Longrightarrow> I s \<Longrightarrow> I s'"
  unfolding fstat_def fstat64_def by (auto simp: Let_def call_eq split: call_splits dest!: keeps)

lemma lstat [keeps]: "Stat.lstat nd W path buf s = Some (r, s') \<Longrightarrow> I s \<Longrightarrow> I s'"
  unfolding lstat_def by (auto simp: Let_def call_eq split: call_splits dest!: keeps)

lemma is_dirfd [keeps]: "PathAt.is_dirfd nd W fd s = Some (r, s') \<Longrightarrow> I s \<Longrightarrow> I s'"
  unfolding is_dirfd_def by (auto simp: Let_def call_eq split: call_splits dest!: keeps)

lemma get_path_at [keeps]: "PathAt.get_path_at nd W fd name s = Some (r, s') \<Longrightarrow> I s \<Longrightarrow> I s'"
  unfolding get_path_at_def by (auto simp: Let_def call_eq split: call_splits dest!: keeps)

lemma open_impl [keeps]:
  "OpenCompat.open_impl W path fl ap s = Some (fd, s') \<Longrightarrow> I s \<Longrightarrow> I s' \<and> \<not> prot_fd fd"
  unfolding open_impl_def by (auto simp: Let_def call_eq fail split: call_splits dest!: keeps)

lemma wrap_open [keeps]:
  "OpenCompat.wrap_open nd W path fl ap s = Some (fd, s') \<Longrightarrow> I s \<Longrightarrow> I s' \<and> \<not> prot_fd fd"
  unfolding wrap_open_def by (auto simp: call_eq split: call_splits dest!: keeps)

lemma wrap__open [keeps]:
  "OpenCompat.wrap__open nd W path fl ap s = Some (fd, s') \<Longrightarrow> I s \<Longrightarrow> I s' \<and> \<not> prot_fd fd"
  unfolding wrap__open_def by (auto simp: call_eq split: call_splits dest!: keeps)

lemma wrap_CreateFileW [keeps]:
  "OpenCompat.wrap_CreateFileW W ws acc sh sec disp attrs t s = Some (r, s') \<Longrightarrow> I s \<Longrightarrow> I s'"
  unfolding wrap_CreateFileW_def by (auto simp: Let_def call_eq split: call_splits dest!: keeps)

lemma wrap_fdopen [keeps]: "FileCompat.wrap_fdopen W fd mode s = (r, s') \<Longrightarrow> I s \<Longrightarrow> I s'"
  unfolding wrap_fdopen_def by (auto simp: call_eq split: call_splits dest!: keeps)

lemma wrap_fopen [keeps]: "FileCompat.wrap_fopen nd W path mode s = Some (r, s') \<Longrightarrow> I s \<Longrightarrow> I s'"
  unfolding wrap_fopen_def by (auto simp: Let_def call_eq split: call_splits dest!: keeps)

lemma wrap_creat [keeps]:
  "FileCompat.wrap_creat nd W path mode s = Some (fd, s') \<Longrightarrow> I s \<Longrightarrow> I s' \<and> \<not> prot_fd fd"
  unfolding wrap_creat_def Let_def by (rule wrap_open)

lemma mkdir_stub [keeps]: "Mkdir.mkdir_stub nd W path mode s = Some (r, s') \<Longrightarrow> I s \<Longrightarrow> I s'"
  unfolding mkdir_stub_def by (auto simp: Let_def call_eq split: call_splits dest!: keeps)

lemma mknod [keeps]: "Mkdir.mknod W path mode dev s = (r, s') \<Longrightarrow> I s \<Longrightarrow> I s'"
  unfolding mknod_def by (auto simp: Let_def call_eq split: call_splits dest!: keeps)

lemma readlinkat [keeps]: "AtCompat.readlinkat nd W d path len s = Some (r, s') \<Longrightarrow> I s \<Longrightarrow> I s'"
  by (erule rl.at_keeps) (auto dest: keeps)

lemma symlinkat [keeps]: "AtCompat.symlinkat nd W p d q s = Some (r, s') \<Longrightarrow> I s \<Longrightarrow> I s'"
  by (erule sl.at_keeps) (auto dest: keeps)

lemma unlinkat [keeps]: "AtCompat.unlinkat nd W d path fl s = Some (r, s') \<Longrightarrow> I s \<Longrightarrow> I s'"
  unfolding unlinkat_def unlinkat_funcptr_def by (auto simp: call_eq split: call_splits dest!: keeps)

lemma fstatat [keeps]: "AtCompat.fstatat nd W d path buf fl s = Some (r, s') \<Longrightarrow> I s \<Longrightarrow> I s'"
  unfolding fstatat_def fstatat_funcptr_def by (auto simp: call_eq split: call_splits dest!: keeps)

lemma faccessat [keeps]: "AtCompat.faccessat nd W d path mode fl s = Some (r, s') \<Longrightarrow> I s \<Longrightarrow> I s'"
  unfolding faccessat_def by (auto simp: Let_def call_eq split: call_splits dest!: keeps)

lemma mkdirat [keeps]: "AtCompat.mkdirat nd W d path mode s = Some (r, s') \<Longrightarrow> I s \<Longrightarrow> I s'"
  unfolding mkdirat_def by (auto simp: call_eq split: call_splits dest!: keeps)

lemma openat [keeps]:
  "AtCompat.openat nd W d path fl ap s = Some (fd, s') \<Longrightarrow> I s \<Longrightarrow> I s' \<and> \<not> prot_fd fd"
  unfolding openat_def by (auto simp: Let_def call_eq fail split: call_splits dest!: keeps)

lemma strdup_again_keeps:
  assumes "AtCompat.strdup_again nd W' path s = Some s'"
  shows "W' = W \<longrightarrow> I s \<longrightarrow> I s'"
  by (rule strdup_again.raw_induct [OF _ assms, where P = "\<lambda>_ W' _ s s'. W' = W \<longrightarrow> I s \<longrightarrow> I s'"])
    (auto simp: call_eq c_assert_Some_iff split: call_splits dest!: keeps)

lemma strdup_again [keeps]: "AtCompat.strdup_again nd W path s = Some s' \<Longrightarrow> I s \<Longrightarrow> I s'"
  using strdup_again_keeps by blast

lemma both_paths [keeps]:
  assumes "AtCompat.both_paths nd W d1 p1 d2 p2 call s = Some (r, s')" and "I s"
    and "\<And>p q s r s'. call p q s = (r, s') \<Longrightarrow> I s \<Longrightarrow> I s'"
  shows "I s'"
  using assms(1,2) unfolding both_paths_def
  by (auto simp: Let_def call_eq split: call_splits dest!: keeps assms(3))

lemma linkat [keeps]: "AtCompat.linkat nd W d1 p1 d2 p2 fl s = Some (r, s') \<Longrightarrow> I s \<Longrightarrow> I s'"
  unfolding linkat_def by (erule both_paths) (auto dest: keeps)

lemma renameat [keeps]: "AtCompat.renameat nd W d1 p1 d2 p2 s = Some (r, s') \<Longrightarrow> I s \<Longrightarrow> I s'"
  unfolding renameat_def by (erule both_paths) (auto dest: keeps)

lemma opendir_stub [keeps]:
  "Dirent.opendir_stub nd W path s = Some (r, s') \<Longrightarrow> I s \<Longrightarrow>
   I s' \<and> (\<forall>d. r = Some d \<longrightarrow> \<not> prot_fd (ds_fd d))"
  unfolding opendir_stub_def by (auto simp: Let_def call_eq split: call_splits dest!: keeps)

lemma fdopendir [keeps]: "Dirent.fdopendir nd W fd s = Some (r, s') \<Longrightarrow> I s \<Longrightarrow> I s'"
  unfolding fdopendir_def by (auto simp: Let_def call_eq split: call_splits dest!: keeps)

lemma assert_lseek [keeps]: "Dirent.assert_lseek nd W fd off wh s = Some s' \<Longrightarrow> I s \<Longrightarrow> I s'"
  unfolding assert_lseek_def by (auto simp: call_eq split: call_splits dest!: keeps)

lemma readdir_stub [keeps]: "Dirent.readdir_stub nd W d res s = Some (r, s') \<Longrightarrow> I s \<Longrightarrow> I s'"
  unfolding readdir_stub_def by (auto simp: Let_def call_eq split: call_splits dest!: keeps)

lemma closedir_stub [keeps]:
  "Dirent.closedir_stub W d s = (r, s') \<Longrightarrow> I s \<Longrightarrow>
   (case d of None \<Rightarrow> True | Some x \<Rightarrow> \<not> prot_fd (ds_fd x)) \<Longrightarrow> I s'"
  unfolding closedir_stub_def by (auto simp: Let_def split: option.splits if_splits)

lemma rewinddir_stub [keeps]: "Dirent.rewinddir_stub nd W d s = Some s' \<Longrightarrow> I s \<Longrightarrow> I s'"
  unfolding rewinddir_stub_def by (auto simp: Let_def call_eq split: call_splits dest!: keeps)

lemma telldir_stub [keeps]: "Dirent.telldir_stub W d s = (r, s') \<Longrightarrow> I s \<Longrightarrow> I s'"
  unfolding telldir_stub_def by (auto simp: call_eq split: call_splits dest!: keeps)

lemma seekdir_stub [keeps]: "Dirent.seekdir_stub nd W d off s = Some s' \<Longrightarrow> I s \<Longrightarrow> I s'"
  unfolding seekdir_stub_def by (auto simp: Let_def call_eq split: call_splits dest!: keeps)

lemma dirfd [keeps]: "Dirent.dirfd d s = (r, s') \<Longrightarrow> I s \<Longrightarrow> I s'"
  unfolding dirfd_def by (auto simp: call_eq split: call_splits)

lemma fchmod [keeps]: "Acl.fchmod W fd mode s = (r, s') \<Longrightarrow> I s \<Longrightarrow> I s'"
  unfolding fchmod_def by (auto simp: Let_def call_eq split: call_splits dest!: keeps)

lemma chown [keeps]: "Acl.chown W path s = (r, s') \<Longrightarrow> I s \<Longrightarrow> I s'"
  unfolding chown_def by (auto simp: call_eq split: call_splits dest!: keeps)

lemma fchown [keeps]: "Acl.fchown nd W fd s = Some (r, s') \<Longrightarrow> I s \<Longrightarrow> I s'"
  unfolding fchown_def by (auto simp: call_eq split: call_splits dest!: keeps)

lemma lchown [keeps]: "Acl.lchown nd W path s = Some (r, s') \<Longrightarrow> I s \<Longrightarrow> I s'"
  unfolding lchown_def by (auto simp: call_eq split: call_splits dest!: keeps)


lemma get_osfhandle_oflag_loop [keeps]:
  "OflagCache.get_osfhandle_oflag_loop W h i s = Some (r, s') \<Longrightarrow> I s \<Longrightarrow> I s'"
proof (induction "fd_cache_max_size s - i" arbitrary: i s rule: less_induct)
  case less
  show ?case
  proof (cases "i < fd_cache_max_size s \<and> i < length (fd_cache s)")
    case False
    with less.prems show ?thesis
      by (subst (asm) get_osfhandle_oflag_loop.simps)
        (auto simp: get_osfhandle_oflag_fallback_def call_eq maybe_eq split: if_splits dest!: keeps)
  next
    case True
    obtain other s1 where c: "syscall (w_get_osfhandle W (of_nat i)) s = (other, s1)"
      by (cases "syscall (w_get_osfhandle W (of_nat i)) s") simp
    then have fr: "fd_cache_max_size s1 = fd_cache_max_size s" using syscall_frameD [OF c] by simp
    have I1: "I s1" using get_osfhandle [OF c less.prems(2)] by blast
    have I2: "I (drop_entry i s1)" if "other = INVALID_HANDLE_VALUE"
      using evict [of i s s1] c less.prems(2) True that by blast
    have step: "OflagCache.get_osfhandle_oflag_loop W h (Suc i) t = Some (r, s') \<Longrightarrow>
        fd_cache_max_size t \<le> fd_cache_max_size s \<Longrightarrow> I t \<Longrightarrow> I s'" for t
      using True by (intro less.hyps [of t "Suc i"]) auto
    from less.prems(1) True c fr I1 I2 step [of s] step [of s1] step [of "drop_entry i s1"] less.prems(2)
    show ?thesis
      by (subst (asm) get_osfhandle_oflag_loop.simps) (auto simp: Let_def split: if_splits)
  qed
qed

lemma get_osfhandle_oflag [keeps]:
  "OflagCache.get_osfhandle_oflag W h s = Some (r, s') \<Longrightarrow> I s \<Longrightarrow> I s'"
  unfolding get_osfhandle_oflag_def by (auto split: if_splits dest!: keeps)

end

section \<open>Programs that use the library\<close>

text \<open>
  A call of the library with its arguments; \<open>C_close\<close> is the \<open>close\<close> of the C runtime, which is
  not wrapped, and \<open>C_lookup\<close> the question of the Rust code for the append mode of a handle.
\<close>

datatype (plugins only: size code) api_call =
    C_open string c_int "mode_t option" | C__open string c_int "mode_t option"
  | C_CreateFileW "wchar list option" dword dword ptr dword dword handle
  | C_fopen string string | C_fdopen c_int string | C_creat string c_int
  | C_close c_int | C_lookup handle
  | C_fstat c_int stat | C_lstat string stat | C_fchmod c_int mode_t
  | C_chown string | C_fchown c_int | C_lchown string
  | C_readlink string size_t | C_link string string | C_symlink string string
  | C_mkdir string mode_t | C_mknod string mode_t c_uint
  | C_openat c_int string c_int "mode_t option" | C_readlinkat c_int string size_t
  | C_symlinkat string c_int string | C_unlinkat c_int string c_int
  | C_fstatat c_int string stat c_int | C_faccessat c_int string c_int c_int
  | C_mkdirat c_int string mode_t | C_linkat c_int string c_int string c_int
  | C_renameat c_int string c_int string
  | C_opendir string | C_fdopendir c_int | C_readdir "dir_stub option" dirent_stub
  | C_closedir "dir_stub option" | C_rewinddir "dir_stub option" | C_telldir "dir_stub option"
  | C_seekdir "dir_stub option" c_int

text \<open>The state after a call that returns.\<close>

fun run_call :: "bool \<Rightarrow> 'w win32 \<Rightarrow> api_call \<Rightarrow> 'w proc \<Rightarrow> 'w proc option" where
  "run_call nd W (C_open path fl ap) s = map_option snd (wrap_open nd W path fl ap s)"
| "run_call nd W (C__open path fl ap) s = map_option snd (wrap__open nd W path fl ap s)"
| "run_call nd W (C_CreateFileW ws acc sh sec disp attrs t) s =
     map_option snd (wrap_CreateFileW W ws acc sh sec disp attrs t s)"
| "run_call nd W (C_fopen path mode) s = map_option snd (wrap_fopen nd W path mode s)"
| "run_call nd W (C_fdopen fd mode) s = Some (snd (wrap_fdopen W fd mode s))"
| "run_call nd W (C_creat path mode) s = map_option snd (wrap_creat nd W path mode s)"
| "run_call nd W (C_close fd) s = Some (snd (syscall (w_close W fd) s))"
| "run_call nd W (C_lookup h) s = map_option snd (get_osfhandle_oflag W h s)"
| "run_call nd W (C_fstat fd buf) s = map_option snd (fstat nd W fd buf s)"
| "run_call nd W (C_lstat path buf) s = map_option snd (lstat nd W path buf s)"
| "run_call nd W (C_fchmod fd mode) s = Some (snd (fchmod W fd mode s))"
| "run_call nd W (C_chown path) s = Some (snd (chown W path s))"
| "run_call nd W (C_fchown fd) s = map_option snd (fchown nd W fd s)"
| "run_call nd W (C_lchown path) s = map_option snd (lchown nd W path s)"
| "run_call nd W (C_readlink path len) s = map_option snd (readlink nd W path len s)"
| "run_call nd W (C_link p q) s = Some (snd (link W p q s))"
| "run_call nd W (C_symlink p q) s = Some (snd (symlink W p q s))"
| "run_call nd W (C_mkdir path mode) s = map_option snd (mkdir_stub nd W path mode s)"
| "run_call nd W (C_mknod path mode dev) s = Some (snd (mknod W path mode dev s))"
| "run_call nd W (C_openat d path fl ap) s = map_option snd (openat nd W d path fl ap s)"
| "run_call nd W (C_readlinkat d path len) s = map_option snd (readlinkat nd W d path len s)"
| "run_call nd W (C_symlinkat p d q) s = map_option snd (symlinkat nd W p d q s)"
| "run_call nd W (C_unlinkat d path fl) s = map_option snd (unlinkat nd W d path fl s)"
| "run_call nd W (C_fstatat d path buf fl) s = map_option snd (fstatat nd W d path buf fl s)"
| "run_call nd W (C_faccessat d path mode fl) s = map_option snd (faccessat nd W d path mode fl s)"
| "run_call nd W (C_mkdirat d path mode) s = map_option snd (mkdirat nd W d path mode s)"
| "run_call nd W (C_linkat d p e q fl) s = map_option snd (linkat nd W d p e q fl s)"
| "run_call nd W (C_renameat d p e q) s = map_option snd (renameat nd W d p e q s)"
| "run_call nd W (C_opendir path) s = map_option snd (opendir_stub nd W path s)"
| "run_call nd W (C_fdopendir fd) s = map_option snd (fdopendir nd W fd s)"
| "run_call nd W (C_readdir d res) s = map_option snd (readdir_stub nd W d res s)"
| "run_call nd W (C_closedir d) s = Some (snd (closedir_stub W d s))"
| "run_call nd W (C_rewinddir d) s = rewinddir_stub nd W d s"
| "run_call nd W (C_telldir d) s = Some (snd (telldir_stub W d s))"
| "run_call nd W (C_seekdir d off) s = seekdir_stub nd W d off s"

fun run_calls :: "bool \<Rightarrow> 'w win32 \<Rightarrow> api_call list \<Rightarrow> 'w proc \<Rightarrow> 'w proc option" where
  "run_calls nd W [] s = Some s"
| "run_calls nd W (c # cs) s = run_call nd W c s \<bind> run_calls nd W cs"

text \<open>A call that closes no protected descriptor: only \<open>close\<close> and \<open>closedir\<close> close what they are given.\<close>

fun spares :: "(c_int \<Rightarrow> bool) \<Rightarrow> api_call \<Rightarrow> bool" where
  "spares prot (C_close fd) \<longleftrightarrow> \<not> prot fd"
| "spares prot (C_closedir d) \<longleftrightarrow> (case d of None \<Rightarrow> True | Some x \<Rightarrow> \<not> prot (ds_fd x))"
| "spares prot _ \<longleftrightarrow> True"

context api_invariant
begin

lemmas called [simp] =
  wrap_fdopen [OF prod.collapse [symmetric]] fchmod [OF prod.collapse [symmetric]]
  chown [OF prod.collapse [symmetric]] link [OF prod.collapse [symmetric]]
  symlink [OF prod.collapse [symmetric]] mknod [OF prod.collapse [symmetric]]
  telldir_stub [OF prod.collapse [symmetric]] closedir_stub [OF prod.collapse [symmetric]]

lemma run_call [keeps]: "WinApi.run_call nd W c s = Some s' \<Longrightarrow> I s \<Longrightarrow> spares prot_fd c \<Longrightarrow> I s'"
  by (cases c) (auto dest: keeps)

lemma run_calls:
  "WinApi.run_calls nd W cs s = Some s' \<Longrightarrow> I s \<Longrightarrow> \<forall>c \<in> set cs. spares prot_fd c \<Longrightarrow> I s'"
  by (induction cs arbitrary: s) (auto dest: run_call)


end

section \<open>The table of open flags\<close>

lemma syscall_cache_inv: "syscall f s = (r, s') \<Longrightarrow> cache_inv s \<Longrightarrow> cache_inv s'"
  using cache_inv_cong [of s' s] syscall_frameD [of f s r s'] by simp

lemma drop_entry_inv: "cache_inv s \<Longrightarrow> i < fd_cache_max_size s \<Longrightarrow> cache_inv (drop_entry i s)"
  using evicted_drop [of s i "\<lambda>_ _. INVALID_HANDLE_VALUE"] by (simp add: evicted_def)

interpretation table: api_invariant W cache_inv "\<lambda>_. False" "\<lambda>_. False" for W
proof unfold_locales
  fix i s s'
  assume "syscall (w_get_osfhandle W (of_nat i)) s = (INVALID_HANDLE_VALUE, s')" "cache_inv s"
    "i < fd_cache_max_size s"
  then show "cache_inv (drop_entry i s')"
    using syscall_cache_inv syscall_frameD by (metis drop_entry_inv)
qed (auto dest: syscall_cache_inv fd_cache_oflag_inv)

lemma spares_nothing: "spares (\<lambda>_. False) c"
  by (cases c) (auto split: option.splits)

lemma lookup_loop_returns: "cache_inv s \<Longrightarrow> get_osfhandle_oflag_loop W h i s \<noteq> None"
proof (induction "fd_cache_max_size s - i" arbitrary: i s rule: less_induct)
  case less
  obtain other s1 where c: "syscall (w_get_osfhandle W (of_nat i)) s = (other, s1)"
    by (cases "syscall (w_get_osfhandle W (of_nat i)) s") simp
  have s1: "cache_inv s1" "fd_cache_max_size s1 = fd_cache_max_size s"
    using syscall_cache_inv [OF c less.prems] syscall_frameD [OF c] by simp_all
  have step: "get_osfhandle_oflag_loop W h (Suc i) t \<noteq> None"
    if "i < fd_cache_max_size s" "fd_cache_max_size t \<le> fd_cache_max_size s" "cache_inv t" for t
    using that by (intro less.hyps) auto
  show ?case
    using less.prems s1 c step [of s] step [of s1] step [of "drop_entry i s1"] drop_entry_inv [of s1 i]
    by (subst get_osfhandle_oflag_loop.simps) (auto simp: Let_def cache_inv_def)
qed

text \<open>
  Property C11. The table of open flags stays well formed in every program: after any sequence of
  calls of the library that return, starting with the table as the constructor leaves it, in
  either build and on any platform, the table has one entry per possible descriptor, each is -1,
  0 or \<open>O_APPEND\<close>, no entry outside the used part is set, every lookup by a handle returns, and
  every descriptor in range can be recorded.
\<close>

theorem table_well_formed:
  assumes "fd_cache_max_size s0 = 0" and "run_calls nd W cs (init_oflag_cache s0) = Some s"
  shows "length (fd_cache s) = open_max \<and> set (fd_cache s) \<subseteq> {- 1, 0, O_APPEND} \<and>
    fd_cache_max_size s \<le> open_max \<and>
    (\<forall>i. fd_cache_max_size s \<le> i \<longrightarrow> i < open_max \<longrightarrow> fd_cache s ! i = - 1) \<and>
    (\<forall>h. get_osfhandle_oflag W h s \<noteq> None) \<and>
    (\<forall>fd fl. unat fd < open_max \<longrightarrow> fd_cache_oflag nd fd fl s \<noteq> None)"
proof -
  have inv: "cache_inv s"
    using table.run_calls [OF assms(2) cache_inv_init [OF assms(1)]] by (simp add: spares_nothing)
  then show ?thesis
    using lookup_loop_returns [OF inv] fd_cache_oflag_returns [OF inv]
    by (force simp: cache_inv_def get_osfhandle_oflag_def)
qed

section \<open>A file that stays open\<close>

text \<open>
  Descriptor \<open>fd\<close> is open and is the only one with handle \<open>h\<close>. What Windows and the C runtime
  guarantee for such a descriptor: opening another file gives another descriptor and another
  handle, closing another descriptor or handle leaves it alone, and so does every other call.
\<close>

definition owns :: "('w \<Rightarrow> c_int \<Rightarrow> handle) \<Rightarrow> c_int \<Rightarrow> handle \<Rightarrow> 'w \<Rightarrow> bool" where
  "owns H fd h e \<longleftrightarrow> h \<noteq> INVALID_HANDLE_VALUE \<and> (\<forall>x. H e x = h \<longleftrightarrow> x = fd)"

definition keeps_open :: "('w \<Rightarrow> c_int \<Rightarrow> handle) \<Rightarrow> c_int \<Rightarrow> handle \<Rightarrow> ('w, 'a) ext \<Rightarrow> bool" where
  "keeps_open H fd h f \<longleftrightarrow> (\<forall>y. owns H fd h (env y) \<longrightarrow> owns H fd h (env (snd (f y))))"

definition opens_other ::
  "('w \<Rightarrow> c_int \<Rightarrow> handle) \<Rightarrow> c_int \<Rightarrow> handle \<Rightarrow> 'a \<Rightarrow> ('w, 'a) ext \<Rightarrow> bool" where
  "opens_other H fd h mine f \<longleftrightarrow> keeps_open H fd h f \<and>
     (\<forall>y. owns H fd h (env y) \<longrightarrow> fst (f y) \<noteq> mine)"

definition open_file_laws :: "'w win32 \<Rightarrow> ('w \<Rightarrow> c_int \<Rightarrow> handle) \<Rightarrow> c_int \<Rightarrow> handle \<Rightarrow> bool" where
  "open_file_laws W H fd h \<longleftrightarrow> handle_law W H \<and> \<not> fd <s 0 \<and>
     (\<forall>p fl m. opens_other H fd h fd (w_real_open W p fl m)) \<and>
     (\<forall>k fl. k \<noteq> h \<longrightarrow> opens_other H fd h fd (w_open_osfhandle W k fl)) \<and>
     (\<forall>p acc sh disp attrs. opens_other H fd h h (w_CreateFile W p acc sh disp attrs)) \<and>
     (\<forall>x. x \<noteq> fd \<longrightarrow> keeps_open H fd h (w_close W x)) \<and>
     (\<forall>k. k \<noteq> h \<longrightarrow> keeps_open H fd h (w_CloseHandle W k)) \<and>
     (\<forall>k n. keeps_open H fd h (w_GetFinalPathNameByHandle W k n)) \<and>
     (\<forall>k. keeps_open H fd h (w_GetFileInformationByHandle W k)) \<and>
     (\<forall>k attrs. keeps_open H fd h (w_SetFileAttributes W k attrs)) \<and>
     (\<forall>k. keeps_open H fd h (w_GetFileType W k)) \<and>
     (\<forall>k. keeps_open H fd h (w_NtQueryObject W k)) \<and>
     (\<forall>k. keeps_open H fd h (w_DeviceIoControl W k)) \<and>
     (\<forall>ws n. keeps_open H fd h (w_WideCharToMultiByte W ws n)) \<and>
     (\<forall>p q. keeps_open H fd h (w_CreateHardLink W p q)) \<and>
     (\<forall>p q fl. keeps_open H fd h (w_CreateSymbolicLink W p q fl)) \<and>
     (\<forall>n. keeps_open H fd h (w_malloc W n)) \<and>
     (\<forall>p. keeps_open H fd h (w_strdup W p)) \<and>
     (\<forall>p. keeps_open H fd h (w_stat W p)) \<and>
     (\<forall>p m. keeps_open H fd h (w_access W p m)) \<and>
     (\<forall>p m. keeps_open H fd h (w_chmod W p m)) \<and>
     (\<forall>p. keeps_open H fd h (w_mkdir W p)) \<and>
     (\<forall>p. keeps_open H fd h (w_rmdir W p)) \<and>
     (\<forall>p. keeps_open H fd h (w_unlink W p)) \<and>
     (\<forall>p q. keeps_open H fd h (w_rename W p q)) \<and>
     (\<forall>x p. keeps_open H fd h (w_real_fdopen W x p)) \<and>
     (\<forall>ws acc sh sec disp attrs t. keeps_open H fd h (w_real_CreateFileW W ws acc sh sec disp attrs t)) \<and>
     (\<forall>x off wh. keeps_open H fd h (w_lseek W x off wh)) \<and>
     (\<forall>p. keeps_open H fd h (w_opendir W p)) \<and>
     (\<forall>d. keeps_open H fd h (w_readdir W d)) \<and>
     (\<forall>d. keeps_open H fd h (w_closedir W d)) \<and>
     (\<forall>d. keeps_open H fd h (w_rewinddir W d)) \<and>
     (\<forall>d. keeps_open H fd h (w_telldir W d)) \<and>
     (\<forall>d off. keeps_open H fd h (w_seekdir W d off))"

text \<open>The file is open and its flag is in the table.\<close>

definition open_with ::
  "'w win32 \<Rightarrow> ('w \<Rightarrow> c_int \<Rightarrow> handle) \<Rightarrow> c_int \<Rightarrow> handle \<Rightarrow> c_int \<Rightarrow> 'w proc \<Rightarrow> bool" where
  "open_with W H fd h fl s \<longleftrightarrow> open_file_laws W H fd h \<and> cache_inv s \<and> owns H fd h (get_env s) \<and>
     has_flag s fd fl"

lemma owns_syscall:
  "keeps_open H fd h f \<Longrightarrow> syscall f s = (r, s') \<Longrightarrow> owns H fd h (get_env s) \<Longrightarrow> owns H fd h (get_env s')"
  using syscall_env [of f s r s'] by (simp add: keeps_open_def get_env_def)

lemma open_with_syscall:
  "syscall f s = (r, s') \<Longrightarrow> open_with W H fd h fl s \<Longrightarrow> keeps_open H fd h f \<Longrightarrow> open_with W H fd h fl s'"
  using owns_syscall [of H fd h f s r s'] syscall_cache_inv [of f s r s'] syscall_frameD [of f s r s']
  by (simp add: open_with_def has_flag_def)

lemma open_with_other:
  "syscall f s = (r, s') \<Longrightarrow> open_with W H fd h fl s \<Longrightarrow> opens_other H fd h mine f \<Longrightarrow>
   open_with W H fd h fl s' \<and> r \<noteq> mine"
  using open_with_syscall [of f s r s' W H fd h fl]
  by (auto simp: opens_other_def open_with_def syscall_def get_env_def split: prod.splits)

lemma of_nat_descriptor: "n < open_max \<Longrightarrow> of_nat n = fd \<longleftrightarrow> n = unat fd" for fd :: c_int
  using unat_of_nat_c_int [of n] by (auto simp: open_max_def)

lemma owns_sole_owner: "owns H fd h (get_env s) \<Longrightarrow> sole_owner H s fd h"
  by (simp add: owns_def sole_owner_def of_nat_descriptor)

lemma open_with_stores [simp]:
  "open_with W H fd h fl (set_errno e s) = open_with W H fd h fl s"
  "open_with W H fd h fl (set_last_error w s) = open_with W H fd h fl s"
  by (simp_all add: open_with_def has_flag_def)

lemma open_with_record:
  assumes "fd_cache_oflag nd x fl' s = Some s'" and "open_with W H fd h fl s" and "x \<noteq> fd"
  shows "open_with W H fd h fl s'"
proof -
  have "unat x \<noteq> unat fd" using assms(3) by (simp add: word_unat_eq_iff)
  then have "has_flag s' fd fl" "sys s' = sys s"
    using assms(1,2) by (auto simp: fd_cache_oflag_def open_with_def has_flag_def split: if_splits)
  then show ?thesis
    using assms(2) fd_cache_oflag_inv [OF _ assms(1)] by (simp add: open_with_def get_env_def)
qed

lemma open_with_evict:
  assumes "syscall (w_get_osfhandle W (of_nat i)) s = (INVALID_HANDLE_VALUE, s')"
    and "open_with W H fd h fl s" and "i < fd_cache_max_size s"
  shows "open_with W H fd h fl (drop_entry i s')"
proof -
  have law: "handle_law W H" using assms(2) by (simp add: open_with_def open_file_laws_def)
  have env: "get_env s' = get_env s" and inv: "H (get_env s) (of_nat i) = INVALID_HANDLE_VALUE"
    using handle_lawD [OF law assms(1)] by simp_all
  have fr: "fd_cache s' = fd_cache s" "fd_cache_max_size s' = fd_cache_max_size s"
    using syscall_frameD [OF assms(1)] by simp_all
  have "cache_inv s'" using assms(2) fr by (simp add: open_with_def cache_inv_def)
  moreover from this have "sole_owner H s' fd h" "has_flag s' fd fl"
    using assms(2) fr env owns_sole_owner [of H fd h s']
    by (auto simp: open_with_def has_flag_def cache_inv_def)
  ultimately have "cache_inv (drop_entry i s')" "has_flag (drop_entry i s') fd fl"
    using has_flag_evicted [of H s' "drop_entry i s'" fd h fl] evicted_drop [of s' i H] inv env fr assms(3)
      drop_entry_inv [of s' i] by simp_all
  then show ?thesis using assms(2) env by (simp add: open_with_def)
qed

lemma open_laws:
  assumes "open_with W H fd h flag s"
  shows "opens_other H fd h fd (w_real_open W p fl m)"
    and "k \<noteq> h \<Longrightarrow> opens_other H fd h fd (w_open_osfhandle W k fl)"
    and "opens_other H fd h h (w_CreateFile W p acc sh disp attrs)"
    and "x \<noteq> fd \<Longrightarrow> keeps_open H fd h (w_close W x)"
    and "k \<noteq> h \<Longrightarrow> keeps_open H fd h (w_CloseHandle W k)"
    and "keeps_open H fd h (w_GetFinalPathNameByHandle W k n_GetFinalPathNameByHandle)"
    and "keeps_open H fd h (w_GetFileInformationByHandle W k)"
    and "keeps_open H fd h (w_SetFileAttributes W k attrs_SetFileAttributes)"
    and "keeps_open H fd h (w_GetFileType W k)"
    and "keeps_open H fd h (w_NtQueryObject W k)"
    and "keeps_open H fd h (w_DeviceIoControl W k)"
    and "keeps_open H fd h (w_WideCharToMultiByte W ws_WideCharToMultiByte n_WideCharToMultiByte)"
    and "keeps_open H fd h (w_CreateHardLink W p_CreateHardLink q_CreateHardLink)"
    and "keeps_open H fd h (w_CreateSymbolicLink W p_CreateSymbolicLink q_CreateSymbolicLink fl_CreateSymbolicLink)"
    and "keeps_open H fd h (w_malloc W n_malloc)"
    and "keeps_open H fd h (w_strdup W p_strdup)"
    and "keeps_open H fd h (w_stat W p_stat)"
    and "keeps_open H fd h (w_access W p_access m_access)"
    and "keeps_open H fd h (w_chmod W p_chmod m_chmod)"
    and "keeps_open H fd h (w_mkdir W p_mkdir)"
    and "keeps_open H fd h (w_rmdir W p_rmdir)"
    and "keeps_open H fd h (w_unlink W p_unlink)"
    and "keeps_open H fd h (w_rename W p_rename q_rename)"
    and "keeps_open H fd h (w_real_fdopen W x p_real)"
    and "keeps_open H fd h (w_real_CreateFileW W ws_real acc_real sh_real sec_real disp_real attrs_real t_real)"
    and "keeps_open H fd h (w_lseek W x off_lseek wh_lseek)"
    and "keeps_open H fd h (w_opendir W p_opendir)"
    and "keeps_open H fd h (w_readdir W d_readdir)"
    and "keeps_open H fd h (w_closedir W d_closedir)"
    and "keeps_open H fd h (w_rewinddir W d_rewinddir)"
    and "keeps_open H fd h (w_telldir W d_telldir)"
    and "keeps_open H fd h (w_seekdir W d_seekdir off_seekdir)"
  using assms by (simp_all add: open_with_def open_file_laws_def)

interpretation held: api_invariant W "open_with W H fd h fl" "\<lambda>x. x = fd" "\<lambda>k. k = h"
  for W H fd h fl
proof unfold_locales
  fix x k s s'
  assume c: "syscall (w_get_osfhandle W x) s = (k, s')" and I: "open_with W H fd h fl s"
  then have "handle_law W H" "owns H fd h (get_env s)" by (simp_all add: open_with_def open_file_laws_def)
  moreover from this c have "get_env s' = get_env s" "k = H (get_env s) x"
    using handle_lawD by blast+
  ultimately show "open_with W H fd h fl s' \<and> (k = h \<longrightarrow> x = fd)"
    using I syscall_frameD [OF c] by (auto simp: open_with_def cache_inv_def has_flag_def owns_def)
next
  fix k :: handle and x nl s s'
  assume "syscall (w_open_osfhandle W k nl) s = (x, s')" "open_with W H fd h fl s" "k \<noteq> h"
  then show "open_with W H fd h fl s' \<and> x \<noteq> fd" by (meson open_with_other open_laws(2))
next
  fix p nl m x s s'
  assume "syscall (w_real_open W p nl m) s = (x, s')" "open_with W H fd h fl s"
  then show "open_with W H fd h fl s' \<and> x \<noteq> fd" by (meson open_with_other open_laws(1))
next
  fix p acc sh disp attrs k s s'
  assume "syscall (w_CreateFile W p acc sh disp attrs) s = (k, s')" "open_with W H fd h fl s"
  then show "open_with W H fd h fl s' \<and> k \<noteq> h" by (meson open_with_other open_laws(3))
qed (simp, simp, (rule open_with_record open_with_evict, assumption+ |
    rule open_with_syscall, assumption, assumption, rule open_laws; assumption)+,
    auto simp: open_with_def open_file_laws_def)

lemma open_with_lookup:
  assumes "open_with W H fd h fl s"
  shows "\<exists>s'. get_osfhandle_oflag W h s = Some (fl, s') \<and> cache_inv s'"
  using get_osfhandle_oflag_finds [of W H s fd h fl] owns_sole_owner [of H fd h s] assms
  by (auto simp: open_with_def open_file_laws_def evicted_def)

text \<open>
  Property C10. From \<open>open\<close> to the lookup by handle, through any other use of the library: if
  \<open>open\<close> returned a descriptor and the program then makes any calls of the library that return and
  do not close that descriptor, in any order and in either build, a lookup by the descriptor's
  handle still answers with the append bit of the flags the file was opened with. No function of
  the library closes a descriptor that it did not open.
\<close>

theorem open_flag_survives:
  assumes "cache_inv s" and "fd_range_law W" and "open_file_laws W H fd h"
    and "wrap_open nd W path oflag ap s = Some (fd, s1)" and "owns H fd h (get_env s1)"
    and "run_calls nd W cs s1 = Some s2" and "\<forall>c \<in> set cs. spares (\<lambda>x. x = fd) c"
  shows "\<exists>s3. get_osfhandle_oflag W h s2 = Some (oflag AND O_APPEND, s3) \<and> cache_inv s3 \<and>
    owns H fd h (get_env s2)"
proof -
  have fd: "\<not> fd <s 0" using assms(3) by (simp add: open_file_laws_def)
  obtain s0 where "open_impl W path oflag ap s = Some (fd, s0)"
    using assms(4) by (auto simp: wrap_open_def split: if_splits)
  from wrap_open_records [OF assms(1,2) this, of nd] assms(4) fd
  have "cache_inv s1 \<and> has_flag s1 fd (oflag AND O_APPEND)" by simp
  then have "open_with W H fd h (oflag AND O_APPEND) s1" using assms(3,5) by (simp add: open_with_def)
  note kept = held.run_calls [OF assms(6) this assms(7)]
  show ?thesis using open_with_lookup [OF kept] kept by (auto simp: open_with_def)
qed

section \<open>Witnesses\<close>

text \<open>Descriptor 5 is given out while it is closed, and every other call fails.\<close>

definition demo_api_win :: "(c_int \<Rightarrow> handle) win32" where
  "demo_api_win = null_win\<lparr>
     w_get_osfhandle := (\<lambda>fd y. (env y fd, y)),
     w_real_open := (\<lambda>p fl m y. if env y 5 = INVALID_HANDLE_VALUE
       then (5, y\<lparr>env := (env y)(5 := 77)\<rparr>) else (- 1, y)),
     w_close := (\<lambda>fd y. (0, y\<lparr>env := (env y)(fd := INVALID_HANDLE_VALUE)\<rparr>))\<rparr>"

lemma demo_api_laws: "open_file_laws demo_api_win id 5 77" "fd_range_law demo_api_win"
proof -
  show "fd_range_law demo_api_win"
    by (simp add: fd_range_law_def demo_api_win_def null_win_def open_max_def)
  show "open_file_laws demo_api_win id 5 77"
    unfolding open_file_laws_def
    by (intro conjI allI impI)
      (auto intro!: exI [of _ "5 :: c_int"] simp: demo_api_win_def null_win_def opens_other_def keeps_open_def owns_def handle_law_def word_sless_alt)
qed

theorem table_well_formed_witness:
  "\<exists>s. run_calls False demo_api_win [C_mkdir ''d'' 0x1C0, C_close 3] (init_oflag_cache
       (demo_proc (\<lambda>_. INVALID_HANDLE_VALUE))) = Some s \<and> length (fd_cache s) = 8192"
proof -
  let ?s = "demo_proc (\<lambda>_. INVALID_HANDLE_VALUE)"
  obtain s where s: "run_calls False demo_api_win [C_mkdir ''d'' 0x1C0, C_close 3] (init_oflag_cache ?s) = Some s"
    by (simp add: mkdir_stub_def demo_api_win_def null_win_def syscall_def word_sless_alt)
  have "fd_cache_max_size ?s = 0" by (simp add: demo_proc_def init_oflag_cache_def)
  from table_well_formed [OF this s] have "length (fd_cache s) = 8192" by (simp add: open_max_def)
  with s show ?thesis by blast
qed

theorem open_flag_survives_witness:
  "\<exists>s1 s2 s3. wrap_open False demo_api_win ''log'' (O_WRONLY OR O_APPEND) None
       (demo_proc (\<lambda>_. INVALID_HANDLE_VALUE)) = Some (5, s1) \<and>
     run_calls False demo_api_win [C_open ''b'' 0 None, C_mkdir ''d'' 0x1C0, C_close 6] s1 = Some s2 \<and>
     get_osfhandle_oflag demo_api_win 77 s2 = Some (O_APPEND, s3)"
proof -
  let ?W = demo_api_win and ?fl = "O_WRONLY OR O_APPEND :: c_int"
  let ?s = "demo_proc (\<lambda>_. INVALID_HANDLE_VALUE) :: (c_int \<Rightarrow> handle) proc"
  let ?cs = "[C_open ''b'' 0 None, C_mkdir ''d'' 0x1C0, C_close 6]"
  define s0 where "s0 = snd (syscall (w_real_open ?W ''log'' (?fl OR O_BINARY) None) ?s)"
  have o: "open_impl ?W ''log'' ?fl None ?s = Some (5, s0)"
    by (simp add: open_impl_def s0_def demo_api_win_def null_win_def syscall_def word_sless_alt
        demo_proc_def init_oflag_cache_def)
  have "cache_inv s0" by (simp add: s0_def demo_cache_inv)
  then obtain s1 where s1: "fd_cache_oflag False 5 ?fl s0 = Some s1" "sys s1 = sys s0"
    using fd_cache_oflag_returns [of s0 5 False ?fl] by (auto simp: open_max_def)
  then have w: "wrap_open False ?W ''log'' ?fl None ?s = Some (5, s1)"
    using o by (simp add: wrap_open_def word_sless_alt)
  have e: "env (sys s1) = (\<lambda>_. INVALID_HANDLE_VALUE)(5 := 77)"
    by (simp add: s1(2) s0_def syscall_def demo_api_win_def demo_proc_def init_oflag_cache_def)
  obtain s2 where r: "run_calls False ?W ?cs s1 = Some s2"
    by (simp add: wrap_open_def open_impl_def mkdir_stub_def demo_api_win_def null_win_def syscall_def
        word_sless_alt e)
  have own: "owns id 5 77 (get_env s1)" by (simp add: owns_def get_env_def e)
  have "\<forall>c \<in> set ?cs. spares (\<lambda>x. x = 5) c" by simp
  from open_flag_survives [OF demo_cache_inv demo_api_laws(2,1) w own r this]
  obtain s3 where "get_osfhandle_oflag ?W 77 s2 = Some (O_APPEND, s3)" by auto
  with w r show ?thesis by blast
qed


end
