(* ===== verification/Descriptors.thy ===== *)
theory Descriptors
  imports Dirent
begin

text \<open>
  Which descriptors of the C runtime the functions of \<open>libc-compat/winsup\<close> leave open:
  \<open>opendir\<close>, \<open>fdopendir\<close> and \<open>closedir\<close>, \<open>lstat\<close>, and \<open>readlink\<close>, which leaves one behind.
\<close>

section \<open>The descriptors of the C runtime\<close>

text \<open>
  \<open>F e\<close> is the set of descriptors that are open in environment \<open>e\<close>. A successful open adds a
  descriptor that was not in it, a failed one adds nothing, \<open>close\<close> removes its argument, and the
  other calls leave the set alone; \<open>CloseHandle\<close> is one of them, since it does not know about
  descriptors.
\<close>

definition keeps_fds :: "('w \<Rightarrow> c_int set) \<Rightarrow> ('w, 'a) ext \<Rightarrow> bool" where
  "keeps_fds F f \<longleftrightarrow> (\<forall>y. F (env (snd (f y))) = F (env y))"

definition adds_fd :: "('w \<Rightarrow> c_int set) \<Rightarrow> ('w, c_int) ext \<Rightarrow> bool" where
  "adds_fd F f \<longleftrightarrow> (\<forall>y. if fst (f y) <s 0 then F (env (snd (f y))) = F (env y)
     else fst (f y) \<notin> F (env y) \<and> F (env (snd (f y))) = insert (fst (f y)) (F (env y)))"

definition fd_laws :: "'w win32 \<Rightarrow> ('w \<Rightarrow> c_int set) \<Rightarrow> bool" where
  "fd_laws W F \<longleftrightarrow>
     (\<forall>h fl. adds_fd F (w_open_osfhandle W h fl)) \<and>
     (\<forall>p fl m. adds_fd F (w_real_open W p fl m)) \<and>
     (\<forall>fd y. F (env (snd (w_close W fd y))) = F (env y) - {fd}) \<and>
     (\<forall>p acc sh disp attrs. keeps_fds F (w_CreateFile W p acc sh disp attrs)) \<and>
     (\<forall>h. keeps_fds F (w_CloseHandle W h)) \<and>
     (\<forall>fd. keeps_fds F (w_get_osfhandle W fd)) \<and>
     (\<forall>h n. keeps_fds F (w_GetFinalPathNameByHandle W h n)) \<and>
     (\<forall>h. keeps_fds F (w_GetFileInformationByHandle W h)) \<and>
     (\<forall>h. keeps_fds F (w_GetFileType W h)) \<and>
     (\<forall>h. keeps_fds F (w_DeviceIoControl W h)) \<and>
     (\<forall>ws n. keeps_fds F (w_WideCharToMultiByte W ws n)) \<and>
     (\<forall>n. keeps_fds F (w_malloc W n)) \<and>
     (\<forall>p. keeps_fds F (w_stat W p)) \<and>
     (\<forall>p. keeps_fds F (w_opendir W p)) \<and>
     (\<forall>d. keeps_fds F (w_closedir W d))"

text \<open>The descriptors that are open in a state of the process.\<close>

definition fds :: "('w \<Rightarrow> c_int set) \<Rightarrow> 'w proc \<Rightarrow> c_int set" where
  "fds F s = F (get_env s)"

definition same_fds :: "('w \<Rightarrow> c_int set) \<Rightarrow> 'w proc \<Rightarrow> 'w proc \<Rightarrow> bool" where
  "same_fds F s s' \<longleftrightarrow> fds F s' = fds F s"

definition new_fd :: "('w \<Rightarrow> c_int set) \<Rightarrow> 'w proc \<Rightarrow> c_int \<Rightarrow> 'w proc \<Rightarrow> bool" where
  "new_fd F s fd s' \<longleftrightarrow> (if fd <s 0 then fds F s' = fds F s
     else fd \<notin> fds F s \<and> fds F s' = insert fd (fds F s))"

definition less_fd :: "('w \<Rightarrow> c_int set) \<Rightarrow> 'w proc \<Rightarrow> c_int \<Rightarrow> 'w proc \<Rightarrow> bool" where
  "less_fd F s fd s' \<longleftrightarrow> fds F s' = fds F s - {fd}"

lemmas fd_effect = same_fds_def new_fd_def less_fd_def

lemma fds_stores [simp]:
  "fds F (set_errno e s) = fds F s"
  "fds F (set_last_error w s) = fds F s"
  "fds F (set_errno_via_winerr w s) = fds F s"
  by (simp_all add: fds_def)

lemma fds_cached: "fd_cache_oflag nd fd fl s = Some s' \<Longrightarrow> same_fds F s s'"
  by (auto simp: fd_cache_oflag_def same_fds_def fds_def get_env_def split: if_splits)

lemma keeps_fds_syscall: "keeps_fds F f \<Longrightarrow> syscall f s = (r, s') \<Longrightarrow> same_fds F s s'"
  using syscall_env [of f s r s'] by (simp add: keeps_fds_def same_fds_def fds_def get_env_def)

lemma adds_fd_syscall: "adds_fd F f \<Longrightarrow> syscall f s = (fd, s') \<Longrightarrow> new_fd F s fd s'"
  unfolding adds_fd_def new_fd_def
  by (cases "f (sys s)", drule spec [of _ "sys s"]) (auto simp: fds_def get_env_def syscall_def)

lemma fd_laws_steps:
  assumes "fd_laws W F"
  shows "syscall (w_open_osfhandle W h fl) s = (fd, s') \<Longrightarrow> new_fd F s fd s'"
    and "syscall (w_real_open W p fl m) s = (fd, s') \<Longrightarrow> new_fd F s fd s'"
    and "syscall (w_close W fd) s = (c, s') \<Longrightarrow> less_fd F s fd s'"
    and "syscall (w_CreateFile W p acc sh disp attrs) s = (h, s') \<Longrightarrow> same_fds F s s'"
    and "syscall (w_CloseHandle W h) s = (ok, s') \<Longrightarrow> same_fds F s s'"
    and "syscall (w_get_osfhandle W fd) s = (h, s') \<Longrightarrow> same_fds F s s'"
    and "syscall (w_GetFinalPathNameByHandle W h n) s = (buf, s') \<Longrightarrow> same_fds F s s'"
    and "syscall (w_GetFileInformationByHandle W h) s = (hfi, s') \<Longrightarrow> same_fds F s s'"
    and "syscall (w_GetFileType W h) s = (type, s') \<Longrightarrow> same_fds F s s'"
    and "syscall (w_DeviceIoControl W h) s = (rd, s') \<Longrightarrow> same_fds F s s'"
    and "syscall (w_WideCharToMultiByte W ws k) s = (out, s') \<Longrightarrow> same_fds F s s'"
    and "syscall (w_malloc W n) s = (ok, s') \<Longrightarrow> same_fds F s s'"
    and "syscall (w_stat W p) s = (st, s') \<Longrightarrow> same_fds F s s'"
    and "syscall (w_opendir W p) s = (d, s') \<Longrightarrow> same_fds F s s'"
    and "syscall (w_closedir W d) s = (c, s') \<Longrightarrow> same_fds F s s'"
proof -
  show "syscall (w_close W fd) s = (c, s') \<Longrightarrow> less_fd F s fd s'"
    using syscall_env [of "w_close W fd" s c s'] assms
    by (simp add: fd_laws_def less_fd_def fds_def get_env_def)
qed (erule adds_fd_syscall [rotated] keeps_fds_syscall [rotated], insert assms, simp add: fd_laws_def)+

section \<open>Calls that open nothing\<close>

lemma fd_get_path_fds:
  assumes law: "fd_laws W F" and "fd_get_path W fd s = Some (r, s')"
  shows "same_fds F s s'"
  using assms(2) unfolding fd_get_path_def
  by (auto simp: Let_def call_eq split: if_splits dest!: fd_laws_steps [OF law]) (simp_all add: fd_effect)

lemma open_handle_fd_fds:
  assumes law: "fd_laws W F" and "open_handle_fd W path acc share fl attrs s = (fd, s')"
  shows "new_fd F s fd s'"
  using assms(2) unfolding open_handle_fd_def
  by (auto simp: Let_def call_eq split: if_splits dest!: fd_laws_steps [OF law]) (simp_all add: fd_effect)

section \<open>Links\<close>

text \<open>
  After the descriptor is open and has a handle, \<open>readlink\<close> makes only calls that leave the
  descriptors alone, whatever the outcome.
\<close>

lemma readlink_fds:
  assumes law: "fd_laws W F" and "readlink nd W path len s = Some (r, s')" and "len > 0"
    and "open_symlink_fd W path GENERIC_READ FILE_SHARE_VALID_FLAGS 0 s = (fd, s1)" and "\<not> fd <s 0"
    and "syscall (w_get_osfhandle W fd) s1 = (h, s2)" and "h \<noteq> INVALID_HANDLE_VALUE"
  shows "same_fds F s2 s'"
  using assms(2-7) unfolding readlink_def
  by (auto simp: Let_def call_eq maybe_eq word_greater_zero_iff split: if_splits
      dest!: fd_laws_steps [OF law]) (simp_all add: fd_effect)

text \<open>
  Property C36. \<open>readlink\<close> leaks a descriptor of the C runtime on every path on which it gets as
  far as opening the file, in success and in failure: it ends with \<open>CloseHandle\<close> on the handle and
  never calls \<open>close\<close>, so the slot of the descriptor stays taken.
\<close>

theorem readlink_leaks_descriptor:
  assumes "fd_laws W F" and "readlink nd W path len s = Some (r, s')" and "len > 0"
    and "open_symlink_fd W path GENERIC_READ FILE_SHARE_VALID_FLAGS 0 s = (fd, s1)" and "\<not> fd <s 0"
    and "syscall (w_get_osfhandle W fd) s1 = (h, s2)" and "h \<noteq> INVALID_HANDLE_VALUE"
  shows "fd \<notin> F (get_env s) \<and> F (get_env s') = insert fd (F (get_env s))"
proof -
  have "new_fd F s fd s1" "same_fds F s1 s2" "same_fds F s2 s'"
    using open_handle_fd_fds [OF assms(1)] assms(4) fd_laws_steps(6) [OF assms(1,6)]
      readlink_fds [OF assms] by (simp_all add: open_symlink_fd_def)
  then show ?thesis using assms(5) by (simp add: fd_effect fds_def)
qed

text \<open>On every path \<open>readlink\<close> leaves the descriptors as they were or one more.\<close>

definition one_more :: "('w \<Rightarrow> c_int set) \<Rightarrow> 'w proc \<Rightarrow> 'w proc \<Rightarrow> bool" where
  "one_more F s s' \<longleftrightarrow> (\<exists>x. x \<notin> fds F s \<and> fds F s' = insert x (fds F s))"

lemma readlink_fds_cases:
  assumes law: "fd_laws W F" and r: "readlink nd W path len s = Some (r, s')" and len: "len > 0"
  shows "same_fds F s s' \<or> one_more F s s'"
proof -
  obtain fd s1 where o: "open_symlink_fd W path GENERIC_READ FILE_SHARE_VALID_FLAGS 0 s = (fd, s1)"
    by fastforce
  then have new: "new_fd F s fd s1"
    using open_handle_fd_fds [OF law] by (simp add: open_symlink_fd_def)
  obtain h s2 where h: "syscall (w_get_osfhandle W fd) s1 = (h, s2)" by fastforce
  obtain c s3 where c: "syscall (w_close W fd) s2 = (c, s3)" by fastforce
  note same = fd_laws_steps(6) [OF law h] and less = fd_laws_steps(3) [OF law c]
  consider "fd <s 0" | "\<not> fd <s 0" "h = INVALID_HANDLE_VALUE" | "\<not> fd <s 0" "h \<noteq> INVALID_HANDLE_VALUE"
    by blast
  then show ?thesis
  proof cases
    case 1
    then have "fds F s' = fds F s1" using r o len by (auto simp: readlink_def word_greater_zero_iff)
    with 1 new show ?thesis by (simp add: fd_effect)
  next
    case 2
    then have "s' = s3" using r o h c len by (simp add: readlink_def word_greater_zero_iff)
    with 2 new same less show ?thesis by (simp add: fd_effect)
  next
    case 3
    from readlink_fds [OF law r len o 3(1) h 3(2)] same new 3(1) show ?thesis
      by (auto simp: fd_effect one_more_def)
  qed
qed

text \<open>
  The descriptor is one of a link: \<open>fstat\<close> calls \<open>readlink\<close> on its path. On any other descriptor it
  opens nothing.
\<close>

definition link_fd :: "'w win32 \<Rightarrow> c_int \<Rightarrow> 'w proc \<Rightarrow> bool" where
  "link_fd W fd s \<longleftrightarrow> (\<exists>h s1 hfi s2. syscall (w_get_osfhandle W fd) s = (h, s1) \<and>
     h \<noteq> INVALID_HANDLE_VALUE \<and> syscall (w_GetFileInformationByHandle W h) s1 = (Some hfi, s2) \<and>
     fi_attributes hfi AND FILE_ATTRIBUTE_REPARSE_POINT \<noteq> 0)"

lemma stat_size_not_a_link:
  "fi_attributes hfi AND FILE_ATTRIBUTE_REPARSE_POINT = 0 \<Longrightarrow> stat_size nd W hfi path s = Some (n, s') \<Longrightarrow> s' = s"
  by (simp add: stat_size_def)

lemma stat_size_fds:
  assumes "fd_laws W F" and "stat_size nd W hfi path s = Some (n, s')"
  shows "same_fds F s s' \<or> one_more F s s'"
  using assms(2) readlink_fds_cases [OF assms(1), of nd _ "of_nat PATH_MAX" s _ s']
  by (auto simp: stat_size_def same_fds_def word_greater_zero_iff split: if_splits option.splits)

lemma fstat_runs:
  assumes "syscall (w_get_osfhandle W fd) s = (h, s1)" and "h \<noteq> INVALID_HANDLE_VALUE"
    and "syscall (w_GetFileInformationByHandle W h) s1 = (Some hfi, s2)"
    and "fd_get_path W fd s2 = Some (path, s3)" and "syscall (w_GetFileType W h) s3 = (type, s4)"
  shows "fstat nd W fd buf s =
    (if type = FILE_TYPE_UNKNOWN then
       Some ((- 1, stat_zero), if get_last_error s4 = 0 then set_errno ENOENT s4
         else set_errno_via_winerr (get_last_error s4) s4)
     else stat_size nd W hfi path s4 \<bind> (\<lambda>(size, s).
       Some ((0, (stat_of_type type fd hfi path)\<lparr>st_size := size,
          st_atime := rtl_seconds W (fi_atime hfi), st_mtime := rtl_seconds W (fi_mtime hfi),
          st_ctime := rtl_seconds W (fi_mtime hfi)\<rparr>), s)))"
  using assms by (simp add: fstat_def fstat64_def Let_def)

lemma fstat_fds:
  assumes law: "fd_laws W F" and "fstat nd W fd buf s = Some (r, s')"
  shows "same_fds F s s' \<or> link_fd W fd s \<and> one_more F s s'"
proof -
  obtain h s1 where h: "syscall (w_get_osfhandle W fd) s = (h, s1)" by fastforce
  obtain info s2 where info: "syscall (w_GetFileInformationByHandle W h) s1 = (info, s2)" by fastforce
  note same = fd_laws_steps(6) [OF law h] fd_laws_steps(8) [OF law info]
  show ?thesis
  proof (cases "h = INVALID_HANDLE_VALUE \<or> info = None")
    case True
    then show ?thesis
      using assms(2) h info same by (auto simp: fstat_def fstat64_def fd_effect split: if_splits)
  next
    case False
    then obtain hfi where i: "info = Some hfi" and False': "h \<noteq> INVALID_HANDLE_VALUE" by blast
    obtain path s3 where p: "fd_get_path W fd s2 = Some (path, s3)"
      using assms(2) h info False' unfolding i by (auto simp: fstat_def fstat64_def)
    obtain type s4 where t: "syscall (w_GetFileType W h) s3 = (type, s4)" by fastforce
    have start: "fds F s4 = fds F s"
      using same fd_get_path_fds [OF law p] fd_laws_steps(9) [OF law t] by (simp add: fd_effect)
    show ?thesis
    proof (cases "type = FILE_TYPE_UNKNOWN")
      case True
      then show ?thesis
        using assms(2) fstat_runs [OF h False' info [unfolded i] p t] start
        by (auto simp: same_fds_def split: if_splits)
    next
      case False
      then obtain n where n: "stat_size nd W hfi path s4 = Some (n, s')"
        using assms(2) fstat_runs [OF h False' info [unfolded i] p t] by auto
      show ?thesis
      proof (cases "fi_attributes hfi AND FILE_ATTRIBUTE_REPARSE_POINT = 0")
        case True
        with n start show ?thesis using stat_size_not_a_link [OF True n] by (simp add: same_fds_def)
      next
        case link: False
        have "link_fd W fd s" unfolding link_fd_def using h False' info [unfolded i] link by blast
        with stat_size_fds [OF law n] start show ?thesis by (simp add: same_fds_def one_more_def)
      qed
    qed
  qed
qed

text \<open>
  Property C24. \<open>lstat\<close> closes the descriptor that it opens, whatever it returns. For a file that is
  no link the set of open descriptors is then the one before the call; for a link it is that set or one
  with a single new descriptor, the one that the call of \<open>readlink\<close> for the size has left open.
\<close>

theorem lstat_closes_descriptor:
  assumes "fd_laws W F" and "lstat nd W path buf s = Some (r, s')"
    and "open_symlink_fd W path GENERIC_READ FILE_SHARE_VALID_FLAGS 0 s = (fd, s1)"
  shows "F (get_env s') = F (get_env s) \<or>
    \<not> fd <s 0 \<and> link_fd W fd s1 \<and>
    (\<exists>x. x \<noteq> fd \<and> x \<notin> F (get_env s) \<and> F (get_env s') = insert x (F (get_env s)))"
proof -
  have new: "new_fd F s fd s1"
    using open_handle_fd_fds [OF assms(1)] assms(3) by (simp add: open_symlink_fd_def)
  show ?thesis
  proof (cases "fd <s 0")
    case True
    then have "fds F s' = fds F s1" using assms(2,3) by (auto simp: lstat_def)
    with True new show ?thesis by (simp add: fd_effect fds_def)
  next
    case False
    then obtain q s2 c where "fstat nd W fd buf s1 = Some (q, s2)" "syscall (w_close W fd) s2 = (c, s')"
      using assms(2,3) by (auto simp: lstat_def call_eq)
    then have f: "same_fds F s1 s2 \<or> link_fd W fd s1 \<and> one_more F s1 s2" and c: "less_fd F s2 fd s'"
      using fstat_fds [OF assms(1)] fd_laws_steps(3) [OF assms(1)] by blast+
    from f show ?thesis
    proof
      assume "same_fds F s1 s2"
      with new c False show ?thesis by (simp add: fd_effect fds_def)
    next
      assume l: "link_fd W fd s1 \<and> one_more F s1 s2"
      then obtain x where "x \<notin> fds F s1" "fds F s2 = insert x (fds F s1)" unfolding one_more_def by blast
      with new c False have "x \<noteq> fd" "x \<notin> F (get_env s)" "F (get_env s') = insert x (F (get_env s))"
        by (auto simp: fd_effect fds_def)
      with l False show ?thesis by blast
    qed
  qed
qed

section \<open>Directory streams\<close>

lemma wrap_open_fds:
  assumes law: "fd_laws W F" and "wrap_open nd W path fl ap s = Some (fd, s')"
  shows "new_fd F s fd s'"
proof -
  obtain x s1 where o: "open_impl W path fl ap s = Some (x, s1)"
    using assms(2) by (auto simp: wrap_open_def)
  then have x: "x = fd" and c: "same_fds F s1 s'"
    using assms(2) fds_cached [of nd x fl s1 s' F] by (auto simp: wrap_open_def fd_effect split: if_splits)
  have "new_fd F s fd s1"
    using o unfolding x open_impl_def open_dir_fd_def
    by (auto simp: Let_def call_eq split: if_splits option.splits
        dest!: fd_laws_steps [OF law] open_handle_fd_fds [OF law]) (simp_all add: fd_effect split: if_splits)
  with c show ?thesis by (simp add: fd_effect)
qed

lemma opendir_stub_fds:
  assumes law: "fd_laws W F" and "opendir_stub nd W path s = Some (Some d, s')"
  shows "new_fd F s (ds_fd d) s' \<and> \<not> ds_fd d <s 0"
  using assms(2) unfolding opendir_stub_def
  by (auto simp: Let_def call_eq split: if_splits
      dest!: fd_laws_steps [OF law] wrap_open_fds [OF law]) (simp_all add: fd_effect)

lemma closedir_stub_fds:
  assumes law: "fd_laws W F" and "closedir_stub W (Some d) s = (r, s')"
  shows "r = 0 \<and> (if ds_fd d <s 0 then same_fds F s s' else less_fd F s (ds_fd d) s')"
proof -
  obtain a t where a: "syscall (w_closedir W (ds_dirp d)) s = (a, t)" by fastforce
  obtain b u where b: "syscall (w_close W (ds_fd d)) (if ds_dirp d \<noteq> 0 then t else s) = (b, u)" by fastforce
  from a b assms(2) fd_laws_steps(15) [OF law a] fd_laws_steps(3) [OF law b] show ?thesis
    by (auto simp: closedir_stub_def fd_effect split: if_splits)
qed

text \<open>
  Property C22. The life of a directory stream: the stream that \<open>opendir\<close> returns owns one
  descriptor, which was not open before, and \<open>closedir\<close> on it succeeds and leaves exactly the
  descriptors that were open before \<open>opendir\<close>; on a stream without a descriptor it closes none.
\<close>

theorem stream_lifecycle:
  assumes "fd_laws W F" and "opendir_stub nd W path s = Some (Some d, s1)"
    and "closedir_stub W (Some d) s1 = (r, s2)"
  shows "ds_fd d \<notin> F (get_env s) \<and> F (get_env s1) = insert (ds_fd d) (F (get_env s)) \<and>
    r = 0 \<and> F (get_env s2) = F (get_env s)"
  using opendir_stub_fds [OF assms(1,2)] closedir_stub_fds [OF assms(1,3)]
  by (simp add: fd_effect fds_def split: if_splits)

text \<open>\<open>fdopendir\<close> calls \<open>fstat\<close>, which would follow a link, but no link is a directory.\<close>

lemma dir_not_a_link:
  "S_ISDIR (st_mode (stat_of_type type fd hfi path)) \<Longrightarrow>
   fi_attributes hfi AND FILE_ATTRIBUTE_REPARSE_POINT = 0"
  using stat_of_type_mode [of type fd hfi path] by (auto simp: S_ISDIR_def file_kind_def split: if_splits)

lemma fstat_dir_fds:
  assumes law: "fd_laws W F" and "fstat nd W fd buf s = Some ((0, st), s')" and "S_ISDIR (st_mode st)"
  shows "same_fds F s s'"
proof -
  obtain h s1 hfi s2 path s3 type s4 n where c: "syscall (w_get_osfhandle W fd) s = (h, s1)"
      "syscall (w_GetFileInformationByHandle W h) s1 = (Some hfi, s2)"
      "fd_get_path W fd s2 = Some (path, s3)" "syscall (w_GetFileType W h) s3 = (type, s4)"
      "stat_size nd W hfi path s4 = Some (n, s')" "st_mode st = st_mode (stat_of_type type fd hfi path)"
    using assms(2) by (auto simp: fstat_def fstat64_def call_eq Let_def split: if_splits option.splits)
  then have "s' = s4"
    using stat_size_not_a_link [OF dir_not_a_link c(5)] assms(3) by simp
  then show ?thesis
    using fd_laws_steps(6) [OF law c(1)] fd_laws_steps(8) [OF law c(2)] fd_get_path_fds [OF law c(3)]
      fd_laws_steps(9) [OF law c(4)] by (simp add: fd_effect)
qed

lemma is_dirfd_fds:
  assumes law: "fd_laws W F" and "is_dirfd nd W fd s = Some (True, s')"
  shows "same_fds F s s'"
proof -
  obtain r st where "fstat nd W fd (w_stack_stat W) s = Some ((r, st), s')" "\<not> r <s 0"
      "S_ISDIR (st_mode st)"
    using assms(2) by (auto simp: is_dirfd_def split: if_splits)
  moreover from this have "r = 0" using fstat_result by fastforce
  ultimately show ?thesis using fstat_dir_fds [OF law] by blast
qed

text \<open>
  Property C23. \<open>fdopendir\<close> takes the descriptor over without a copy: the stream it returns has the
  caller's descriptor and no other is open afterwards that was not before, so one \<open>closedir\<close>
  closes exactly that descriptor and the caller must not close it again.
\<close>

theorem fdopendir_takes_descriptor:
  assumes "fd_laws W F" and "fdopendir nd W fd s = Some (Some d, s1)" and "\<not> fd <s 0"
    and "closedir_stub W (Some d) s1 = (r, s2)"
  shows "ds_fd d = fd \<and> F (get_env s1) = F (get_env s) \<and> r = 0 \<and>
    F (get_env s2) = F (get_env s) - {fd}"
proof -
  have "ds_fd d = fd \<and> same_fds F s s1"
    using assms(2) unfolding fdopendir_def
    by (auto simp: Let_def call_eq maybe_eq split: if_splits
        dest!: is_dirfd_fds [OF assms(1)] fd_get_path_fds [OF assms(1)] fd_laws_steps [OF assms(1)])
      (simp_all add: fd_effect)
  then show ?thesis
    using closedir_stub_fds [OF assms(1,4)] assms(3) by (auto simp: fd_effect fds_def)
qed

section \<open>Witnesses\<close>

text \<open>Descriptor 5 is free or in use; every file has handle 77 and is a regular file.\<close>

definition demo_slot_win :: "c_int set win32" where
  "demo_slot_win = null_win\<lparr>
     w_real_open := (\<lambda>p fl m y. if 5 \<in> env y then (- 1, y) else (5, y\<lparr>env := insert 5 (env y)\<rparr>)),
     w_open_osfhandle := (\<lambda>h fl y. if 5 \<in> env y then (- 1, y) else (5, y\<lparr>env := insert 5 (env y)\<rparr>)),
     w_close := (\<lambda>fd y. (0, y\<lparr>env := env y - {fd}\<rparr>)),
     w_CreateFile := (\<lambda>p a m d f y. (77, y)),
     w_get_osfhandle := (\<lambda>fd y. (77, y)),
     w_GetFileInformationByHandle := (\<lambda>h y. (Some (demo_info FILE_ATTRIBUTE_READONLY), y)),
     w_malloc := (\<lambda>n y. (True, y)),
     w_opendir := (\<lambda>p y. (1, y))\<rparr>"

lemma demo_slot_laws: "fd_laws demo_slot_win id"
  unfolding fd_laws_def adds_fd_def keeps_fds_def
  by (intro conjI allI) (simp_all add: demo_slot_win_def null_win_def word_sless_alt)

theorem readlink_leaks_descriptor_witness:
  "\<exists>s'. readlink True demo_slot_win ''l'' 10 (demo_proc {}) = Some ((- 1, []), s') \<and> get_env s' = {5}"
proof -
  let ?s = "demo_proc {} :: c_int set proc"
  obtain s1 where o: "open_symlink_fd demo_slot_win ''l'' GENERIC_READ FILE_SHARE_VALID_FLAGS 0 ?s = (5, s1)"
    by (simp add: open_symlink_fd_def open_handle_fd_def demo_slot_win_def null_win_def syscall_def
        word_sless_alt demo_proc_def init_oflag_cache_def)
  have h: "syscall (w_get_osfhandle demo_slot_win 5) s1 = (77, s1)"
    by (simp add: demo_slot_win_def syscall_def)
  obtain s' where r: "readlink True demo_slot_win ''l'' 10 ?s = Some ((- 1, []), s')"
    using o h by (simp add: readlink_def demo_slot_win_def null_win_def syscall_def word_sless_alt)
  have len: "(10 :: size_t) > 0" by simp
  from readlink_leaks_descriptor [OF demo_slot_laws r len o _ h] r show ?thesis
    by (simp add: word_sless_alt)
qed

theorem lstat_closes_descriptor_witness:
  "\<exists>r s'. lstat True demo_slot_win ''f'' stat_zero (demo_proc {}) = Some (r, s') \<and> get_env s' = {}"
proof -
  let ?s = "demo_proc {} :: c_int set proc"
  obtain s1 where o: "open_symlink_fd demo_slot_win ''f'' GENERIC_READ FILE_SHARE_VALID_FLAGS 0 ?s = (5, s1)"
    by (simp add: open_symlink_fd_def open_handle_fd_def demo_slot_win_def null_win_def syscall_def
        word_sless_alt demo_proc_def init_oflag_cache_def)
  obtain r s' where r: "lstat True demo_slot_win ''f'' stat_zero ?s = Some (r, s')"
    using o by (simp add: Let_def lstat_def fstat_def fstat64_def fd_get_path_def demo_slot_win_def null_win_def
        syscall_def word_sless_alt)
  have "\<not> link_fd demo_slot_win 5 s1"
    by (simp add: link_fd_def demo_slot_win_def demo_info_def syscall_def)
  with lstat_closes_descriptor [OF demo_slot_laws r o] r show ?thesis by auto
qed

theorem stream_lifecycle_witness:
  "\<exists>s1 s2 d. opendir_stub True demo_slot_win ''d'' (demo_proc {}) = Some (Some d, s1) \<and>
     closedir_stub demo_slot_win (Some d) s1 = (0, s2) \<and> get_env s1 = {5} \<and> get_env s2 = {}"
proof -
  let ?s = "demo_proc {} :: c_int set proc"
  define s0 where "s0 = snd (syscall (w_real_open demo_slot_win ''d'' O_BINARY None) ?s)"
  have "open_impl demo_slot_win ''d'' 0 None ?s = Some (5, s0)"
    by (simp add: open_impl_def s0_def demo_slot_win_def null_win_def syscall_def word_sless_alt
        demo_proc_def init_oflag_cache_def)
  moreover have "cache_inv s0" by (simp add: s0_def demo_cache_inv)
  then obtain t where t: "fd_cache_oflag True 5 0 s0 = Some t"
    using fd_cache_oflag_returns [of s0 5 True 0] by (auto simp: open_max_def)
  ultimately have "wrap_open True demo_slot_win ''d'' 0 None ?s = Some (5, t)"
    by (simp add: wrap_open_def word_sless_alt)
  then have o: "opendir_stub True demo_slot_win ''d'' ?s = Some (Some \<lparr>ds_dirp = 1, ds_fd = 5\<rparr>, t)"
    by (simp add: opendir_stub_def demo_slot_win_def syscall_def word_sless_alt)
  obtain r s2 where c: "closedir_stub demo_slot_win (Some \<lparr>ds_dirp = 1, ds_fd = 5\<rparr>) t = (r, s2)"
    by fastforce
  from stream_lifecycle [OF demo_slot_laws o c] o c show ?thesis by auto
qed

text \<open>The same with directory handles that have a path.\<close>

definition demo_slot_dir_win :: "c_int set win32" where
  "demo_slot_dir_win = demo_slot_win\<lparr>
     w_GetFileInformationByHandle := (\<lambda>h y. (Some (demo_info FILE_ATTRIBUTE_DIRECTORY), y)),
     w_GetFileType := (\<lambda>h y. (FILE_TYPE_DISK, y)),
     w_GetFinalPathNameByHandle := (\<lambda>h n y. ((1, ''d'' @ [NUL]), y))\<rparr>"

lemma demo_slot_dir_laws: "fd_laws demo_slot_dir_win id"
  unfolding fd_laws_def adds_fd_def keeps_fds_def
  by (intro conjI allI) (simp_all add: demo_slot_dir_win_def demo_slot_win_def null_win_def word_sless_alt)

theorem fdopendir_takes_descriptor_witness:
  "\<exists>s2. fdopendir True demo_slot_dir_win 3 (demo_proc {3}) =
       Some (Some \<lparr>ds_dirp = 1, ds_fd = 3\<rparr>, demo_proc {3}) \<and>
     closedir_stub demo_slot_dir_win (Some \<lparr>ds_dirp = 1, ds_fd = 3\<rparr>) (demo_proc {3}) = (0, s2) \<and>
     get_env s2 = {}"
proof -
  let ?s = "demo_proc {3} :: c_int set proc"
  have calls: "syscall (w_get_osfhandle demo_slot_dir_win 3) ?s = (77, ?s)"
    "syscall (w_GetFileInformationByHandle demo_slot_dir_win 77) ?s =
      (Some (demo_info FILE_ATTRIBUTE_DIRECTORY), ?s)"
    "syscall (w_GetFileType demo_slot_dir_win 77) ?s = (FILE_TYPE_DISK, ?s)"
    "syscall (w_malloc demo_slot_dir_win n) ?s = (True, ?s)"
    "syscall (w_opendir demo_slot_dir_win ''d'') ?s = (1, ?s)"
    "syscall (w_GetFinalPathNameByHandle demo_slot_dir_win 77 k) ?s = ((1, ''d'' @ NUL # []), ?s)" for n k
    by (simp_all add: demo_slot_dir_win_def demo_slot_win_def syscall_def)
  have p: "fd_get_path demo_slot_dir_win 3 ?s = Some (Some (display_path ''d''), ?s)"
    by (rule fd_get_path_steps [where h = 77 and n = 1 and r = "[]"]) (use calls in simp_all)
  have d: "display_path ''d'' = ''d''" by (simp add: display_path_def unc_prefix_def ext_prefix_def)
  have o: "fdopendir True demo_slot_dir_win 3 ?s = Some (Some \<lparr>ds_dirp = 1, ds_fd = 3\<rparr>, ?s)"
    using calls by (simp add: fdopendir_def is_dirfd_def fstat_def fstat64_def p d stat_size_def demo_info_def
        stat_of_type_def stat_zero_def S_ISDIR_def)
  obtain r s2 where c: "closedir_stub demo_slot_dir_win (Some \<lparr>ds_dirp = 1, ds_fd = 3\<rparr>) ?s = (r, s2)"
    by fastforce
  from fdopendir_takes_descriptor [OF demo_slot_dir_laws o _ c] o c show ?thesis
    by (auto simp: word_sless_alt)
qed

end
