(* ===== verification/CrtSetup.thy ===== *)
theory CrtSetup
  imports Uio FdPath
begin

text \<open>
  What \<open>libc-compat/winsup\<close> sets up in the C runtime and asks of it for messages:
  \<open>io.c\<close>, whose constructor puts the standard streams into binary mode and whose two functions
  forward to \<open>read\<close> and \<open>write\<close>, \<open>crt_flags.c\<close>, and \<open>win_strerror\<close> of \<open>internal/assert.c\<close>.
\<close>

section \<open>Binary mode\<close>

text \<open>
  The functions and variables of the C runtime that \<open>io.c\<close> uses; a stream is its address.
  \<open>crt_set_fmode\<close> stores the variable \<open>_fmode\<close>.
\<close>

record 'w crt =
  crt_set_fmode :: "c_int \<Rightarrow> 'w os \<Rightarrow> 'w os"
  crt_setmode :: "c_int \<Rightarrow> c_int \<Rightarrow> 'w os \<Rightarrow> c_int \<times> 'w os"
  crt_fileno :: "ptr \<Rightarrow> c_int"
  crt_stdin :: ptr
  crt_stdout :: ptr
  crt_stderr :: ptr

definition read_stub :: "'w io_api \<Rightarrow> c_int \<Rightarrow> nat \<Rightarrow> 'w os \<Rightarrow> (int \<times> byte list) \<times> 'w os" where
  "read_stub A fd count os = io_read A fd count os"

definition write_stub :: "'w io_api \<Rightarrow> c_int \<Rightarrow> byte list \<Rightarrow> 'w os \<Rightarrow> int \<times> 'w os" where
  "write_stub A fd buf os = io_write A fd buf os"

definition init_io_mode :: "'w crt \<Rightarrow> 'w os \<Rightarrow> 'w os" where
  "init_io_mode C os =
     (let os = crt_set_fmode C O_BINARY os;
          (_, os) = crt_setmode C (crt_fileno C (crt_stdin C)) O_BINARY os;
          (_, os) = crt_setmode C (crt_fileno C (crt_stdout C)) O_BINARY os;
          (_, os) = crt_setmode C (crt_fileno C (crt_stderr C)) O_BINARY os
      in os)"

definition dowildcard :: c_int where "dowildcard = 0"

text \<open>
  \<open>M e fd\<close> is the translation mode of descriptor \<open>fd\<close> in environment \<open>e\<close> and \<open>D e\<close> that of files
  opened later, the value of \<open>_fmode\<close>. \<open>_setmode\<close> changes the mode of its descriptor, if that is
  open, and nothing else.
\<close>

definition mode_laws ::
  "'w crt \<Rightarrow> ('w \<Rightarrow> c_int set) \<Rightarrow> ('w \<Rightarrow> c_int \<Rightarrow> c_int) \<Rightarrow> ('w \<Rightarrow> c_int) \<Rightarrow> bool" where
  "mode_laws C F M D \<longleftrightarrow>
     (\<forall>m y. D (env (crt_set_fmode C m y)) = m \<and> M (env (crt_set_fmode C m y)) = M (env y) \<and>
        F (env (crt_set_fmode C m y)) = F (env y)) \<and>
     (\<forall>fd m y. let e = env (snd (crt_setmode C fd m y)) in D e = D (env y) \<and> F e = F (env y) \<and>
        M e = (if fd \<in> F (env y) then (M (env y))(fd := m) else M (env y)))"

text \<open>
  After the constructor the standard streams that are open are in binary mode, and so will be every
  file opened without a mode; no other descriptor changes.
\<close>

lemma init_io_mode_binary:
  assumes "mode_laws C F M D"
  defines "std \<equiv> {crt_fileno C (crt_stdin C), crt_fileno C (crt_stdout C), crt_fileno C (crt_stderr C)}"
  shows "D (env (init_io_mode C os)) = O_BINARY \<and> F (env (init_io_mode C os)) = F (env os) \<and>
    (\<forall>fd. M (env (init_io_mode C os)) fd = (if fd \<in> std \<inter> F (env os) then O_BINARY else M (env os) fd))"
  using assms by (auto simp: mode_laws_def init_io_mode_def Let_def split_beta)

section \<open>Messages\<close>

text \<open>
  \<open>win_strerror\<close> returns a pointer to its static buffer of \<open>64 * 1024 - 1\<close> characters or to a
  literal. \<open>format\<close> is \<open>FormatMessage\<close> with the flags and the language of the source: it is given the
  number and the size of the buffer and returns its result and the characters that it has stored.
\<close>

definition win_strerror_buf_size :: nat where "win_strerror_buf_size = 64 * 1024 - 1"

datatype message = Static_buffer | Literal string

definition win_strerror ::
  "(dword \<Rightarrow> nat \<Rightarrow> ('w, dword \<times> string) ext) \<Rightarrow> dword \<Rightarrow> string \<Rightarrow> 'w proc \<Rightarrow> (message \<times> string) \<times> 'w proc" where
  "win_strerror format winerr buf s =
     (let ((n, stored), s) = syscall (format winerr win_strerror_buf_size) s;
          buf = stored @ drop (length stored) buf
      in if n = 0 then ((Literal ''Unknown error (win_strerror failed)'', buf), s)
         else ((Static_buffer, buf), s))"

definition message_text :: "message \<Rightarrow> string \<Rightarrow> string option" where
  "message_text msg buf = (case msg of Static_buffer \<Rightarrow> c_string buf | Literal t \<Rightarrow> Some t)"

text \<open>
  If \<open>FormatMessage\<close> stays inside the buffer and terminates what it reports as success, every
  message is terminated inside the buffer, and the buffer keeps its size.
\<close>

lemma win_strerror_terminated:
  assumes "\<And>y n stored y'. format winerr win_strerror_buf_size y = ((n, stored), y') \<Longrightarrow>
      length stored \<le> win_strerror_buf_size \<and> (n \<noteq> 0 \<longrightarrow> (\<exists>t. stored = t @ [NUL] \<and> NUL \<notin> set t))"
    and "length buf = win_strerror_buf_size" and "win_strerror format winerr buf s = ((msg, buf'), s')"
  shows "length buf' = win_strerror_buf_size \<and>
    (\<exists>t. message_text msg buf' = Some t \<and> length t < win_strerror_buf_size)"
proof -
  obtain n stored y where f: "format winerr win_strerror_buf_size (sys s) = ((n, stored), y)"
    by (metis prod.exhaust)
  note law = assms(1) [OF f]
  have buf': "buf' = stored @ drop (length stored) buf"
    "msg = (if n = 0 then Literal ''Unknown error (win_strerror failed)'' else Static_buffer)"
    using assms(3) f by (auto simp: win_strerror_def syscall_def Let_def split: if_splits)
  then have len: "length buf' = win_strerror_buf_size" using law assms(2) by simp
  show ?thesis
  proof (cases "n = 0")
    case True
    then show ?thesis using len buf'(2) by (simp add: message_text_def win_strerror_buf_size_def)
  next
    case False
    then obtain t where "stored = t @ [NUL]" "NUL \<notin> set t" using law by blast
    then show ?thesis
      using len buf' law False by (auto simp: message_text_def c_string_append)
  qed
qed

end
