(* ===== verification/Spec2Isabelle.thy ===== *)
theory Spec2Isabelle
  imports Prelude StrCompat MmapHack MmapSpec MmapProtocol Uio Sendfile MkDev Win32 WinErrMap
    WinErrno OflagCache FdPath Link Stat PathAt OpenCompat FileCompat Mkdir AtCompat Dirent Acl
    TwoPaths WinApi Descriptors CrtSetup
begin

text \<open>
  A verification development for the C code of \<open>magiskboot_build\<close>: the directory
  \<open>src/libc-compat\<close>, a layer of POSIX functions that lets \<open>magiskboot\<close>, a Linux program, run
  on Windows (\<open>winsup\<close>), on Emscripten (\<open>emsup\<close>) and on systems without \<open>sendfile\<close>
  (\<open>non-linux\<close>) or \<open>strlcpy\<close> (\<open>libbsd\<close>).

  Parts of the program and where they are modelled:
  \<^item> \<open>emsup/mmap_hack.c\<close>: \<open>MmapHack\<close> is the code, a linked list in a heap and the wrappers of
    \<open>mmap\<close>, \<open>close\<close>, \<open>fclose\<close> and \<open>munmap\<close>; \<open>MmapSpec\<close> is an abstract table of mappings and the
    proof that each function implements its operation on the table; \<open>MmapProtocol\<close> is the
    invariant that links table and kernel, the step relation of a client, and the properties.
  \<^item> \<open>libbsd/str.c\<close> and \<open>winsup/str.c\<close>: \<open>StrCompat\<close>, on bounds-checked byte arrays.
  \<^item> \<open>winsup/uio.c\<close>: \<open>Uio\<close>, the loop of \<open>readv\<close> and \<open>writev\<close> with a rule for any device.
  \<^item> \<open>non-linux/sendfile_fallback.c\<close>: \<open>Sendfile\<close>.
  \<^item> \<open>include/winsup/mknod_compat.h\<close> and \<open>include/emsup/mkdev_stubs.h\<close>: \<open>MkDev\<close>.
  \<^item> \<open>winsup/internal/winerr_map.h\<close>: \<open>WinErrMap\<close>, the whole table; \<open>winsup/internal/errno.c\<close>:
    \<open>WinErrno\<close>.
  \<^item> \<open>winsup/internal/fd.c\<close>: \<open>OflagCache\<close> (the cache of open flags), \<open>FdPath\<close> (paths of
    descriptors, opening directories and links), \<open>PathAt\<close> (paths relative to a descriptor).
  \<^item> \<open>winsup/link.c\<close>: \<open>Link\<close>; \<open>stat.c\<close>: \<open>Stat\<close>; \<open>open.c\<close>: \<open>OpenCompat\<close>; \<open>file.c\<close>:
    \<open>FileCompat\<close>; \<open>mkdir.c\<close> and \<open>mknod_stub.c\<close>: \<open>Mkdir\<close>; \<open>at.c\<close>: \<open>AtCompat\<close>;
    \<open>dirent.c\<close>: \<open>Dirent\<close>; \<open>acl.c\<close>: \<open>Acl\<close>.
  \<^item> \<open>io.c\<close>, \<open>crt_flags.c\<close> and \<open>win_strerror\<close> of \<open>internal/assert.c\<close>: \<open>CrtSetup\<close>.
  \<^item> Three theories hold no code but what spans these files: \<open>TwoPaths\<close> (how \<open>linkat\<close> and
    \<open>renameat\<close> treat their two paths), \<open>Descriptors\<close> (which descriptors a call leaves open) and
    \<open>WinApi\<close> (what any sequence of calls of the functions of \<open>winsup\<close> keeps).

  How they interact: on Windows the linker redirects \<open>open\<close>, \<open>fopen\<close>, \<open>fdopen\<close>, \<open>creat\<close>,
  \<open>fstat\<close> and \<open>CreateFileW\<close> to the \<open>__wrap_\<close> functions, and the definitions call each other the
  same way: \<open>wrap_fopen\<close> calls \<open>wrap_open\<close>, which records the flags in the cache; \<open>is_dirfd\<close>
  calls \<open>fstat\<close>, which calls \<open>fd_get_path\<close> and \<open>readlink\<close>; \<open>get_path_at\<close> calls \<open>is_dirfd\<close>,
  and every function of \<open>AtCompat\<close> calls it.

  State. The Windows functions and the C runtime are parameters: a record \<open>win32\<close> with one field
  per function (\<open>Win32\<close>). The process state \<open>proc\<close> has what these functions can change (\<open>errno\<close>,
  the last Windows error and an abstract rest) and, apart from that, the static variables of the
  modelled code. Assumptions about the platform are named predicates (\<open>handle_law\<close>,
  \<open>fd_range_law\<close>, \<open>fd_laws\<close>, \<open>open_file_laws\<close>, \<open>final_path_law\<close>, \<open>ascii_law\<close>, \<open>dir_laws\<close>,
  \<open>attr_laws\<close>, \<open>kernel_laws\<close>, \<open>mapping_laws\<close>, \<open>write_law\<close>, \<open>read_law\<close>, \<open>copy_laws\<close>), each of which
  is shown to hold of a concrete platform in the witnesses; \<open>mode_laws\<close> is the one that only the lemma
  on binary mode uses. The calls may fail: \<open>kernel_laws\<close> lets \<open>close\<close> and \<open>fclose\<close> refuse, \<open>dir_laws\<close>
  lets \<open>rmdir\<close> refuse, and \<open>mapping_laws\<close>, which says which shared writable mappings the kernel has,
  lets \<open>munmap\<close> refuse.

  Conventions. A call that does not return (a failed assertion, \<open>abort\<close>, an access outside an
  object, a signed overflow, a loop without end) has the value \<^const>\<open>None\<close>, or, in \<open>Sendfile\<close>, a
  value that says which. The argument \<open>nd\<close> says whether \<open>NDEBUG\<close> is defined, as it is in a release build; then
  an assertion does not evaluate its argument. Machine integers are words of their width.

  The groups of lemmas: refinement of the linked list to a table, and invariants of the protocol
  (\<open>MmapSpec\<close>, \<open>MmapProtocol\<close>), with the table shown to be the table of the kernel's mappings;
  functional correctness against a reference (\<open>StrCompat\<close>, \<open>WinErrMap\<close>, \<open>FdPath\<close>, \<open>FileCompat\<close>, and
  for paths \<open>joined_path\<close> in \<open>PathAt\<close> and \<open>stands_for\<close> in \<open>AtCompat\<close>, the path that a descriptor and a
  name stand for); a rule for a loop over an unknown device (\<open>Uio\<close>,
  \<open>Sendfile\<close>); contracts as locales, interpreted on the model (\<open>delayed_close_table\<close>,
  \<open>substring_search\<close>, \<open>flag_store\<close>, \<open>at_wrapper\<close>, \<open>api_invariant\<close>); invariants of whole programs:
  \<open>run_calls\<close> runs a list of calls of any of the functions of \<open>winsup\<close>, and \<open>api_invariant\<close>
  says what the platform has to keep for the functions to keep it, with one lemma per function;
  it is interpreted on the well-formedness of the flag cache and on an open file together with
  its recorded flags, and the properties \<open>table_well_formed\<close> and \<open>open_flag_survives\<close> follow for
  every such program; and theorems that state what the code does where this differs from what
  POSIX or its comments ask for.

  Bounds. There is no fuel: loops are structural, have a measure, or are partial functions whose
  termination is a theorem. The theorems on \<open>readv\<close> and \<open>writev\<close> assume fewer than \<open>2 ^ 31\<close> buffers,
  the range of the count, and fewer than \<open>2 ^ 63\<close> bytes in all of them, since the code does not check
  that an \<open>ssize_t\<close> can count them; beyond that an addition may overflow and the model has no result.
  \<open>OPEN_MAX\<close> is 8192 (the value for \<open>msvcrt\<close>), \<open>PATH_MAX\<close> is 260.

  Not modelled: log output; \<open>free\<close> (memory leaks are not visible); locale and code page beyond
  one-byte characters; threads (the code has none); \<open>__errno\<close>, which returns the address that
  the C runtime keeps \<open>errno\<close> at; the text of failed assertions, which end the process; the headers,
  which only declare or rename; the Rust bindings, patches and build scripts.
\<close>

section \<open>Properties that span components\<close>

text \<open>
  From \<open>open\<close> to the lookup by handle: a file opened through the wrapper is found
  in the cache by its handle, so the Rust code, which has only the handle, sees the append mode
  that the C code asked for.
\<close>

theorem open_then_lookup:
  assumes "cache_inv s" and "handle_law W H" and "fd_range_law W"
    and "open_impl W file oflag ap s = Some (fd, s1)" and "\<not> fd <s 0"
    and "wrap_open nd W file oflag ap s = Some (fd, s')" and "sole_owner H s' fd h"
  shows "\<exists>s''. get_osfhandle_oflag W h s' = Some (oflag AND O_APPEND, s'') \<and> cache_inv s''"
proof -
  have "cache_inv s'" "has_flag s' fd (oflag AND O_APPEND)"
    using wrap_open_records [OF assms(1,3,4), of nd] assms(5,6) by auto
  from get_osfhandle_oflag_finds [OF assms(2) this(1) assms(7) this(2)] show ?thesis
    by (auto simp: evicted_def)
qed

definition demo_lookup_win :: "(c_int \<Rightarrow> handle) win32" where
  "demo_lookup_win = demo_win\<lparr>
     w_real_open := (\<lambda>p fl m y. (5, y\<lparr>env := demo_handles\<rparr>))\<rparr>"

theorem open_then_lookup_witness:
  "\<exists>s' s''. wrap_open True demo_lookup_win ''log'' (O_WRONLY OR O_APPEND) None
       (demo_proc (\<lambda>_. INVALID_HANDLE_VALUE)) = Some (5, s') \<and>
     get_osfhandle_oflag demo_lookup_win 77 s' = Some (O_APPEND, s'')"
proof -
  let ?s = "demo_proc (\<lambda>_. INVALID_HANDLE_VALUE) :: (c_int \<Rightarrow> handle) proc"
  define s1 where "s1 = snd (syscall (w_real_open demo_lookup_win ''log''
    (O_WRONLY OR O_APPEND OR O_BINARY) None) ?s)"
  have o: "open_impl demo_lookup_win ''log'' (O_WRONLY OR O_APPEND) None ?s = Some (5, s1)"
    by (simp add: open_impl_def s1_def demo_lookup_win_def demo_win_def null_win_def syscall_def
        word_sless_alt)
  have r: "fd_range_law demo_lookup_win"
    by (simp add: fd_range_law_def demo_lookup_win_def demo_win_def null_win_def open_max_def)
  have h: "handle_law demo_lookup_win id"
    by (simp add: handle_law_def demo_lookup_win_def demo_win_def)
  have "cache_inv s1" by (simp add: s1_def demo_cache_inv)
  then obtain s' where s': "fd_cache_oflag True 5 (O_WRONLY OR O_APPEND) s1 = Some s'" "sys s' = sys s1"
    using fd_cache_oflag_returns [of s1 5 True "O_WRONLY OR O_APPEND"] by (auto simp: open_max_def)
  then have w: "wrap_open True demo_lookup_win ''log'' (O_WRONLY OR O_APPEND) None ?s = Some (5, s')"
    using o by (simp add: wrap_open_def word_sless_alt)
  have "get_env s' = demo_handles"
    using s'(2) by (simp add: get_env_def s1_def syscall_def demo_lookup_win_def)
  then have "sole_owner id s' 5 77" using demo_sole_owner by (simp add: sole_owner_def)
  from open_then_lookup [OF demo_cache_inv h r o _ w this] w show ?thesis
    by (auto simp: word_sless_alt)
qed

end
